(* ===== verification/Prelude.thy ===== *)
theory Prelude
  imports Main "HOL-Library.AList" "HOL-Library.Char_ord" "HOL-Library.List_Lexorder"
    "HOL-Library.Sublist" "HOL-Library.Multiset"
begin

text \<open>
  What every component shares: Go strings, slices, maps and sorting.

  A Go string is its byte sequence, an Isabelle \<open>string\<close> (a \<open>char\<close> is one byte). A Go map is
  its list of entries in the order a \<open>range\<close> loop happens to visit them: keys are distinct
  (\<open>gomap_ok\<close>), a read of a missing key gives the zero value, a write keeps the entry's place
  or appends. Theorems that must not depend on the visiting order quantify over it. A nil map
  reads, ranges and compares as the empty one; where the code tells them apart (JSON) the field
  is an \<open>option\<close>. A Go \<open>int\<close> is 64 bits wide; it is an \<open>int\<close> here where the code only compares
  it, and a word where it is converted or multiplied.
\<close>

named_theorems go_defs "definitions of the Go library functions"
named_theorems gomap_simps "lookup, update and key lemmas of Go maps"

section \<open>Bytes and strings\<close>

abbreviation byte :: "char \<Rightarrow> nat" where
  "byte c \<equiv> of_char c"

definition is_digit :: "char \<Rightarrow> bool" where
  "is_digit c = (48 \<le> byte c \<and> byte c \<le> 57)"

text \<open>\<open>strings.Split(s, sep)\<close> with a separator of one byte: never empty.\<close>

fun split_on :: "char \<Rightarrow> string \<Rightarrow> string list" where
  "split_on sep [] = [[]]"
| "split_on sep (c # cs) =
     (if c = sep then [] # split_on sep cs
      else (case split_on sep cs of [] \<Rightarrow> [[c]] | p # ps \<Rightarrow> (c # p) # ps))"

text \<open>\<open>strings.Join\<close>.\<close>

fun join_with :: "string \<Rightarrow> string list \<Rightarrow> string" where
  "join_with sep [] = []"
| "join_with sep [x] = x"
| "join_with sep (x # y # zs) = x @ sep @ join_with sep (y # zs)"

text \<open>\<open>strings.HasPrefix\<close>, \<open>HasSuffix\<close>, \<open>CutPrefix\<close>, \<open>TrimPrefix\<close>, \<open>TrimSuffix\<close>.\<close>

definition has_prefix :: "string \<Rightarrow> string \<Rightarrow> bool" where
  "has_prefix s p = (take (length p) s = p)"

definition has_suffix :: "string \<Rightarrow> string \<Rightarrow> bool" where
  "has_suffix s p = has_prefix (rev s) (rev p)"

definition cut_prefix :: "string \<Rightarrow> string \<Rightarrow> string option" where
  "cut_prefix s p = (if has_prefix s p then Some (drop (length p) s) else None)"

definition trim_prefix :: "string \<Rightarrow> string \<Rightarrow> string" where
  "trim_prefix s p = (if has_prefix s p then drop (length p) s else s)"

definition trim_suffix :: "string \<Rightarrow> string \<Rightarrow> string" where
  "trim_suffix s p = (if has_suffix s p then take (length s - length p) s else s)"

text \<open>\<open>strings.TrimLeft\<close> and \<open>TrimRight\<close> with a cutset of one byte, \<open>strings.TrimSpace\<close> (the
  ASCII white space), \<open>strings.Cut\<close> with a separator of one byte, \<open>strings.Count\<close> of a byte.\<close>

definition trim_left_char :: "char \<Rightarrow> string \<Rightarrow> string" where
  "trim_left_char c s = dropWhile (\<lambda>x. x = c) s"

definition trim_right_char :: "char \<Rightarrow> string \<Rightarrow> string" where
  "trim_right_char c s = rev (dropWhile (\<lambda>x. x = c) (rev s))"

definition is_space :: "char \<Rightarrow> bool" where
  "is_space c = (byte c \<in> {9, 10, 11, 12, 13, 32})"

definition trim_space :: "string \<Rightarrow> string" where
  "trim_space s = rev (dropWhile is_space (rev (dropWhile is_space s)))"

definition cut_char :: "char \<Rightarrow> string \<Rightarrow> string \<times> string" where
  "cut_char c s = (takeWhile (\<lambda>x. x \<noteq> c) s, drop 1 (dropWhile (\<lambda>x. x \<noteq> c) s))"

definition count_char :: "char \<Rightarrow> string \<Rightarrow> nat" where
  "count_char c s = length (filter (\<lambda>x. x = c) s)"

text \<open>\<open>strings.Contains(s, sub)\<close>.\<close>

fun contains_sub :: "string \<Rightarrow> string \<Rightarrow> bool" where
  "contains_sub [] p = (p = [])"
| "contains_sub (c # cs) p = (has_prefix (c # cs) p \<or> contains_sub cs p)"

text \<open>\<open>strings.ToLower\<close> and \<open>ToUpper\<close> on ASCII bytes; other bytes are left alone. \<open>EqualFold\<close> is
  used on hex digests only, where it is equality of the lower-case forms.\<close>

definition lower_char :: "char \<Rightarrow> char" where
  "lower_char c = (if 65 \<le> byte c \<and> byte c \<le> 90 then char_of (byte c + 32) else c)"

definition upper_char :: "char \<Rightarrow> char" where
  "upper_char c = (if 97 \<le> byte c \<and> byte c \<le> 122 then char_of (byte c - 32) else c)"

definition to_lower :: "string \<Rightarrow> string" where
  "to_lower s = map lower_char s"

definition to_upper :: "string \<Rightarrow> string" where
  "to_upper s = map upper_char s"

definition equal_fold :: "string \<Rightarrow> string \<Rightarrow> bool" where
  "equal_fold a b = (to_lower a = to_lower b)"

text \<open>\<open>strings.Compare\<close>: byte-wise lexicographic order.\<close>

definition str_compare :: "string \<Rightarrow> string \<Rightarrow> int" where
  "str_compare a b = (if a < b then -1 else if a = b then 0 else 1)"

text \<open>\<open>strconv.Atoi\<close>: an optional sign, at least one digit, a value in the range of a 64-bit
  \<open>int\<close>; anything else is an error (\<open>None\<close>).\<close>

fun atoi_digits :: "nat \<Rightarrow> string \<Rightarrow> nat option" where
  "atoi_digits n [] = Some n"
| "atoi_digits n (c # cs) =
     (if is_digit c then atoi_digits (10 * n + (byte c - 48)) cs else None)"

definition int64_ok :: "int \<Rightarrow> bool" where
  "int64_ok i = (- 9223372036854775808 \<le> i \<and> i \<le> 9223372036854775807)"

definition atoi_sign :: "string \<Rightarrow> bool \<times> string" where
  "atoi_sign s = (case s of [] \<Rightarrow> (False, []) | c # cs \<Rightarrow>
     if c = CHR ''-'' then (True, cs) else if c = CHR ''+'' then (False, cs) else (False, s))"

definition atoi :: "string \<Rightarrow> int option" where
  "atoi s = (case atoi_sign s of (neg, body) \<Rightarrow>
     if body = [] then None
     else (case atoi_digits 0 body of None \<Rightarrow> None
       | Some n \<Rightarrow> (let i = (if neg then - int n else int n) in
           if int64_ok i then Some i else None)))"

text \<open>Decimal output of a number (\<open>strconv.AppendInt\<close>).\<close>

definition digit_char :: "nat \<Rightarrow> char" where
  "digit_char d = char_of (48 + d)"

fun dec_nat :: "nat \<Rightarrow> string" where
  "dec_nat n = (if n < 10 then [digit_char n] else dec_nat (n div 10) @ [digit_char (n mod 10)])"

declare dec_nat.simps [simp del]

definition dec_int :: "int \<Rightarrow> string" where
  "dec_int i = (if i < 0 then CHR ''-'' # dec_nat (nat (- i)) else dec_nat (nat i))"

section \<open>Maps\<close>

type_synonym 'v gomap = "(string \<times> 'v) list"

definition gomap_ok :: "('k \<times> 'v) list \<Rightarrow> bool" where
  "gomap_ok m = distinct (map fst m)"

text \<open>\<open>m[k]\<close> with the zero value \<open>d\<close>, \<open>m[k] = v\<close>, \<open>delete(m, k)\<close>.\<close>

definition mget :: "'v \<Rightarrow> ('k \<times> 'v) list \<Rightarrow> 'k \<Rightarrow> 'v" where
  "mget d m k = (case map_of m k of None \<Rightarrow> d | Some v \<Rightarrow> v)"

abbreviation mput :: "'k \<Rightarrow> 'v \<Rightarrow> ('k \<times> 'v) list \<Rightarrow> ('k \<times> 'v) list" where
  "mput k v m \<equiv> AList.update k v m"

abbreviation mdel :: "'k \<Rightarrow> ('k \<times> 'v) list \<Rightarrow> ('k \<times> 'v) list" where
  "mdel k m \<equiv> AList.delete k m"

text \<open>\<open>maps.Equal\<close>: the same length and the same value under every key.\<close>

definition maps_equal :: "('k \<times> 'v) list \<Rightarrow> ('k \<times> 'v) list \<Rightarrow> bool" where
  "maps_equal m n = (length m = length n \<and> (\<forall>(k, v) \<in> set m. map_of n k = Some v))"

lemma map_of_mput [gomap_simps, simp]: "map_of (mput k v m) = (map_of m)(k \<mapsto> v)"
  by (rule AList.update_conv')

lemma map_of_mdel [gomap_simps, simp]: "map_of (mdel k m) = (map_of m)(k := None)"
  by (rule AList.delete_conv')

lemma gomap_ok_Nil [gomap_simps, simp]: "gomap_ok []"
  by (simp add: gomap_ok_def)

lemma gomap_ok_Cons [gomap_simps, simp]:
  "gomap_ok ((k, v) # m) = (k \<notin> fst ` set m \<and> gomap_ok m)"
  by (simp add: gomap_ok_def)

lemma gomap_ok_mput [gomap_simps, simp]: "gomap_ok m \<Longrightarrow> gomap_ok (mput k v m)"
  by (simp add: gomap_ok_def distinct_update)

lemma gomap_ok_mdel [gomap_simps, simp]: "gomap_ok m \<Longrightarrow> gomap_ok (mdel k m)"
  by (simp add: gomap_ok_def distinct_delete)

lemma mget_mput [gomap_simps, simp]: "mget d (mput k v m) k' = (if k' = k then v else mget d m k')"
  by (simp add: mget_def)

lemma mget_Nil [gomap_simps, simp]: "mget d [] k = d"
  by (simp add: mget_def)

lemma list_all_mput: "list_all P m \<Longrightarrow> P (k, v) \<Longrightarrow> list_all P (mput k v m)"
  by (induction m) auto

lemma list_all_mdel: "list_all P m \<Longrightarrow> list_all P (mdel k m)"
  by (induction m) (auto simp: AList.delete_eq)

lemma list_all_mget: "list_all (\<lambda>(k, v). P v) m \<Longrightarrow> P d \<Longrightarrow> P (mget d m k)"
  by (auto simp: mget_def list_all_iff dest: map_of_SomeD split: option.splits)

lemma mput_same: "map_of m k = Some v \<Longrightarrow> mput k v m = m"
  by (rule AList.update_triv)

lemma gomap_in_set_iff: "gomap_ok m \<Longrightarrow> (k, v) \<in> set m \<longleftrightarrow> map_of m k = Some v"
  by (auto simp: gomap_ok_def dest: map_of_SomeD)

lemma gomap_ok_fst_inj:
  "gomap_ok m \<Longrightarrow> (k, v) \<in> set m \<Longrightarrow> (k, w) \<in> set m \<Longrightarrow> v = w"
  by (simp add: gomap_in_set_iff)

text \<open>Two visiting orders of one map: the same entries in another order.\<close>

lemma gomap_perm_map_of:
  assumes "gomap_ok m" and "mset n = mset m"
  shows "map_of n = map_of m"
proof -
  have "distinct (map fst n)"
    using assms by (metis gomap_ok_def mset_map mset_eq_imp_distinct_iff)
  moreover have "set n = set m" using assms(2) by (metis set_mset_mset)
  ultimately show ?thesis
    using assms(1) by (metis gomap_ok_def map_of_inject_set)
qed

lemma gomap_ok_perm: "mset n = mset m \<Longrightarrow> gomap_ok n = gomap_ok m"
  by (metis gomap_ok_def mset_map mset_eq_imp_distinct_iff)

lemma maps_equal_iff:
  assumes "gomap_ok m" "gomap_ok n"
  shows "maps_equal m n \<longleftrightarrow> map_of m = map_of n"
proof
  assume eq: "maps_equal m n"
  then have sub: "set m \<subseteq> set n"
    using assms by (auto simp: maps_equal_def gomap_in_set_iff)
  have dm: "distinct m" "distinct n"
    using assms by (auto simp: gomap_ok_def distinct_map)
  have "card (set m) = card (set n)"
    using eq dm by (simp add: maps_equal_def distinct_card)
  then have "set m = set n" using sub by (simp add: card_subset_eq)
  then show "map_of m = map_of n"
    using assms by (simp add: gomap_ok_def map_of_inject_set)
next
  assume eq: "map_of m = map_of n"
  then have s: "set m = set n"
    using assms by (simp add: gomap_ok_def map_of_inject_set)
  have "length m = length n"
    using assms s by (metis distinct_card distinct_map gomap_ok_def)
  with s show "maps_equal m n"
    using assms by (auto simp: maps_equal_def gomap_in_set_iff)
qed

section \<open>Sorting\<close>

text \<open>
  \<open>sort.Slice\<close> with a less function: the insertion sort Go runs on slices of at most twelve
  elements, where each element moves left past every element it is less than. The sorted
  prefix is kept reversed. (Longer slices go through pattern-defeating quicksort, which
  returns the same slice whenever the order has no ties, \<open>sort_slice_unique\<close>.)
  \<open>sort.SliceStable\<close> is the same function: both are stable on their whole range.
\<close>

fun insert_rev :: "('a \<Rightarrow> 'a \<Rightarrow> bool) \<Rightarrow> 'a \<Rightarrow> 'a list \<Rightarrow> 'a list" where
  "insert_rev lt x [] = [x]"
| "insert_rev lt x (y # ys) = (if lt x y then y # insert_rev lt x ys else x # y # ys)"

definition sort_slice :: "('a \<Rightarrow> 'a \<Rightarrow> bool) \<Rightarrow> 'a list \<Rightarrow> 'a list" where
  "sort_slice lt xs = rev (foldl (\<lambda>acc x. insert_rev lt x acc) [] xs)"

definition strict_weak :: "('a \<Rightarrow> 'a \<Rightarrow> bool) \<Rightarrow> 'a set \<Rightarrow> bool" where
  "strict_weak lt A \<longleftrightarrow>
     (\<forall>x\<in>A. \<forall>y\<in>A. lt x y \<longrightarrow> \<not> lt y x) \<and>
     (\<forall>x\<in>A. \<forall>y\<in>A. \<forall>z\<in>A. lt x z \<longrightarrow> lt x y \<or> lt y z)"

lemma mset_insert_rev [simp]: "mset (insert_rev lt x ys) = add_mset x (mset ys)"
  by (induction ys) auto

lemma set_insert_rev [simp]: "set (insert_rev lt x ys) = insert x (set ys)"
  by (metis mset_insert_rev set_mset_add_mset_insert set_mset_mset)

lemma mset_insert_fold:
  "mset (foldl (\<lambda>acc x. insert_rev lt x acc) acc xs) = mset acc + mset xs"
  by (induction xs arbitrary: acc) auto

lemma mset_sort_slice [simp]: "mset (sort_slice lt xs) = mset xs"
  by (simp add: sort_slice_def mset_insert_fold)

lemma set_sort_slice [simp]: "set (sort_slice lt xs) = set xs"
  by (metis mset_sort_slice set_mset_mset)

lemma length_sort_slice [simp]: "length (sort_slice lt xs) = length xs"
  by (metis mset_sort_slice size_mset)

lemma sort_slice_Nil_iff [simp]: "sort_slice lt xs = [] \<longleftrightarrow> xs = []"
  by (metis length_0_conv length_sort_slice)

lemma insert_rev_sorted:
  assumes "strict_weak lt A" "x \<in> A" "set ys \<subseteq> A" "sorted_wrt (\<lambda>a b. \<not> lt a b) ys"
  shows "sorted_wrt (\<lambda>a b. \<not> lt a b) (insert_rev lt x ys)"
  using assms
proof (induction ys)
  case Nil
  then show ?case by simp
next
  case (Cons y ys)
  then have A: "x \<in> A" "y \<in> A" "\<And>z. z \<in> set ys \<Longrightarrow> z \<in> A \<and> \<not> lt y z" by auto
  note sw = Cons.prems(1)[unfolded strict_weak_def]
  show ?case
  proof (cases "lt x y")
    case True
    then have "\<not> lt y x" using sw A by blast
    with True Cons show ?thesis by auto
  next
    case False
    then have "\<not> lt x z" if "z \<in> set ys" for z
      using sw A that by blast
    with False Cons show ?thesis by auto
  qed
qed

lemma insert_fold_sorted:
  assumes "strict_weak lt A" "set acc \<subseteq> A" "set xs \<subseteq> A" "sorted_wrt (\<lambda>a b. \<not> lt a b) acc"
  shows "sorted_wrt (\<lambda>a b. \<not> lt a b) (foldl (\<lambda>acc x. insert_rev lt x acc) acc xs)"
  using assms by (induction xs arbitrary: acc) (auto simp: insert_rev_sorted)

lemma sort_slice_sorted:
  assumes "strict_weak lt A" "set xs \<subseteq> A"
  shows "sorted_wrt (\<lambda>a b. \<not> lt b a) (sort_slice lt xs)"
  using insert_fold_sorted[of lt A "[]" xs] assms
  by (simp add: sort_slice_def sorted_wrt_rev)

text \<open>Where two distinct elements are never tied the sorted slice is determined by the
  elements, whatever algorithm or starting order produced it.\<close>

lemma sorted_perm_unique:
  assumes "mset xs = mset ys" "distinct xs"
    "sorted_wrt (\<lambda>a b. \<not> lt b a) xs" "sorted_wrt (\<lambda>a b. \<not> lt b a) ys"
    "\<And>a b. a \<in> set xs \<Longrightarrow> b \<in> set xs \<Longrightarrow> a \<noteq> b \<Longrightarrow> lt a b \<or> lt b a"
  shows "xs = ys"
  using assms
proof (induction xs arbitrary: ys)
  case Nil
  then show ?case by simp
next
  case (Cons x xs)
  then obtain y ys' where ys: "ys = y # ys'"
    by (metis mset_zero_iff_right neq_Nil_conv)
  have "x \<in> set ys" "y \<in> set (x # xs)"
    using Cons.prems(1) ys by (metis list.set_intros(1) set_mset_mset)+
  then have "x = y"
    using Cons.prems(3,4,5) ys by auto
  moreover have "xs = ys'"
  proof (rule Cons.IH)
    show "mset xs = mset ys'" using Cons.prems(1) ys \<open>x = y\<close> by simp
  qed (use Cons.prems ys in auto)
  ultimately show ?case using ys by simp
qed

lemma sort_slice_unique:
  assumes "strict_weak lt A" "set xs \<subseteq> A" "distinct xs" "mset ys = mset xs"
    "sorted_wrt (\<lambda>a b. \<not> lt b a) ys"
    "\<And>a b. a \<in> set xs \<Longrightarrow> b \<in> set xs \<Longrightarrow> a \<noteq> b \<Longrightarrow> lt a b \<or> lt b a"
  shows "ys = sort_slice lt xs"
proof (rule sorted_perm_unique[symmetric])
  show "mset (sort_slice lt xs) = mset ys" using assms(4) by simp
  show "distinct (sort_slice lt xs)"
    using assms(3) by (metis mset_sort_slice mset_eq_imp_distinct_iff)
  show "sorted_wrt (\<lambda>a b. \<not> lt b a) (sort_slice lt xs)"
    by (rule sort_slice_sorted[OF assms(1,2)])
qed (use assms in auto)

section \<open>Decimal output and Atoi\<close>

lemma byte_digit_char: "d < 10 \<Longrightarrow> byte (digit_char d) = 48 + d"
  by (simp add: digit_char_def)

lemma is_digit_digit_char: "d < 10 \<Longrightarrow> is_digit (digit_char d)"
  by (simp add: is_digit_def byte_digit_char)

lemma atoi_digits_append:
  "atoi_digits k (s @ t) = (case atoi_digits k s of None \<Rightarrow> None | Some n \<Rightarrow> atoi_digits n t)"
  by (induction k s rule: atoi_digits.induct) auto

lemma dec_nat_digits: "list_all is_digit (dec_nat n) \<and> dec_nat n \<noteq> []"
proof (induction n rule: dec_nat.induct)
  case (1 n)
  then show ?case
    by (subst (1 2) dec_nat.simps) (auto simp: is_digit_digit_char)
qed

lemma atoi_digits_dec_nat: "atoi_digits 0 (dec_nat n) = Some n"
proof (induction n rule: dec_nat.induct)
  case (1 n)
  then show ?case
    by (subst dec_nat.simps)
       (auto simp: atoi_digits_append is_digit_digit_char byte_digit_char)
qed

lemma dec_nat_not_sign: "dec_nat n = c # cs \<Longrightarrow> c \<noteq> CHR ''-'' \<and> c \<noteq> CHR ''+''"
  using dec_nat_digits[of n] by (auto simp: is_digit_def)

lemma atoi_dec_int:
  assumes "int64_ok i"
  shows "atoi (dec_int i) = Some i"
proof (cases "i < 0")
  case True
  then have "atoi_sign (dec_int i) = (True, dec_nat (nat (- i)))"
    by (simp add: dec_int_def atoi_sign_def)
  then show ?thesis
    using True assms dec_nat_digits by (simp add: atoi_def atoi_digits_dec_nat Let_def)
next
  case False
  obtain c cs where d: "dec_nat (nat i) = c # cs"
    using dec_nat_digits by (metis neq_Nil_conv)
  then have "atoi_sign (dec_int i) = (False, dec_nat (nat i))"
    using False dec_nat_not_sign[OF d] by (simp add: dec_int_def atoi_sign_def)
  then show ?thesis
    using False assms dec_nat_digits by (simp add: atoi_def atoi_digits_dec_nat Let_def)
qed

text \<open>A number is read back from text that does not go on with a digit.\<close>

definition delim :: "string \<Rightarrow> bool" where
  "delim r = (case r of [] \<Rightarrow> True | c # _ \<Rightarrow> \<not> is_digit c)"

lemma delim_simps [simp]: "delim []" "delim (c # r) = (\<not> is_digit c)"
  by (simp_all add: delim_def)

lemma takeWhile_digits:
  "list_all is_digit ds \<Longrightarrow> delim r \<Longrightarrow> takeWhile is_digit (ds @ r) = ds"
  by (induction ds) (auto split: list.splits simp: delim_def)

lemma dec_nat_prefix:
  assumes "dec_nat m @ r = dec_nat n @ u" "delim r" "delim u"
  shows "m = n \<and> r = u"
proof -
  have "dec_nat m = dec_nat n"
    using assms takeWhile_digits[of "dec_nat m" r] takeWhile_digits[of "dec_nat n" u]
      dec_nat_digits by metis
  moreover from this have "m = n"
    using atoi_digits_dec_nat by (metis option.inject)
  ultimately show ?thesis using assms(1) by simp
qed

lemma dec_int_prefix:
  assumes "dec_int i @ r = dec_int j @ u" "delim r" "delim u"
  shows "i = j \<and> r = u"
proof -
  have m: "c # cs = dec_nat n @ w \<Longrightarrow> c \<noteq> CHR ''-''" for c cs n w
    using dec_nat_digits[of n] dec_nat_not_sign[of n] by (cases "dec_nat n") auto
  show ?thesis
  proof (cases "i < 0"; cases "j < 0")
    assume "i < 0" "j < 0"
    then show ?thesis using assms dec_nat_prefix[of "nat (- i)" r "nat (- j)" u]
      by (auto simp: dec_int_def)
  next
    assume "\<not> i < 0" "\<not> j < 0"
    then show ?thesis using assms dec_nat_prefix[of "nat i" r "nat j" u]
      by (auto simp: dec_int_def)
  next
    assume "i < 0" "\<not> j < 0"
    then show ?thesis using assms(1) m by (auto simp: dec_int_def)
  next
    assume "\<not> i < 0" "j < 0"
    then show ?thesis using assms(1)[symmetric] m by (auto simp: dec_int_def)
  qed
qed

end
