(* ===== verification/Versions.thy ===== *)
theory Versions
  imports Prelude
begin

text \<open>
  Version strings: \<open>CompareVersions\<close>, \<open>Major\<close> and \<open>IsDozeVersion\<close> of \<open>modindex/modindex.go\<close>,
  the \<open>VersionSpec\<close> methods and version gates of \<open>engine/types.go\<close> and \<open>engine/version.go\<close>,
  and \<open>ExactDots\<close> of \<open>engine/resolve.go\<close>.

  On versions all of whose segments are numbers (\<open>numeric_version\<close>) \<open>compare_versions\<close> is the
  lexicographic order of the segment values (\<open>compare_versions_key\<close>), so it sorts; off them it
  is antisymmetric but not transitive (\<open>compare_versions_cycle\<close>).
\<close>

section \<open>Segments and comparison\<close>

definition index_char :: "char \<Rightarrow> string \<Rightarrow> nat option" where
  "index_char c s = (if c \<in> set s then Some (length (takeWhile (\<lambda>x. x \<noteq> c) s)) else None)"

definition major_of :: "string \<Rightarrow> string" where
  "major_of spec = (case index_char (CHR ''.'') spec of
     Some i \<Rightarrow> if 0 < i then take i spec else spec
   | None \<Rightarrow> spec)"

text \<open>One turn of the loop of \<open>CompareVersions\<close>: numerically when both segments parse, else by
  their bytes. A segment past the end of the shorter version is the empty string.\<close>

definition cmp_seg :: "string \<Rightarrow> string \<Rightarrow> int" where
  "cmp_seg sa sb = (case (atoi sa, atoi sb) of
     (Some na, Some nb) \<Rightarrow> if na \<noteq> nb then (if na > nb then 1 else -1) else 0
   | _ \<Rightarrow> str_compare sa sb)"

fun cmp_segs :: "string list \<Rightarrow> string list \<Rightarrow> int" where
  "cmp_segs [] [] = 0"
| "cmp_segs (a # as) [] = (let c = cmp_seg a [] in if c \<noteq> 0 then c else cmp_segs as [])"
| "cmp_segs [] (b # bs) = (let c = cmp_seg [] b in if c \<noteq> 0 then c else cmp_segs [] bs)"
| "cmp_segs (a # as) (b # bs) = (let c = cmp_seg a b in if c \<noteq> 0 then c else cmp_segs as bs)"

definition compare_versions :: "string \<Rightarrow> string \<Rightarrow> int" where
  "compare_versions a b = cmp_segs (split_on (CHR ''.'') a) (split_on (CHR ''.'') b)"

definition is_doze_version :: "string \<Rightarrow> bool" where
  "is_doze_version v0 = (let v = trim_prefix v0 ''v'' in
     v \<noteq> [] \<and> list_all (\<lambda>part. part \<noteq> [] \<and> list_all is_digit part) (split_on (CHR ''.'') v))"

section \<open>Version specs of the engine contract\<close>

definition spec_is_exact :: "string \<Rightarrow> bool" where
  "spec_is_exact v = (CHR ''.'' \<in> set v)"

definition spec_major :: "string \<Rightarrow> string" where
  "spec_major v = (case index_char (CHR ''.'') v of
     Some i \<Rightarrow> if 0 < i then take i v else v
   | None \<Rightarrow> v)"

datatype version_error =
    RequiresAtLeast string int string
  | RemovedIn string int string

definition require_version :: "string \<Rightarrow> int \<Rightarrow> string \<Rightarrow> version_error option" where
  "require_version spec mn what = (case atoi (spec_major spec) of
     None \<Rightarrow> None
   | Some major \<Rightarrow> if major < mn then Some (RequiresAtLeast what mn spec) else None)"

definition require_version_below :: "string \<Rightarrow> int \<Rightarrow> string \<Rightarrow> version_error option" where
  "require_version_below spec mx what = (case atoi (spec_major spec) of
     None \<Rightarrow> None
   | Some major \<Rightarrow> if major \<ge> mx then Some (RemovedIn what mx spec) else None)"

text \<open>\<open>ExactDots(n)\<close>: the version itself and whether it carries at least \<open>n\<close> dots.\<close>

definition exact_dots :: "nat \<Rightarrow> string \<Rightarrow> string \<times> bool" where
  "exact_dots n v = (v, n \<le> count_char (CHR ''.'') v)"

section \<open>The order on numeric versions\<close>

definition segments :: "string \<Rightarrow> string list" where
  "segments v = split_on (CHR ''.'') v"

definition numeric_version :: "string \<Rightarrow> bool" where
  "numeric_version v = list_all (\<lambda>s. atoi s \<noteq> None) (segments v)"

definition version_key :: "string \<Rightarrow> int list" where
  "version_key v = map (\<lambda>s. the (atoi s)) (segments v)"

lemma split_on_not_Nil [simp]: "split_on sep s \<noteq> []"
  by (induction s) (auto split: list.splits)

lemma atoi_Nil [simp]: "atoi [] = None"
  by (simp add: atoi_def atoi_sign_def)

lemma str_compare_Nil_left: "b \<noteq> [] \<Longrightarrow> str_compare [] b = -1"
  by (cases b) (simp_all add: str_compare_def)

lemma str_compare_Nil_right: "a \<noteq> [] \<Longrightarrow> str_compare a [] = 1"
  by (cases a) (simp_all add: str_compare_def)

lemma str_compare_anti: "str_compare b a = - str_compare a b"
  by (auto simp: str_compare_def)

lemma cmp_seg_anti: "cmp_seg b a = - cmp_seg a b"
  by (auto simp: cmp_seg_def str_compare_anti[of b a] split: option.splits)

lemma cmp_segs_anti: "cmp_segs bs as = - cmp_segs as bs"
proof (induction as bs rule: cmp_segs.induct)
  case (2 a as)
  then show ?case using cmp_seg_anti[of a "[]"] by (auto simp: Let_def)
next
  case (3 b bs)
  then show ?case using cmp_seg_anti[of b "[]"] by (auto simp: Let_def)
next
  case (4 a as b bs)
  then show ?case using cmp_seg_anti[of a b] by (auto simp: Let_def)
qed simp

lemma cmp_segs_refl [simp]: "cmp_segs as as = 0"
  by (induction as) (auto simp: cmp_seg_def str_compare_def split: option.splits)

lemma compare_versions_refl [simp]: "compare_versions a a = 0"
  by (simp add: compare_versions_def)

lemma cmp_segs_key:
  assumes "list_all (\<lambda>s. atoi s \<noteq> None) as" "list_all (\<lambda>s. atoi s \<noteq> None) bs"
  shows "cmp_segs as bs =
    (let x = map (\<lambda>s. the (atoi s)) as; y = map (\<lambda>s. the (atoi s)) bs
     in if x < y then -1 else if x = y then 0 else 1)"
  using assms
proof (induction as bs rule: cmp_segs.induct)
  case 1
  then show ?case by simp
next
  case (2 a as)
  then have "a \<noteq> []" by auto
  with 2 show ?case by (auto simp: cmp_seg_def str_compare_Nil_right split: option.splits)
next
  case (3 b bs)
  then have "b \<noteq> []" by auto
  with 3 show ?case by (auto simp: cmp_seg_def str_compare_Nil_left split: option.splits)
next
  case (4 a as b bs)
  then show ?case by (auto simp: cmp_seg_def Let_def split: if_splits)
qed

lemma compare_versions_key:
  assumes "numeric_version a" "numeric_version b"
  shows "compare_versions a b =
    (if version_key a < version_key b then -1
     else if version_key a = version_key b then 0 else 1)"
  using assms cmp_segs_key[of "segments a" "segments b"]
  by (simp add: compare_versions_def numeric_version_def version_key_def segments_def Let_def)

lemma compare_versions_gt_key:
  assumes "numeric_version a" "numeric_version b"
  shows "0 < compare_versions a b \<longleftrightarrow> version_key b < version_key a"
    and "compare_versions a b < 0 \<longleftrightarrow> version_key a < version_key b"
    and "compare_versions a b = 0 \<longleftrightarrow> version_key a = version_key b"
  using assms by (auto simp: compare_versions_key)

text \<open>"Newer than" is a strict weak order on numeric versions, so a slice of them sorts.\<close>

definition newer :: "string \<Rightarrow> string \<Rightarrow> bool" where
  "newer a b = (0 < compare_versions a b)"

lemma newer_strict_weak: "strict_weak newer {v. numeric_version v}"
  unfolding strict_weak_def newer_def
  by (auto simp: compare_versions_gt_key)

lemma doze_version_digits:
  assumes "list_all is_digit s" "s \<noteq> []"
  shows "\<exists>n. atoi_digits k s = Some n"
  using assms by (induction s arbitrary: k) (auto, metis atoi_digits.simps(1))

section \<open>Properties of version comparison\<close>

text \<open>C13. On versions whose segments are all numbers, \<open>CompareVersions\<close> is the
  lexicographic comparison of the segment values, a version that runs out of segments first
  being the older one: the sign of its result is the order of the keys.\<close>

theorem compare_versions_is_lexicographic:
  assumes "numeric_version a" "numeric_version b"
  shows "(0 < compare_versions a b \<longleftrightarrow> version_key b < version_key a) \<and>
    (compare_versions a b < 0 \<longleftrightarrow> version_key a < version_key b) \<and>
    (compare_versions a b = 0 \<longleftrightarrow> version_key a = version_key b)"
  using assms by (simp add: compare_versions_gt_key)

theorem compare_versions_is_lexicographic_witness:
  "numeric_version ''0.10.0'' \<and> numeric_version ''0.9.1'' \<and>
   0 < compare_versions ''0.10.0'' ''0.9.1''"
proof -
  have n: "numeric_version ''0.10.0''" "numeric_version ''0.9.1''" by code_simp+
  have "version_key ''0.9.1'' < version_key ''0.10.0''" by code_simp
  with compare_versions_is_lexicographic[OF n] n show ?thesis by simp
qed

text \<open>Off the numeric versions \<open>CompareVersions\<close> is no order: it puts \<open>2\<close> below \<open>10\<close>,
  \<open>10\<close> below \<open>1a\<close> and \<open>1a\<close> below \<open>2\<close>, so a sort or a maximum over such versions depends
  on the order they are visited in; and it puts a pre-release above its release.\<close>

theorem compare_versions_cycle:
  "compare_versions ''0.2'' ''0.10'' < 0 \<and> compare_versions ''0.10'' ''0.1a'' < 0 \<and>
   compare_versions ''0.1a'' ''0.2'' < 0 \<and>
   0 < compare_versions ''0.2.0-rc1'' ''0.2.0''"
  by code_simp

end
