(* ===== verification/Json.thy ===== *)
theory Json
  imports Prelude
begin

text \<open>
  \<open>encoding/json\<close> as \<open>modindex.CanonicalPayload\<close> uses it (an \<open>Encoder\<close> with \<open>SetEscapeHTML(false)\<close>
  over maps, string slices, strings and ints): object keys sorted, no white space, the
  encoder's string escapes, invalid UTF-8 replaced by \<open>\ufffd\<close>.

  The encoding is injective up to the order of object members on values whose strings are
  ASCII (\<open>json_enc_inject\<close>): two values with the same text are the same value. This is what
  lets a signature over the text stand for a signature over the value.
\<close>

datatype json =
    JNull
  | JInt int
  | JStr string
  | JArr "json list"
  | JObj "(string \<times> json) list"

section \<open>Strings\<close>

definition hex_digit :: "nat \<Rightarrow> char" where
  "hex_digit d = (if d < 10 then char_of (48 + d) else char_of (87 + d))"

text \<open>Bytes below 128: quote and backslash get a backslash, the control characters their short
  or \<open>\u00xx\<close> form, the others stand for themselves.\<close>

definition esc_char :: "char \<Rightarrow> string" where
  "esc_char c = (let b = byte c in
     if c = CHR 0x5C \<or> c = CHR 0x22 then [CHR 0x5C, c]
     else if b = 8 then [CHR 0x5C, CHR ''b'']
     else if b = 12 then [CHR 0x5C, CHR ''f'']
     else if b = 10 then [CHR 0x5C, CHR ''n'']
     else if b = 13 then [CHR 0x5C, CHR ''r'']
     else if b = 9 then [CHR 0x5C, CHR ''t'']
     else if b < 32 then [CHR 0x5C, CHR ''u'', CHR ''0'', CHR ''0'', hex_digit (b div 16), hex_digit (b mod 16)]
     else [c])"

text \<open>\<open>utf8.DecodeRuneInString\<close> at a byte of 128 and more: the rune's value and width, \<open>None\<close> for
  an invalid sequence (Go's \<open>RuneError\<close> of width 1).\<close>

definition utf8_cont :: "nat \<Rightarrow> nat \<Rightarrow> char \<Rightarrow> bool" where
  "utf8_cont lo hi c = (lo \<le> byte c \<and> byte c \<le> hi)"

definition utf8_rune :: "string \<Rightarrow> (nat \<times> nat) option" where
  "utf8_rune s = (case s of [] \<Rightarrow> None | c0 # r \<Rightarrow> let b0 = byte c0 in
     if 194 \<le> b0 \<and> b0 \<le> 223 then
       (case r of c1 # _ \<Rightarrow> if utf8_cont 128 191 c1
          then Some ((b0 - 192) * 64 + (byte c1 - 128), 2) else None | _ \<Rightarrow> None)
     else if 224 \<le> b0 \<and> b0 \<le> 239 then
       (case r of c1 # c2 # _ \<Rightarrow>
          if utf8_cont (if b0 = 224 then 160 else 128) (if b0 = 237 then 159 else 191) c1 \<and> utf8_cont 128 191 c2
          then Some ((b0 - 224) * 4096 + (byte c1 - 128) * 64 + (byte c2 - 128), 3) else None | _ \<Rightarrow> None)
     else if 240 \<le> b0 \<and> b0 \<le> 244 then
       (case r of c1 # c2 # c3 # _ \<Rightarrow>
          if utf8_cont (if b0 = 240 then 144 else 128) (if b0 = 244 then 143 else 191) c1 \<and>
             utf8_cont 128 191 c2 \<and> utf8_cont 128 191 c3
          then Some ((b0 - 240) * 262144 + (byte c1 - 128) * 4096 + (byte c2 - 128) * 64 + (byte c3 - 128), 4)
          else None | _ \<Rightarrow> None)
     else None)"

lemma utf8_rune_width: "utf8_rune s = Some (r, w) \<Longrightarrow> 0 < w"
  by (auto simp: utf8_rune_def Let_def split: list.splits if_splits)

function esc_string :: "string \<Rightarrow> string" where
  "esc_string [] = []"
| "esc_string (c # cs) =
     (if byte c < 128 then esc_char c @ esc_string cs
      else (case utf8_rune (c # cs) of
        None \<Rightarrow> CHR 0x5C # ''ufffd'' @ esc_string cs
      | Some (r, w) \<Rightarrow>
          (if r = 8232 \<or> r = 8233 then CHR 0x5C # ''u202'' @ [hex_digit (r mod 16)] else take w (c # cs))
            @ esc_string (drop w (c # cs))))"
  by pat_completeness auto
termination
  by (relation "measure length") (auto dest: utf8_rune_width)

definition enc_string :: "string \<Rightarrow> string" where
  "enc_string s = CHR 0x22 # esc_string s @ [CHR 0x22]"

section \<open>Values\<close>

text \<open>The members of an object are encoded each on its own and written in the order of their
  keys.\<close>

primrec json_enc :: "json \<Rightarrow> string" where
  "json_enc JNull = ''null''"
| "json_enc (JInt i) = dec_int i"
| "json_enc (JStr s) = enc_string s"
| "json_enc (JArr xs) = ''['' @ join_with '','' (map json_enc xs) @ '']''"
| "json_enc (JObj kvs) = ''{'' @ join_with '',''
     (map (\<lambda>(k, t). enc_string k @ '':'' @ t) (sort_key fst (map (map_prod id json_enc) kvs))) @ ''}''"

section \<open>Injectivity\<close>

definition ascii :: "string \<Rightarrow> bool" where
  "ascii s = list_all (\<lambda>c. byte c < 128) s"

lemma ascii_simps [simp]:
  "ascii []" "ascii (c # cs) = (byte c < 128 \<and> ascii cs)" "ascii (s @ t) = (ascii s \<and> ascii t)"
  by (auto simp: ascii_def)

text \<open>Reading one escaped character back.\<close>

definition unhex :: "char \<Rightarrow> nat" where
  "unhex c = (if byte c < 58 then byte c - 48 else byte c - 87)"

definition unesc :: "string \<Rightarrow> (char \<times> string) option" where
  "unesc s = (case s of [] \<Rightarrow> None
   | c # r \<Rightarrow> if c = CHR 0x22 then None else if c \<noteq> CHR 0x5C then Some (c, r)
      else (case r of [] \<Rightarrow> None | d # r2 \<Rightarrow>
        if d = CHR ''b'' then Some (char_of (8::nat), r2)
        else if d = CHR ''f'' then Some (char_of (12::nat), r2)
        else if d = CHR ''n'' then Some (char_of (10::nat), r2)
        else if d = CHR ''r'' then Some (char_of (13::nat), r2)
        else if d = CHR ''t'' then Some (char_of (9::nat), r2)
        else if d = CHR ''u'' then (case r2 of _ # _ # h # l # r3 \<Rightarrow>
            Some (char_of (unhex h * 16 + unhex l), r3) | _ \<Rightarrow> None)
        else Some (d, r2)))"

lemma byte_eq_iff: "byte c = n \<longleftrightarrow> c = char_of n \<and> n < 256"
  by auto

lemma byte_hex_digit: "d < 16 \<Longrightarrow> byte (hex_digit d) = (if d < 10 then 48 + d else 87 + d)"
  by (auto simp: hex_digit_def)

lemma unhex_hex: "d < 16 \<Longrightarrow> unhex (hex_digit d) = d"
  by (auto simp: unhex_def byte_hex_digit)

lemma unesc_esc:
  assumes "byte c < 128"
  shows "unesc (esc_char c @ r) = Some (c, r)"
proof -
  have ctl: "char_of (unhex (hex_digit (byte c div 16)) * 16 + unhex (hex_digit (byte c mod 16))) = c"
    using assms by (simp add: unhex_hex)
  show ?thesis
    by (auto simp: esc_char_def unesc_def Let_def byte_eq_iff ctl)
qed

lemma esc_char_not_quote: "byte c < 128 \<Longrightarrow> \<exists>x xs. esc_char c = x # xs \<and> x \<noteq> CHR 0x22"
  by (auto simp: esc_char_def Let_def)

lemma unesc_quote [simp]: "unesc (CHR 0x22 # r) = None"
  by (simp add: unesc_def)

lemma esc_string_prefix:
  assumes "esc_string s @ CHR 0x22 # r = esc_string t @ CHR 0x22 # u" "ascii s" "ascii t"
  shows "s = t \<and> r = u"
  using assms
proof (induction s arbitrary: t)
  case Nil
  then show ?case by (cases t) (auto dest!: esc_char_not_quote)
next
  case (Cons c cs)
  show ?case
  proof (cases t)
    case Nil
    with Cons.prems show ?thesis by (auto dest!: esc_char_not_quote)
  next
    case (Cons d ds)
    have "unesc (esc_char c @ esc_string cs @ CHR 0x22 # r) = unesc (esc_char d @ esc_string ds @ CHR 0x22 # u)"
      using Cons.prems Cons by simp
    then have "c = d \<and> esc_string cs @ CHR 0x22 # r = esc_string ds @ CHR 0x22 # u"
      using Cons.prems Cons by (simp add: unesc_esc)
    with Cons.IH[of ds] Cons.prems Cons show ?thesis by simp
  qed
qed

lemma enc_string_prefix:
  "enc_string s @ r = enc_string t @ u \<Longrightarrow> ascii s \<Longrightarrow> ascii t \<Longrightarrow> s = t \<and> r = u"
  using esc_string_prefix[of s r t u] by (simp add: enc_string_def)

text \<open>The encoding without the sort, on values whose objects are already sorted.\<close>

primrec canon :: "json \<Rightarrow> json" where
  "canon JNull = JNull"
| "canon (JInt i) = JInt i"
| "canon (JStr s) = JStr s"
| "canon (JArr xs) = JArr (map canon xs)"
| "canon (JObj kvs) = JObj (sort_key fst (map (map_prod id canon) kvs))"

primrec json_enc0 :: "json \<Rightarrow> string" where
  "json_enc0 JNull = ''null''"
| "json_enc0 (JInt i) = dec_int i"
| "json_enc0 (JStr s) = enc_string s"
| "json_enc0 (JArr xs) = ''['' @ join_with '','' (map json_enc0 xs) @ '']''"
| "json_enc0 (JObj kvs) = ''{'' @ join_with '',''
     (map (\<lambda>(k, t). enc_string k @ '':'' @ t) (map (map_prod id json_enc0) kvs)) @ ''}''"

primrec json_ascii :: "json \<Rightarrow> bool" where
  "json_ascii JNull = True"
| "json_ascii (JInt i) = True"
| "json_ascii (JStr s) = ascii s"
| "json_ascii (JArr xs) = list_all id (map json_ascii xs)"
| "json_ascii (JObj kvs) = list_all (\<lambda>(k, b). ascii k \<and> b) (map (map_prod id json_ascii) kvs)"

lemma insort_key_map_prod:
  "insort_key fst (map_prod id f x) (map (map_prod id f) xs) = map (map_prod id f) (insort_key fst x xs)"
  by (induction xs) auto

lemma sort_key_map_prod:
  "sort_key fst (map (map_prod id f) xs) = map (map_prod id f) (sort_key fst xs)"
  by (induction xs) (simp_all only: list.map sort_key_simps insort_key_map_prod)

lemma json_enc_canon: "json_enc j = json_enc0 (canon j)"
proof (induction j)
  case (JObj kvs)
  have mem: "json_enc v = json_enc0 (canon v)" if "(k, v) \<in> set kvs" for k v
    using JObj[OF that] by (simp add: Basic_BNFs.snds.simps)
  have "map (\<lambda>(k, t). enc_string k @ '':'' @ t) (map (map_prod id json_enc) (sort_key fst kvs)) =
    map (\<lambda>(k, t). enc_string k @ '':'' @ t)
      (map (map_prod id json_enc0) (map (map_prod id canon) (sort_key fst kvs)))"
    by (auto simp: mem)
  then show ?case by (simp only: json_enc.simps json_enc0.simps canon.simps sort_key_map_prod)
qed (auto cong: map_cong)

lemma json_ascii_canon: "json_ascii (canon j) = json_ascii j"
proof (induction j)
  case (JObj kvs)
  have mem: "json_ascii (canon v) = json_ascii v" if "(k, v) \<in> set kvs" for k v
    using JObj[OF that] by (simp add: Basic_BNFs.snds.simps)
  then show ?case by (fastforce simp: list_all_iff)
qed (auto simp: list_all_iff)

lemma join_with_Cons:
  "join_with sep (x # xs) = x @ concat (map (\<lambda>y. sep @ y) xs)"
proof (induction xs arbitrary: x)
  case (Cons y ys)
  then show ?case by simp
qed simp

lemma json_list_prefix:
  assumes item: "\<And>x y r u. x \<in> set xs \<Longrightarrow> y \<in> set ys \<Longrightarrow> f x @ r = f y @ u \<Longrightarrow>
      delim r \<Longrightarrow> delim u \<Longrightarrow> x = y \<and> r = u"
    and start: "\<And>x. \<exists>c cs. f x = c # cs \<and> c \<noteq> close"
    and close: "close \<noteq> CHR '',''" "\<not> is_digit close"
    and eq: "join_with '','' (map f xs) @ close # r = join_with '','' (map f ys) @ close # u"
  shows "xs = ys \<and> r = u"
proof -
  let ?tl = "\<lambda>zs. concat (map (\<lambda>y. '','' @ f y) zs)"
  have comma: "\<not> is_digit (CHR '','')" by (simp add: is_digit_def)
  have tails: "as = bs \<and> r = u"
    if "?tl as @ close # r = ?tl bs @ close # u" "set as \<subseteq> set xs" "set bs \<subseteq> set ys" for as bs
    using that
  proof (induction as arbitrary: bs)
    case Nil
    then show ?case using close by (cases bs) auto
  next
    case (Cons a as)
    then obtain b bs' where bs: "bs = b # bs'" using close by (cases bs) auto
    have dl: "delim (?tl zs @ close # w)" for zs w
      using close comma by (cases zs) auto
    have "a = b \<and> ?tl as @ close # r = ?tl bs' @ close # u"
      using Cons.prems bs dl by (intro item) auto
    then show ?case using Cons.IH[of bs'] Cons.prems bs by auto
  qed
  show ?thesis
  proof (cases xs)
    case Nil
    show ?thesis
    proof (cases ys)
      case (Cons y ys')
      then show ?thesis using Nil eq start[of y] by (auto simp: join_with_Cons)
    qed (use Nil eq in simp)
  next
    case (Cons x xs')
    show ?thesis
    proof (cases ys)
      case Nil
      then show ?thesis using Cons eq start[of x] by (auto simp: join_with_Cons)
    next
      case (Cons y ys')
      have dl: "delim (?tl zs @ close # w)" for zs w
        using close comma by (cases zs) auto
      have "x = y \<and> ?tl xs' @ close # r = ?tl ys' @ close # u"
        using eq \<open>xs = x # xs'\<close> Cons dl by (intro item) (auto simp: join_with_Cons o_def)
      then show ?thesis using tails[of xs' ys'] \<open>xs = x # xs'\<close> Cons by auto
    qed
  qed
qed

text \<open>The first byte tells the kind of value.\<close>

definition kind_of_byte :: "char \<Rightarrow> nat" where
  "kind_of_byte c = (if c = CHR ''n'' then 0 else if c = CHR 0x22 then 2
     else if c = CHR ''['' then 3 else if c = CHR ''{'' then 4 else 1)"

primrec kind_of :: "json \<Rightarrow> nat" where
  "kind_of JNull = 0"
| "kind_of (JInt i) = 1"
| "kind_of (JStr s) = 2"
| "kind_of (JArr xs) = 3"
| "kind_of (JObj kvs) = 4"

lemma dec_int_start: "\<exists>c cs. dec_int i = c # cs \<and> (c = CHR ''-'' \<or> is_digit c)"
proof (cases "i < 0")
  case False
  obtain c cs where "dec_nat (nat i) = c # cs"
    using dec_nat_digits by (metis neq_Nil_conv)
  then show ?thesis using False dec_nat_digits[of "nat i"] by (auto simp: dec_int_def)
qed (simp add: dec_int_def)

lemma json_enc0_start:
  "\<exists>c cs. json_enc0 j = c # cs \<and> kind_of_byte c = kind_of j \<and> c \<noteq> CHR '']'' \<and> c \<noteq> CHR ''}''"
proof (cases j)
  case (JInt i)
  have "kind_of_byte c = 1 \<and> c \<noteq> CHR '']'' \<and> c \<noteq> CHR ''}''" if "c = CHR ''-'' \<or> is_digit c" for c
    using that by (auto simp: kind_of_byte_def is_digit_def)
  then show ?thesis using JInt dec_int_start[of i] by auto
qed (auto simp: kind_of_byte_def enc_string_def)

lemma json_enc0_same_kind:
  assumes "json_enc0 a @ r = json_enc0 b @ u"
  shows "kind_of a = kind_of b"
  using json_enc0_start[of a] json_enc0_start[of b] assms by auto

lemma kind_of_cases:
  "kind_of b = kind_of JNull \<Longrightarrow> b = JNull"
  "kind_of b = kind_of (JInt i) \<Longrightarrow> \<exists>j. b = JInt j"
  "kind_of b = kind_of (JStr s) \<Longrightarrow> \<exists>t. b = JStr t"
  "kind_of b = kind_of (JArr xs) \<Longrightarrow> \<exists>ys. b = JArr ys"
  "kind_of b = kind_of (JObj kvs) \<Longrightarrow> \<exists>kws. b = JObj kws"
  by (cases b; simp)+

lemma json_enc0_prefix:
  assumes "json_enc0 a @ r = json_enc0 b @ u" "json_ascii a" "json_ascii b" "delim r" "delim u"
  shows "a = b \<and> r = u"
  using assms
proof (induction a arbitrary: b r u)
  case JNull
  then show ?case using json_enc0_same_kind[of JNull r b u] kind_of_cases(1)[of b] by auto
next
  case (JInt i)
  then obtain j where "b = JInt j"
    using json_enc0_same_kind[of "JInt i" r b u] kind_of_cases(2)[of b i] by auto
  then show ?case using JInt dec_int_prefix[of i r j u] by simp
next
  case (JStr s)
  then obtain t where "b = JStr t"
    using json_enc0_same_kind[of "JStr s" r b u] kind_of_cases(3)[of b s] by auto
  then show ?case using JStr enc_string_prefix[of s r t u] by simp
next
  case (JArr xs)
  then obtain ys where b: "b = JArr ys"
    using json_enc0_same_kind[of "JArr xs" r b u] kind_of_cases(4)[of b xs] by auto
  have "xs = ys \<and> r = u"
  proof (rule json_list_prefix[where f = json_enc0])
    show "join_with '','' (map json_enc0 xs) @ CHR '']'' # r =
        join_with '','' (map json_enc0 ys) @ CHR '']'' # u"
      using JArr.prems(1) b by simp
    show "\<exists>c cs. json_enc0 x = c # cs \<and> c \<noteq> CHR '']''" for x
      using json_enc0_start[of x] by auto
  next
    fix x y v w
    assume "x \<in> set xs" "y \<in> set ys" "json_enc0 x @ v = json_enc0 y @ w" "delim v" "delim w"
    then show "x = y \<and> v = w"
      using JArr.IH JArr.prems(2,3) b by (auto simp: list_all_iff)
  qed (simp_all add: is_digit_def)
  then show ?case using b by simp
next
  case (JObj kvs)
  then obtain kws where b: "b = JObj kws"
    using json_enc0_same_kind[of "JObj kvs" r b u] kind_of_cases(5)[of b kvs] by auto
  let ?f = "\<lambda>x. enc_string (fst x) @ CHR '':'' # json_enc0 (snd x)"
  have f: "join_with '','' (map (\<lambda>(k, t). enc_string k @ '':'' @ t) (map (map_prod id json_enc0) ls)) =
      join_with '','' (map ?f ls)" for ls
    by (simp add: o_def case_prod_unfold)
  have "kvs = kws \<and> r = u"
  proof (rule json_list_prefix[where f = ?f])
    show "join_with '','' (map ?f kvs) @ CHR ''}'' # r =
        join_with '','' (map ?f kws) @ CHR ''}'' # u"
      using JObj.prems(1) b by (simp only: json_enc0.simps f) simp
    show "\<exists>c cs. ?f x = c # cs \<and> c \<noteq> CHR ''}''" for x
      by (simp add: enc_string_def)
  next
    fix x y v w
    assume xy: "x \<in> set kvs" "y \<in> set kws" "?f x @ v = ?f y @ w" "delim v" "delim w"
    obtain k s l t where x: "x = (k, s)" and y: "y = (l, t)" by (cases x, cases y)
    have asc: "ascii k" "json_ascii s" "ascii l" "json_ascii t"
      using JObj.prems(2,3) b xy(1,2) x y by (auto simp: list_all_iff)
    have "k = l \<and> json_enc0 s @ v = json_enc0 t @ w"
      using enc_string_prefix[of k "CHR '':'' # json_enc0 s @ v" l "CHR '':'' # json_enc0 t @ w"]
        xy(3) asc x y by simp
    moreover have "s = t \<and> v = w"
      using JObj.IH[of "(k, s)" s v t w] xy x asc calculation
      by (simp add: Basic_BNFs.snds.simps)
    ultimately show "x = y \<and> v = w" using x y by simp
  qed (simp_all add: is_digit_def)
  then show ?case using b by simp
qed

theorem json_enc_inject:
  assumes "json_enc a = json_enc b" "json_ascii a" "json_ascii b"
  shows "canon a = canon b"
  using json_enc0_prefix[of "canon a" "[]" "canon b" "[]"] assms
  by (simp add: json_enc_canon json_ascii_canon)

lemma canon_enc_cong: "canon a = canon b \<Longrightarrow> json_enc a = json_enc b"
  by (simp add: json_enc_canon)

text \<open>Objects with the same members under every key have one canonical form.\<close>

lemma sort_key_perm_unique:
  assumes "distinct (map fst xs)" "mset xs = mset ys"
  shows "sort_key fst xs = sort_key fst ys"
proof (rule sorted_perm_unique[where lt = "\<lambda>a b. fst a < fst b"])
  show "mset (sort_key fst xs) = mset (sort_key fst ys)" using assms by simp
  show "distinct (sort_key fst xs)" using assms by (simp add: distinct_map)
  show "sorted_wrt (\<lambda>a b. \<not> fst b < fst a) (sort_key fst zs)" for zs :: "('a \<times> 'b) list"
    using sorted_sort_key[of fst zs] by (simp add: sorted_wrt_map not_less)
  show "sorted_wrt (\<lambda>a b. \<not> fst b < fst a) (sort_key fst ys)"
    using sorted_sort_key[of fst ys] by (simp add: sorted_wrt_map not_less)
next
  fix a b
  assume "a \<in> set (sort_key fst xs)" "b \<in> set (sort_key fst xs)" "a \<noteq> b"
  then have "fst a \<noteq> fst b" using assms(1) by (auto simp: distinct_map inj_on_def)
  then show "fst a < fst b \<or> fst b < fst a" by auto
qed

lemma sort_key_map_of_eq:
  assumes "gomap_ok xs" "gomap_ok ys" "map_of xs = map_of ys"
  shows "sort_key fst xs = sort_key fst ys"
proof (rule sort_key_perm_unique)
  show "distinct (map fst xs)" using assms(1) by (simp add: gomap_ok_def)
  have "set xs = set ys" "distinct xs" "distinct ys"
    using assms by (auto simp: gomap_ok_def distinct_map map_of_inject_set)
  then show "mset xs = mset ys" by (simp add: set_eq_iff_mset_eq_distinct)
qed

lemma sort_key_eq_map_of:
  assumes "gomap_ok xs" "gomap_ok ys" "sort_key fst xs = sort_key fst ys"
  shows "map_of xs = map_of ys"
proof -
  have "mset xs = mset ys" using assms(3) by (metis mset_sort)
  then show ?thesis using gomap_perm_map_of[of ys xs] assms(2) by simp
qed

end
