(* ===== verification/Modindex.thy ===== *)
theory Modindex
  imports Json
begin

text \<open>
  The signed module index of \<open>modindex/modindex.go\<close>: its types, \<open>Parse\<close>, \<open>CanonicalPayload\<close>,
  \<open>Verify\<close> and \<open>Sign\<close>. YAML decoding (\<open>unmarshal\<close>), SHA-256 in hex (\<open>sha\<close>), base64 and
  ed25519 are parameters. The abstract specification of the payload is \<open>signed_view\<close>, the part
  of the index a signature is meant to cover; the payload is the same text exactly when that
  part is the same (\<open>payload_covers_signed_view\<close>).
\<close>

section \<open>Types\<close>

record artifact =
  art_url :: string
  art_sha256 :: string
  art_sig :: string

record release =
  rel_protocol :: int
  rel_engines :: "string list"
  rel_artifacts :: "artifact gomap"
  rel_doze :: string

record index =
  idx_schema :: int
  idx_module :: string
  idx_namespace :: string
  idx_releases :: "release gomap"
  idx_channels :: "string gomap option"
  idx_signature :: string

definition zero_release :: release where
  "zero_release = \<lparr>rel_protocol = 0, rel_engines = [], rel_artifacts = [], rel_doze = []\<rparr>"

definition index_schema :: int where
  "index_schema = 1"

section \<open>Parse\<close>

datatype parse_error = YamlError string | WrongSchema int | NoModuleName

definition parse_index :: "('b \<Rightarrow> string + index) \<Rightarrow> 'b \<Rightarrow> parse_error + index" where
  "parse_index unmarshal data = (case unmarshal data of
     Inl e \<Rightarrow> Inl (YamlError e)
   | Inr idx \<Rightarrow>
       if idx_schema idx \<noteq> index_schema then Inl (WrongSchema (idx_schema idx))
       else if idx_module idx = [] then Inl NoModuleName
       else Inr idx)"

section \<open>CanonicalPayload\<close>

definition artifact_json :: "artifact \<Rightarrow> json" where
  "artifact_json a = JObj ([(''url'', JStr (art_url a)), (''sha256'', JStr (to_lower (art_sha256 a)))] @
     (if art_sig a \<noteq> [] then [(''sig'', JStr (art_sig a))] else []))"

definition release_json :: "release \<Rightarrow> json" where
  "release_json r = JObj ([(''protocol'', JInt (rel_protocol r))] @
     (if rel_engines r \<noteq> [] then [(''engines'', JArr (map JStr (rel_engines r)))] else []) @
     [(''artifacts'', JObj (map (\<lambda>(t, a). (t, artifact_json a)) (rel_artifacts r)))])"

definition payload_json :: "index \<Rightarrow> json" where
  "payload_json idx = JObj
     [(''module'', JStr (idx_module idx)),
      (''namespace'', JStr (idx_namespace idx)),
      (''releases'', JObj (map (\<lambda>(v, r). (v, release_json r)) (idx_releases idx))),
      (''channels'', (case idx_channels idx of
          None \<Rightarrow> JNull
        | Some m \<Rightarrow> JObj (map (\<lambda>(k, v). (k, JStr v)) m)))]"

definition newline :: char where
  "newline = CHR 0x0A"

text \<open>The encoder writes a newline after the value, which the code trims.\<close>

definition canonical_payload :: "index \<Rightarrow> string" where
  "canonical_payload idx = trim_right_char newline (json_enc (payload_json idx) @ [newline])"

section \<open>Verify and Sign\<close>

datatype verify_error = Unsigned | MalformedSignature | SignatureMismatch

definition verify_index ::
  "(string \<Rightarrow> string) \<Rightarrow> (string \<Rightarrow> string option) \<Rightarrow> ('k \<Rightarrow> string \<Rightarrow> string \<Rightarrow> bool) \<Rightarrow>
   index \<Rightarrow> 'k \<Rightarrow> verify_error option" where
  "verify_index sha b64dec ed_verify idx key =
     (if idx_signature idx = [] then Some Unsigned
      else (case b64dec (idx_signature idx) of
        None \<Rightarrow> Some MalformedSignature
      | Some sig \<Rightarrow>
          if ed_verify key (sha (canonical_payload idx)) sig then None else Some SignatureMismatch))"

definition sign_index ::
  "(string \<Rightarrow> string) \<Rightarrow> (string \<Rightarrow> string) \<Rightarrow> ('s \<Rightarrow> string \<Rightarrow> string) \<Rightarrow> index \<Rightarrow> 's \<Rightarrow> index" where
  "sign_index sha b64enc ed_sign idx key =
     idx\<lparr>idx_signature := b64enc (ed_sign key (sha (canonical_payload idx)))\<rparr>"

section \<open>What a signature covers\<close>

definition artifact_view :: "artifact \<Rightarrow> string \<times> string \<times> string" where
  "artifact_view a = (art_url a, to_lower (art_sha256 a), art_sig a)"

definition release_view ::
  "release \<Rightarrow> int \<times> string list \<times> (string \<Rightarrow> (string \<times> string \<times> string) option)" where
  "release_view r = (rel_protocol r, rel_engines r, (\<lambda>t. map_option artifact_view (map_of (rel_artifacts r) t)))"

definition signed_view :: "index \<Rightarrow> string \<times> string \<times>
    (string \<Rightarrow> (int \<times> string list \<times> (string \<Rightarrow> (string \<times> string \<times> string) option)) option) \<times>
    (string \<Rightarrow> string option) option" where
  "signed_view idx = (idx_module idx, idx_namespace idx,
     (\<lambda>v. map_option release_view (map_of (idx_releases idx) v)), map_option map_of (idx_channels idx))"

definition index_ok :: "index \<Rightarrow> bool" where
  "index_ok idx = (gomap_ok (idx_releases idx) \<and>
     list_all (\<lambda>(v, r). gomap_ok (rel_artifacts r)) (idx_releases idx) \<and>
     (case idx_channels idx of None \<Rightarrow> True | Some m \<Rightarrow> gomap_ok m))"

definition artifact_ascii :: "artifact \<Rightarrow> bool" where
  "artifact_ascii a = (ascii (art_url a) \<and> ascii (art_sha256 a) \<and> ascii (art_sig a))"

definition release_ascii :: "release \<Rightarrow> bool" where
  "release_ascii r = (list_all ascii (rel_engines r) \<and>
     list_all (\<lambda>(t, a). ascii t \<and> artifact_ascii a) (rel_artifacts r))"

definition index_ascii :: "index \<Rightarrow> bool" where
  "index_ascii idx = (ascii (idx_module idx) \<and> ascii (idx_namespace idx) \<and>
     list_all (\<lambda>(v, r). ascii v \<and> release_ascii r) (idx_releases idx) \<and>
     (case idx_channels idx of None \<Rightarrow> True | Some m \<Rightarrow> list_all (\<lambda>(k, v). ascii k \<and> ascii v) m))"

lemma canon_obj_iff:
  assumes "gomap_ok xs" "gomap_ok ys"
  shows "canon (JObj xs) = canon (JObj ys) \<longleftrightarrow>
    (\<forall>k. map_option canon (map_of xs k) = map_option canon (map_of ys k))"
proof -
  have mp: "map_of (map (map_prod id canon) zs) k = map_option canon (map_of zs k)" for zs k
    by (induction zs) auto
  have ok: "gomap_ok (map (map_prod id canon) zs) = gomap_ok zs" for zs
    by (simp add: gomap_ok_def o_def)
  show ?thesis
    using sort_key_map_of_eq[of "map (map_prod id canon) xs" "map (map_prod id canon) ys"]
      sort_key_eq_map_of[of "map (map_prod id canon) xs" "map (map_prod id canon) ys"] assms
    by (auto simp: ok mp fun_eq_iff)
qed

lemma map_option_eq_iff:
  assumes "\<And>a b. x = Some a \<Longrightarrow> y = Some b \<Longrightarrow> f a = f b \<longleftrightarrow> g a = g b"
  shows "map_option f x = map_option f y \<longleftrightarrow> map_option g x = map_option g y"
  using assms by (cases x; cases y) auto

lemma map_of_map_snd: "map_of (map (\<lambda>(k, v). (k, f v)) m) k = map_option f (map_of m k)"
  by (induction m) auto

lemma gomap_ok_map_snd: "gomap_ok (map (\<lambda>(k, v). (k, f v)) m) = gomap_ok m"
  by (simp add: gomap_ok_def o_def case_prod_unfold)

text \<open>The canonical form of a map field: the values under each key.\<close>

lemma canon_map_iff:
  assumes "gomap_ok m" "gomap_ok n"
  shows "canon (JObj (map (\<lambda>(k, v). (k, f v)) m)) = canon (JObj (map (\<lambda>(k, v). (k, f v)) n)) \<longleftrightarrow>
    (\<forall>k. map_option (\<lambda>v. canon (f v)) (map_of m k) = map_option (\<lambda>v. canon (f v)) (map_of n k))"
  using assms
  by (subst canon_obj_iff) (simp_all add: gomap_ok_map_snd map_of_map_snd option.map_comp o_def)

lemma canon_artifact_iff: "canon (artifact_json a) = canon (artifact_json b) \<longleftrightarrow> artifact_view a = artifact_view b"
proof
  assume eq: "canon (artifact_json a) = canon (artifact_json b)"
  have "\<forall>k. map_option canon (map_of (case artifact_json a of JObj m \<Rightarrow> m) k) =
      map_option canon (map_of (case artifact_json b of JObj m \<Rightarrow> m) k)"
    using eq unfolding artifact_json_def by (subst (asm) canon_obj_iff) auto
  from this[rule_format, of "''url''"] this[rule_format, of "''sha256''"] this[rule_format, of "''sig''"]
  show "artifact_view a = artifact_view b"
    by (auto simp: artifact_json_def artifact_view_def split: if_splits)
next
  assume "artifact_view a = artifact_view b"
  then show "canon (artifact_json a) = canon (artifact_json b)"
    by (simp add: artifact_json_def artifact_view_def)
qed

lemma map_canon_JStr: "map canon (map JStr xs) = map JStr xs"
  by (induction xs) auto

lemma inj_JStr: "inj JStr"
  by (simp add: inj_def)

lemma canon_artifacts_iff:
  assumes "gomap_ok m" "gomap_ok n"
  shows "canon (JObj (map (\<lambda>(t, a). (t, artifact_json a)) m)) =
      canon (JObj (map (\<lambda>(t, a). (t, artifact_json a)) n)) \<longleftrightarrow>
    (\<lambda>t. map_option artifact_view (map_of m t)) = (\<lambda>t. map_option artifact_view (map_of n t))"
proof -
  have "map_option (\<lambda>v. canon (artifact_json v)) (map_of m k) = map_option (\<lambda>v. canon (artifact_json v)) (map_of n k) \<longleftrightarrow>
      map_option artifact_view (map_of m k) = map_option artifact_view (map_of n k)" for k
    by (rule map_option_eq_iff) (simp add: canon_artifact_iff)
  then show ?thesis using assms by (simp add: canon_map_iff fun_eq_iff del: canon.simps)
qed

lemma canon_release_iff:
  assumes "gomap_ok (rel_artifacts r)" "gomap_ok (rel_artifacts s)"
  shows "canon (release_json r) = canon (release_json s) \<longleftrightarrow> release_view r = release_view s"
proof
  assume eq: "canon (release_json r) = canon (release_json s)"
  have all: "\<forall>k. map_option canon (map_of (case release_json r of JObj m \<Rightarrow> m) k) =
      map_option canon (map_of (case release_json s of JObj m \<Rightarrow> m) k)"
    using eq unfolding release_json_def by (subst (asm) canon_obj_iff) auto
  from all[rule_format, of "''protocol''"] have p: "rel_protocol r = rel_protocol s"
    by (simp add: release_json_def)
  from all[rule_format, of "''engines''"] have e: "rel_engines r = rel_engines s"
    by (auto simp: release_json_def map_canon_JStr inj_map_eq_map[OF inj_JStr] simp del: map_map split: if_splits)
  from all[rule_format, of "''artifacts''"]
  have "canon (JObj (map (\<lambda>(t, a). (t, artifact_json a)) (rel_artifacts r))) =
      canon (JObj (map (\<lambda>(t, a). (t, artifact_json a)) (rel_artifacts s)))"
    by (auto simp: release_json_def split: if_splits)
  with p e show "release_view r = release_view s"
    using assms by (simp only: canon_artifacts_iff release_view_def)
next
  assume eq: "release_view r = release_view s"
  then have "canon (JObj (map (\<lambda>(t, a). (t, artifact_json a)) (rel_artifacts r))) =
      canon (JObj (map (\<lambda>(t, a). (t, artifact_json a)) (rel_artifacts s)))"
    using assms by (simp only: canon_artifacts_iff release_view_def prod.inject)
  moreover have "rel_protocol r = rel_protocol s" "rel_engines r = rel_engines s"
    using eq by (simp_all add: release_view_def)
  ultimately show "canon (release_json r) = canon (release_json s)"
    unfolding release_json_def by (subst canon_obj_iff) (auto split: if_splits)
qed

lemma index_ok_release:
  "index_ok idx \<Longrightarrow> map_of (idx_releases idx) v = Some r \<Longrightarrow> gomap_ok (rel_artifacts r)"
  by (auto simp: index_ok_def list_all_iff dest: map_of_SomeD)

lemma canon_releases_iff:
  assumes "index_ok i" "index_ok j"
  shows "canon (JObj (map (\<lambda>(v, r). (v, release_json r)) (idx_releases i))) =
      canon (JObj (map (\<lambda>(v, r). (v, release_json r)) (idx_releases j))) \<longleftrightarrow>
    (\<lambda>v. map_option release_view (map_of (idx_releases i) v)) =
    (\<lambda>v. map_option release_view (map_of (idx_releases j) v))"
proof -
  have "map_option (\<lambda>r. canon (release_json r)) (map_of (idx_releases i) k) =
        map_option (\<lambda>r. canon (release_json r)) (map_of (idx_releases j) k) \<longleftrightarrow>
      map_option release_view (map_of (idx_releases i) k) =
        map_option release_view (map_of (idx_releases j) k)" for k
    by (rule map_option_eq_iff) (simp add: canon_release_iff index_ok_release[OF assms(1)] index_ok_release[OF assms(2)])
  then show ?thesis using assms by (simp add: canon_map_iff fun_eq_iff index_ok_def del: canon.simps)
qed

definition channels_json :: "string gomap option \<Rightarrow> json" where
  "channels_json c = (case c of None \<Rightarrow> JNull | Some m \<Rightarrow> JObj (map (\<lambda>(k, v). (k, JStr v)) m))"

lemma canon_channels_iff:
  assumes "case c of None \<Rightarrow> True | Some m \<Rightarrow> gomap_ok m" "case d of None \<Rightarrow> True | Some m \<Rightarrow> gomap_ok m"
  shows "canon (channels_json c) = canon (channels_json d) \<longleftrightarrow> map_option map_of c = map_option map_of d"
proof (cases c; cases d)
  fix m n
  assume cd: "c = Some m" "d = Some n"
  have "map_option (\<lambda>v. canon (JStr v)) (map_of m k) = map_option (\<lambda>v. canon (JStr v)) (map_of n k) \<longleftrightarrow>
      map_of m k = map_of n k" for k
    by (cases "map_of m k"; cases "map_of n k") auto
  then show ?thesis using assms cd by (simp only: channels_json_def option.case canon_map_iff) (simp add: fun_eq_iff)
qed (simp_all add: channels_json_def)

lemma canon_payload_iff:
  assumes "index_ok i" "index_ok j"
  shows "canon (payload_json i) = canon (payload_json j) \<longleftrightarrow> signed_view i = signed_view j"
proof -
  let ?rel = "\<lambda>x. JObj (map (\<lambda>(v, r). (v, release_json r)) (idx_releases x))"
  let ?m = "\<lambda>x. [(''module'', JStr (idx_module x)), (''namespace'', JStr (idx_namespace x)),
      (''releases'', ?rel x), (''channels'', channels_json (idx_channels x))]"
  have "canon (payload_json i) = canon (payload_json j) \<longleftrightarrow>
      (\<forall>k. map_option canon (map_of (?m i) k) = map_option canon (map_of (?m j) k))"
    unfolding payload_json_def channels_json_def by (rule canon_obj_iff) simp_all
  also have "\<dots> \<longleftrightarrow> idx_module i = idx_module j \<and> idx_namespace i = idx_namespace j \<and>
      canon (?rel i) = canon (?rel j) \<and> canon (channels_json (idx_channels i)) = canon (channels_json (idx_channels j))"
    (is "(\<forall>k. ?P k) \<longleftrightarrow> ?Q")
  proof
    assume all: "\<forall>k. ?P k"
    from all[rule_format, of "''module''"] all[rule_format, of "''namespace''"]
      all[rule_format, of "''releases''"] all[rule_format, of "''channels''"]
    show ?Q by simp
  qed auto
  also have "\<dots> \<longleftrightarrow> signed_view i = signed_view j"
    using assms by (simp only: canon_releases_iff signed_view_def prod.inject)
      (simp add: canon_channels_iff index_ok_def)
  finally show ?thesis .
qed

lemma ascii_to_lower: "ascii s \<Longrightarrow> ascii (to_lower s)"
  by (auto simp: ascii_def to_lower_def lower_char_def list_all_iff)

lemma artifact_json_ascii: "artifact_ascii a \<Longrightarrow> json_ascii (artifact_json a)"
  by (auto simp: artifact_json_def artifact_ascii_def ascii_to_lower)

lemma release_json_ascii: "release_ascii r \<Longrightarrow> json_ascii (release_json r)"
  by (auto simp: release_json_def release_ascii_def list_all_iff artifact_json_ascii)

lemma payload_json_ascii: "index_ascii i \<Longrightarrow> json_ascii (payload_json i)"
  by (auto simp: payload_json_def index_ascii_def list_all_iff release_json_ascii split: option.splits)

lemma payload_no_trim: "canonical_payload i = json_enc (payload_json i)"
  by (simp add: canonical_payload_def trim_right_char_def newline_def payload_json_def)

section \<open>Properties of the payload and its signature\<close>

text \<open>C14. The canonical payload is the same text for two indexes exactly when everything a
  signature is meant to cover is the same: module, namespace, channels, and every release's
  protocol, engine list and artifacts (URL, lower-cased digest, signature), whatever order the
  maps are visited in. Nothing in that part can be changed without changing the signed text.\<close>

theorem payload_covers_signed_view:
  assumes "index_ok i" "index_ok j" "index_ascii i" "index_ascii j"
  shows "canonical_payload i = canonical_payload j \<longleftrightarrow> signed_view i = signed_view j"
  using assms json_enc_inject[of "payload_json i" "payload_json j"] canon_enc_cong[of "payload_json i" "payload_json j"]
  by (auto simp: payload_no_trim canon_payload_iff payload_json_ascii)

definition example_index :: "index" where
  "example_index = \<lparr>idx_schema = 1, idx_module = ''httpd'', idx_namespace = ''acme'',
     idx_releases = [(''0.1.0'', \<lparr>rel_protocol = 1, rel_engines = [''16'', ''17''],
        rel_artifacts = [(''a-b'', \<lparr>art_url = ''u1'', art_sha256 = ''AB'', art_sig = ''s''\<rparr>),
          (''a-a'', \<lparr>art_url = ''u2'', art_sha256 = ''cd'', art_sig = []\<rparr>)], rel_doze = ''0.2.0''\<rparr>)],
     idx_channels = Some [(''stable'', ''0.1.0'')], idx_signature = []\<rparr>"

theorem payload_covers_signed_view_witness:
  "canonical_payload example_index \<noteq> canonical_payload (example_index\<lparr>idx_channels := Some [(''stable'', ''0.2.0'')]\<rparr>)"
proof -
  let ?j = "example_index\<lparr>idx_channels := Some [(''stable'', ''0.2.0'')]\<rparr>"
  have "index_ok example_index" "index_ok ?j" "index_ascii example_index" "index_ascii ?j"
    by (simp_all add: example_index_def index_ok_def index_ascii_def release_ascii_def artifact_ascii_def)
  note iff = payload_covers_signed_view[OF this]
  have "signed_view example_index \<noteq> signed_view ?j"
    by (simp add: signed_view_def example_index_def fun_eq_iff)
  then show ?thesis using iff by simp
qed

text \<open>An index signed with a key verifies under its public key, whatever the payload is.
  Hypotheses: base64 decoding inverts encoding, the empty text decodes to no bytes, a signature
  is never empty and verifies under the matching public key.\<close>

theorem sign_then_verify:
  assumes "\<And>x. b64dec (b64enc x) = Some x" "b64dec [] = Some []"
    and "\<And>m. ed_sign sk m \<noteq> []" "\<And>m. ed_verify (pub sk) m (ed_sign sk m)"
  shows "verify_index sha b64dec ed_verify (sign_index sha b64enc ed_sign idx sk) (pub sk) = None"
proof -
  have pay: "canonical_payload (idx\<lparr>idx_signature := s\<rparr>) = canonical_payload idx" for s
    by (simp add: canonical_payload_def payload_json_def)
  have "b64enc (ed_sign sk m) \<noteq> []" for m
    using assms(1)[of "ed_sign sk m"] assms(2,3) by (metis option.inject)
  then show ?thesis
    using assms(1,4) by (simp add: verify_index_def sign_index_def pay)
qed

theorem sign_then_verify_witness:
  "verify_index id Some (\<lambda>k m s. s = k @ m) (sign_index id id (\<lambda>k m. k @ m) example_index ''k'') ''k'' = None"
  by (rule sign_then_verify[where pub = id and sk = "''k''", unfolded id_apply]) simp_all

text \<open>Nobody can move a signature to another index: two indexes that carry one signature text
  and both verify under a key have the same signed part. Hypotheses: under that key a signature
  verifies for one message only, and SHA-256 does not collide on the two payloads.\<close>

theorem signature_binds_view:
  assumes "verify_index sha b64dec ed_verify i key = None" "verify_index sha b64dec ed_verify j key = None"
    and "idx_signature i = idx_signature j"
    and "\<And>m m' s. ed_verify key m s \<Longrightarrow> ed_verify key m' s \<Longrightarrow> m = m'"
    and "inj_on sha {canonical_payload i, canonical_payload j}"
    and "index_ok i" "index_ok j" "index_ascii i" "index_ascii j"
  shows "signed_view i = signed_view j"
proof -
  obtain s where "ed_verify key (sha (canonical_payload i)) s" "ed_verify key (sha (canonical_payload j)) s"
    using assms(1-3) by (auto simp: verify_index_def split: if_splits option.splits)
  then have "canonical_payload i = canonical_payload j"
    using assms(4,5) by (metis inj_onD insertI1 insertI2)
  then show ?thesis
    using assms(6-9) json_enc_inject[of "payload_json i" "payload_json j"]
    by (simp add: payload_no_trim canon_payload_iff payload_json_ascii)
qed

theorem signature_binds_view_witness:
  "signed_view (sign_index id id (\<lambda>k m. k @ m) example_index ''k'') =
   signed_view (sign_index id id (\<lambda>k m. k @ m) (example_index\<lparr>idx_schema := 2\<rparr>) ''k'')"
  (is "signed_view ?i = signed_view ?j")
proof (rule signature_binds_view[where sha = id and b64dec = Some and key = "''k''" and ed_verify = "\<lambda>k m s. s = k @ m"])
  show "inj_on id {canonical_payload ?i, canonical_payload ?j}" by simp
qed (simp_all add: sign_index_def verify_index_def canonical_payload_def payload_json_def
   example_index_def index_ok_def index_ascii_def release_ascii_def artifact_ascii_def payload_no_trim)

end
