(* ===== verification/Selection.thy ===== *)
theory Selection
  imports Versions Modindex
begin

text \<open>
  Which release of a module a host gets: \<open>Supports\<close>, \<open>Select\<close> and \<open>SelectFor\<close> of
  \<open>modindex/modindex.go\<close>. The abstract specification is \<open>compatible\<close>: the release exists, speaks
  the host's protocol and covers the required engine majors. \<open>Select\<close> answers exactly when there
  is such a release, prefers the channel head, and otherwise takes the newest; its errors say
  which condition failed. On numeric versions the answer does not depend on the order Go visits
  the release map in.
\<close>

section \<open>Definitions\<close>

datatype select_error =
    NoReleases string
  | ProtocolError string int int int
  | EngineSupportError string "string list" string "string list"
  | DozeError string "string list" string string

text \<open>What they say.\<close>

definition protocol_error_text :: "string \<Rightarrow> int \<Rightarrow> int \<Rightarrow> int \<Rightarrow> string" where
  "protocol_error_text m host lo hi =
     (if lo > host then ''every release of '' @ m @ '' requires plugin protocol >= '' @ dec_int lo @ ''; this doze speaks ''
        @ dec_int host @ '' '' @ [CHR 0xE2, CHR 0x80, CHR 0x94] @ '' upgrade doze''
      else ''no release of '' @ m @ '' speaks plugin protocol '' @ dec_int host @ '' (releases span '' @ dec_int lo @ ''-''
        @ dec_int hi @ '')'')"

definition engine_support_text :: "string \<Rightarrow> string list \<Rightarrow> string \<Rightarrow> string list \<Rightarrow> string" where
  "engine_support_text m majors latest supported =
     ''no release of '' @ m @ '' supports '' @ m @ '' '' @ join_with '', '' majors @ ''; latest ('' @ latest @ '') supports ''
     @ join_with '', '' supported"

definition doze_error_text :: "string \<Rightarrow> string list \<Rightarrow> string \<Rightarrow> string \<Rightarrow> string" where
  "doze_error_text m majors need have =
     (let what = (if majors \<noteq> [] then m @ '' '' @ join_with '', '' majors else m) in
      what @ '' needs doze '' @ need @ '' or newer; this doze is '' @ have @ ''. Update doze, then run the command again'')"

definition supports :: "release \<Rightarrow> string list \<Rightarrow> bool" where
  "supports r requiredMajors =
     (if rel_engines r = [] then True
      else list_all (\<lambda>m. \<not> (m \<noteq> [] \<and> m \<notin> set (rel_engines r))) requiredMajors)"

definition rel_at :: "release gomap \<Rightarrow> string \<Rightarrow> release" where
  "rel_at rels v = mget zero_release rels v"

text \<open>The loop over the releases: the smallest and largest protocol seen and the versions that
  speak the host's.\<close>

fun scan_step :: "int \<Rightarrow> int \<times> int \<times> string list \<Rightarrow> string \<times> release \<Rightarrow> int \<times> int \<times> string list" where
  "scan_step hostProtocol (minP, maxP, protoOK) (v, r) =
     (if minP = 0 \<or> rel_protocol r < minP then rel_protocol r else minP,
      if rel_protocol r > maxP then rel_protocol r else maxP,
      if rel_protocol r = hostProtocol then protoOK @ [v] else protoOK)"

definition proto_scan :: "int \<Rightarrow> release gomap \<Rightarrow> int \<times> int \<times> string list" where
  "proto_scan hostProtocol rels = foldl (scan_step hostProtocol) (0, 0, []) rels"

definition select :: "index \<Rightarrow> int \<Rightarrow> string list \<Rightarrow> string \<Rightarrow> select_error + (string \<times> release)" where
  "select idx hostProtocol requiredMajors channel0 =
     (let channel = (if channel0 = [] then ''stable'' else channel0); rels = idx_releases idx in
      if rels = [] then Inl (NoReleases (idx_module idx))
      else (case proto_scan hostProtocol rels of (minP, maxP, protoOK) \<Rightarrow>
        if protoOK = [] then Inl (ProtocolError (idx_module idx) hostProtocol minP maxP)
        else (let sorted = sort_slice newer protoOK;
                  candidates = filter (\<lambda>v. supports (rel_at rels v) requiredMajors) sorted in
          if candidates = [] then
            Inl (EngineSupportError (idx_module idx) requiredMajors (hd sorted)
              (rel_engines (rel_at rels (hd sorted))))
          else (case (case idx_channels idx of None \<Rightarrow> None | Some m \<Rightarrow> map_of m channel) of
              Some head \<Rightarrow> if head \<in> set candidates then Inr (head, rel_at rels head)
                else Inr (hd candidates, rel_at rels (hd candidates))
            | None \<Rightarrow> Inr (hd candidates, rel_at rels (hd candidates))))))"

text \<open>The loop of \<open>SelectFor\<close>: releases that need a newer doze are left out; the oldest doze
  that would have let a fitting one in is remembered.\<close>

fun fits_step :: "int \<Rightarrow> string \<Rightarrow> string list \<Rightarrow> release gomap \<times> string \<Rightarrow> string \<times> release \<Rightarrow> release gomap \<times> string" where
  "fits_step hostProtocol hostDoze requiredMajors (fits, need) (v, r) =
     (if rel_doze r \<noteq> [] \<and> compare_versions (rel_doze r) hostDoze > 0 then
        (fits, if rel_protocol r = hostProtocol \<and> supports r requiredMajors \<and>
                  (need = [] \<or> compare_versions (rel_doze r) need < 0)
               then rel_doze r else need)
      else (mput v r fits, need))"

definition select_for :: "index \<Rightarrow> int \<Rightarrow> string \<Rightarrow> string list \<Rightarrow> string \<Rightarrow> select_error + (string \<times> release)" where
  "select_for idx hostProtocol hostDoze0 requiredMajors channel =
     (if \<not> is_doze_version hostDoze0 then select idx hostProtocol requiredMajors channel
      else (let hostDoze = trim_prefix hostDoze0 ''v'' in
        case foldl (fits_step hostProtocol hostDoze requiredMajors) ([], []) (idx_releases idx) of
          (fits, need) \<Rightarrow>
            (case select (idx\<lparr>idx_releases := fits, idx_signature := []\<rparr>) hostProtocol requiredMajors channel of
              Inl err \<Rightarrow> if need \<noteq> [] then Inl (DozeError (idx_module idx) requiredMajors need hostDoze) else Inl err
            | Inr vr \<Rightarrow> Inr vr)))"

section \<open>The scan\<close>

definition speaks :: "int \<Rightarrow> string \<times> release \<Rightarrow> bool" where
  "speaks hostProtocol vr = (rel_protocol (snd vr) = hostProtocol)"

lemma proto_scan_snoc:
  "proto_scan h (rels @ [vr]) = scan_step h (proto_scan h rels) vr"
  by (simp add: proto_scan_def)

lemma proto_scan_ok: "snd (snd (proto_scan h rels)) = map fst (filter (speaks h) rels)"
proof (induction rels rule: rev_induct)
  case (snoc vr rels)
  then show ?case
    by (cases vr; cases "proto_scan h rels") (auto simp: proto_scan_snoc speaks_def)
qed (simp add: proto_scan_def)

definition protocols :: "release gomap \<Rightarrow> int set" where
  "protocols rels = (rel_protocol \<circ> snd) ` set rels"

lemma proto_scan_bounds:
  assumes "rels \<noteq> []" "\<forall>p\<in>protocols rels. 0 < p"
  shows "fst (proto_scan h rels) = Min (protocols rels) \<and> fst (snd (proto_scan h rels)) = Max (protocols rels)"
  using assms
proof (induction rels rule: rev_induct)
  case (snoc vr rels)
  obtain v r where vr: "vr = (v, r)" by (cases vr)
  show ?case
  proof (cases "rels = []")
    case True
    then show ?thesis using snoc.prems vr by (simp add: proto_scan_def protocols_def)
  next
    case False
    obtain mn mx ok where s: "proto_scan h rels = (mn, mx, ok)" by (cases "proto_scan h rels")
    have fin: "finite (protocols rels)" "protocols rels \<noteq> {}"
      using False by (auto simp: protocols_def)
    have ih: "mn = Min (protocols rels)" "mx = Max (protocols rels)"
      using snoc.IH[OF False] snoc.prems s by (auto simp: protocols_def)
    have "protocols (rels @ [vr]) = insert (rel_protocol r) (protocols rels)"
      using vr by (simp add: protocols_def)
    moreover have "0 < mn"
      using ih fin snoc.prems(2) Min_in[OF fin] by (auto simp: protocols_def)
    moreover have "Min (insert (rel_protocol r) (protocols rels)) = min (rel_protocol r) mn"
      "Max (insert (rel_protocol r) (protocols rels)) = max (rel_protocol r) mx"
      using fin ih by simp_all
    ultimately show ?thesis
      using s vr by (simp add: proto_scan_snoc min_def max_def)
  qed
qed simp

section \<open>What Select decides\<close>

definition compatible :: "release gomap \<Rightarrow> int \<Rightarrow> string list \<Rightarrow> string \<Rightarrow> bool" where
  "compatible rels hostProtocol requiredMajors v = (case map_of rels v of
     None \<Rightarrow> False
   | Some r \<Rightarrow> rel_protocol r = hostProtocol \<and> supports r requiredMajors)"

definition channel_head :: "index \<Rightarrow> string \<Rightarrow> string option" where
  "channel_head idx channel = (case idx_channels idx of None \<Rightarrow> None
     | Some m \<Rightarrow> map_of m (if channel = [] then ''stable'' else channel))"

abbreviation proto_ok :: "int \<Rightarrow> release gomap \<Rightarrow> string list" where
  "proto_ok h rels \<equiv> map fst (filter (speaks h) rels)"

definition candidates_of :: "release gomap \<Rightarrow> int \<Rightarrow> string list \<Rightarrow> string list" where
  "candidates_of rels h majors =
     filter (\<lambda>v. supports (rel_at rels v) majors) (sort_slice newer (proto_ok h rels))"

text \<open>\<open>select\<close> over these notions, branch by branch.\<close>

lemma select_eq:
  "select idx h majors ch = (let rels = idx_releases idx in
     if rels = [] then Inl (NoReleases (idx_module idx))
     else if proto_ok h rels = [] then
       Inl (ProtocolError (idx_module idx) h (fst (proto_scan h rels)) (fst (snd (proto_scan h rels))))
     else if candidates_of rels h majors = [] then
       (let latest = hd (sort_slice newer (proto_ok h rels)) in
        Inl (EngineSupportError (idx_module idx) majors latest (rel_engines (rel_at rels latest))))
     else (let v = (case channel_head idx ch of
            Some head \<Rightarrow> if head \<in> set (candidates_of rels h majors) then head
              else hd (candidates_of rels h majors)
          | None \<Rightarrow> hd (candidates_of rels h majors)) in Inr (v, rel_at rels v)))"
  using proto_scan_ok[of h "idx_releases idx"]
  by (cases "proto_scan h (idx_releases idx)")
     (auto simp: select_def candidates_of_def channel_head_def Let_def split: option.splits)

lemma set_candidates:
  assumes "gomap_ok rels"
  shows "v \<in> set (candidates_of rels h majors) \<longleftrightarrow> compatible rels h majors v"
  using assms gomap_in_set_iff[OF assms]
  by (force simp: candidates_of_def compatible_def rel_at_def mget_def speaks_def split: option.splits)

lemma candidates_Nil:
  assumes "gomap_ok rels"
  shows "candidates_of rels h majors = [] \<longleftrightarrow> (\<nexists>v. compatible rels h majors v)"
  using set_candidates[OF assms] by (metis empty_iff list.set_sel(1) set_empty)

lemma proto_ok_Nil:
  assumes "gomap_ok rels"
  shows "proto_ok h rels = [] \<longleftrightarrow> (\<nexists>v r. map_of rels v = Some r \<and> rel_protocol r = h)"
proof -
  have "proto_ok h rels = [] \<longleftrightarrow> (\<forall>(v, r)\<in>set rels. rel_protocol r \<noteq> h)"
    by (auto simp: filter_empty_conv speaks_def)
  then show ?thesis using gomap_in_set_iff[OF assms] by fastforce
qed

lemma compatible_rel_at:
  "compatible rels h majors v \<Longrightarrow> map_of rels v = Some (rel_at rels v) \<and>
     rel_protocol (rel_at rels v) = h \<and> supports (rel_at rels v) majors"
  by (auto simp: compatible_def rel_at_def mget_def split: option.splits)

lemma select_Inr_iff:
  assumes "gomap_ok (idx_releases idx)"
  shows "select idx h majors ch = Inr (v, r) \<longleftrightarrow>
    candidates_of (idx_releases idx) h majors \<noteq> [] \<and> r = rel_at (idx_releases idx) v \<and>
    v = (case channel_head idx ch of
        Some head \<Rightarrow> if head \<in> set (candidates_of (idx_releases idx) h majors) then head
          else hd (candidates_of (idx_releases idx) h majors)
      | None \<Rightarrow> hd (candidates_of (idx_releases idx) h majors))"
  by (auto simp: select_eq Let_def candidates_of_def split: option.splits if_splits)

lemma select_Inr_compatible:
  assumes "gomap_ok (idx_releases idx)" "select idx h majors ch = Inr (v, r)"
  shows "compatible (idx_releases idx) h majors v \<and> r = rel_at (idx_releases idx) v"
proof -
  have ne: "candidates_of (idx_releases idx) h majors \<noteq> []"
    using assms select_Inr_iff by blast
  have "v \<in> set (candidates_of (idx_releases idx) h majors)"
    using assms ne by (auto simp: select_Inr_iff split: option.splits if_splits)
  then show ?thesis using assms by (simp add: set_candidates select_Inr_iff)
qed

lemma select_Inl_iff:
  assumes "gomap_ok (idx_releases idx)"
  shows "(\<exists>e. select idx h majors ch = Inl e) \<longleftrightarrow> (\<nexists>v. compatible (idx_releases idx) h majors v)"
proof -
  have "(\<exists>e. select idx h majors ch = Inl e) \<longleftrightarrow> candidates_of (idx_releases idx) h majors = []"
    by (auto simp: select_eq Let_def candidates_of_def)
  then show ?thesis using candidates_Nil[OF assms] by simp
qed

definition all_numeric :: "release gomap \<Rightarrow> bool" where
  "all_numeric rels = list_all (\<lambda>(v, r). numeric_version v) rels"

lemma all_numeric_proto_ok: "all_numeric rels \<Longrightarrow> set (proto_ok h rels) \<subseteq> {v. numeric_version v}"
  by (auto simp: all_numeric_def list_all_iff)

lemma candidates_sorted:
  assumes "all_numeric rels"
  shows "sorted_wrt (\<lambda>a b. \<not> newer b a) (candidates_of rels h majors)"
  unfolding candidates_of_def
  by (intro sorted_wrt_filter sort_slice_sorted[OF newer_strict_weak] all_numeric_proto_ok assms)

lemma newer_irrefl: "\<not> newer a a"
  by (simp add: newer_def)

lemma candidates_hd_newest:
  assumes "gomap_ok rels" "all_numeric rels" "compatible rels h majors w"
  shows "\<not> newer w (hd (candidates_of rels h majors))"
proof (cases "candidates_of rels h majors")
  case Nil
  then show ?thesis using candidates_Nil[OF assms(1)] assms(3) by blast
next
  case (Cons c cs)
  have "w \<in> set (c # cs)" using set_candidates[OF assms(1)] assms(3) Cons by metis
  then show ?thesis using candidates_sorted[OF assms(2), of h majors] Cons newer_irrefl by auto
qed

section \<open>Visiting orders\<close>

definition no_ties :: "release gomap \<Rightarrow> bool" where
  "no_ties rels = distinct (map (version_key \<circ> fst) rels)"

lemma no_ties_inj:
  assumes "no_ties rels" "x \<in> set rels" "y \<in> set rels" "version_key (fst x) = version_key (fst y)"
  shows "x = y"
proof -
  have "inj_on (version_key \<circ> fst) (set rels)"
    using assms(1) by (simp add: no_ties_def distinct_map)
  then show ?thesis by (rule inj_onD) (use assms in auto)
qed

lemma mset_proto_ok: "mset rels' = mset rels \<Longrightarrow> mset (proto_ok h rels') = mset (proto_ok h rels)"
  by (metis mset_filter mset_map)

lemma sorted_proto_ok_unique:
  assumes "gomap_ok rels" "all_numeric rels" "no_ties rels" "mset rels' = mset rels"
  shows "sort_slice newer (proto_ok h rels') = sort_slice newer (proto_ok h rels)"
proof (rule sort_slice_unique[OF newer_strict_weak all_numeric_proto_ok[OF assms(2)]])
  show "distinct (proto_ok h rels)"
    using assms(1) by (simp add: gomap_ok_def distinct_map_filter)
  show "mset (sort_slice newer (proto_ok h rels')) = mset (proto_ok h rels)"
    using mset_proto_ok[OF assms(4)] by simp
  have "set (proto_ok h rels') = set (proto_ok h rels)"
    by (metis mset_proto_ok[OF assms(4)] set_mset_mset)
  then have "set (proto_ok h rels') \<subseteq> {v. numeric_version v}"
    using all_numeric_proto_ok[OF assms(2), of h] by metis
  then show "sorted_wrt (\<lambda>a b. \<not> newer b a) (sort_slice newer (proto_ok h rels'))"
    by (rule sort_slice_sorted[OF newer_strict_weak])
next
  fix a b
  assume ab: "a \<in> set (proto_ok h rels)" "b \<in> set (proto_ok h rels)" "a \<noteq> b"
  then have "version_key a \<noteq> version_key b"
    using no_ties_inj[OF assms(3)] by fastforce
  moreover have "numeric_version a" "numeric_version b"
    using ab all_numeric_proto_ok[OF assms(2)] by blast+
  ultimately show "newer a b \<or> newer b a"
    by (auto simp: newer_def compare_versions_gt_key)
qed

lemma protocols_perm: "mset rels' = mset rels \<Longrightarrow> protocols rels' = protocols rels"
  by (metis protocols_def set_mset_mset)

lemma rel_at_perm: "gomap_ok rels \<Longrightarrow> mset rels' = mset rels \<Longrightarrow> rel_at rels' v = rel_at rels v"
  using gomap_perm_map_of[of rels rels'] by (simp add: rel_at_def mget_def)

definition all_positive :: "release gomap \<Rightarrow> bool" where
  "all_positive rels = list_all (\<lambda>(v, r). 0 < rel_protocol r) rels"

lemma all_positiveD: "all_positive rels \<Longrightarrow> \<forall>p\<in>protocols rels. 0 < p"
  by (auto simp: all_positive_def list_all_iff protocols_def)

lemma select_perm:
  assumes "gomap_ok (idx_releases idx)" "all_numeric (idx_releases idx)" "no_ties (idx_releases idx)"
    "all_positive (idx_releases idx)" "mset rels' = mset (idx_releases idx)"
  shows "select (idx\<lparr>idx_releases := rels'\<rparr>) h majors ch = select idx h majors ch"
proof -
  let ?r = "idx_releases idx"
  have sorted: "sort_slice newer (proto_ok h rels') = sort_slice newer (proto_ok h ?r)"
    by (rule sorted_proto_ok_unique[OF assms(1,2,3,5)])
  have at: "rel_at rels' = rel_at ?r"
    by (simp add: fun_eq_iff rel_at_perm[OF assms(1,5)])
  have cand: "candidates_of rels' h majors = candidates_of ?r h majors"
    by (simp only: candidates_of_def sorted at)
  have nil: "rels' = [] \<longleftrightarrow> ?r = []" "proto_ok h rels' = [] \<longleftrightarrow> proto_ok h ?r = []"
    using assms(5) mset_proto_ok[OF assms(5), of h] by (metis mset_zero_iff)+
  have head: "channel_head (idx\<lparr>idx_releases := rels'\<rparr>) ch = channel_head idx ch"
    by (simp add: channel_head_def)
  have pos: "\<forall>p\<in>protocols ?r. 0 < p" by (rule all_positiveD[OF assms(4)])
  have bounds: "fst (proto_scan h rels') = fst (proto_scan h ?r) \<and>
      fst (snd (proto_scan h rels')) = fst (snd (proto_scan h ?r))" if "?r \<noteq> []"
    using proto_scan_bounds[of ?r h] proto_scan_bounds[of rels' h] protocols_perm[OF assms(5)] pos nil that
    by simp
  show ?thesis
    using bounds nil by (simp add: select_eq Let_def sorted at cand head split: option.splits)
qed

section \<open>Properties of Select\<close>

definition example_releases :: "release gomap" where
  "example_releases =
     [(''0.9.0'', zero_release\<lparr>rel_protocol := 1, rel_engines := [''16'']\<rparr>),
      (''0.10.0'', zero_release\<lparr>rel_protocol := 1, rel_engines := [''16'', ''17''], rel_doze := ''0.3.0''\<rparr>),
      (''0.11.0'', zero_release\<lparr>rel_protocol := 2, rel_engines := [''17''], rel_doze := ''0.4.0''\<rparr>)]"

definition example_select_index :: "index" where
  "example_select_index = example_index\<lparr>idx_releases := example_releases, idx_channels := Some [(''stable'', ''0.11.0'')]\<rparr>"

text \<open>C15. \<open>Select\<close> returns a release exactly when the index has one that speaks the host's protocol
  and covers the required majors, and what it returns is such a release of the index, with its
  record.\<close>

theorem select_sound_and_complete:
  assumes "gomap_ok (idx_releases idx)"
  shows "case select idx h majors ch of
      Inr (v, r) \<Rightarrow> map_of (idx_releases idx) v = Some r \<and> rel_protocol r = h \<and> supports r majors
    | Inl _ \<Rightarrow> (\<nexists>v. compatible (idx_releases idx) h majors v)"
proof (cases "select idx h majors ch")
  case (Inl e)
  then show ?thesis using select_Inl_iff[OF assms, of h majors ch] by simp
next
  case (Inr vr)
  then show ?thesis
    using select_Inr_compatible[OF assms, of h majors ch "fst vr" "snd vr"]
      compatible_rel_at[of "idx_releases idx" h majors "fst vr"]
    by (auto simp: case_prod_unfold)
qed

theorem select_sound_and_complete_witness:
  "select example_select_index 1 [''17''] [] = Inr (''0.10.0'', rel_at example_releases ''0.10.0'') \<and>
   supports (rel_at example_releases ''0.10.0'') [''17'']"
proof -
  have ok: "gomap_ok (idx_releases example_select_index)" by code_simp
  have sel: "select example_select_index 1 [''17''] [] = Inr (''0.10.0'', rel_at example_releases ''0.10.0'')"
    by code_simp
  show ?thesis using select_sound_and_complete[OF ok, of 1 "[''17'']" "[]"] sel by simp
qed

text \<open>The errors of \<open>Select\<close> say what is missing: no releases at all; releases, but none that
  speaks the host's protocol, with the smallest and the largest protocol of the index when all
  are positive; or releases that speak it of which none covers the majors, with the newest of
  them and its engine list.\<close>

theorem select_errors:
  assumes "gomap_ok (idx_releases idx)" "all_numeric (idx_releases idx)" "all_positive (idx_releases idx)"
    and "select idx h majors ch = Inl e"
  shows "case e of
      NoReleases m \<Rightarrow> m = idx_module idx \<and> idx_releases idx = []
    | ProtocolError m h' mn mx \<Rightarrow> m = idx_module idx \<and> h' = h \<and> h \<notin> protocols (idx_releases idx) \<and>
        mn = Min (protocols (idx_releases idx)) \<and> mx = Max (protocols (idx_releases idx))
    | EngineSupportError m majors' latest engines \<Rightarrow> m = idx_module idx \<and> majors' = majors \<and>
        (\<exists>r. map_of (idx_releases idx) latest = Some r \<and> rel_protocol r = h \<and> engines = rel_engines r) \<and>
        (\<nexists>v. compatible (idx_releases idx) h majors v) \<and>
        (\<forall>w r. map_of (idx_releases idx) w = Some r \<longrightarrow> rel_protocol r = h \<longrightarrow> \<not> newer w latest)
    | DozeError _ _ _ _ \<Rightarrow> False"
proof -
  let ?r = "idx_releases idx"
  let ?s = "sort_slice newer (proto_ok h ?r)"
  have mem: "w \<in> set ?s \<longleftrightarrow> (\<exists>r. map_of ?r w = Some r \<and> rel_protocol r = h)" for w
    using gomap_in_set_iff[OF assms(1)] by (force simp: speaks_def)
  have sorted: "sorted_wrt (\<lambda>a b. \<not> newer b a) ?s"
    by (rule sort_slice_sorted[OF newer_strict_weak all_numeric_proto_ok[OF assms(2)]])
  have hd_newest: "\<not> newer w (hd ?s)" if "w \<in> set ?s" for w
    using sorted that newer_irrefl by (cases ?s) auto
  consider (none) "?r = []" "e = NoReleases (idx_module idx)"
    | (proto) "?r \<noteq> []" "proto_ok h ?r = []"
        "e = ProtocolError (idx_module idx) h (fst (proto_scan h ?r)) (fst (snd (proto_scan h ?r)))"
    | (engine) "proto_ok h ?r \<noteq> []" "candidates_of ?r h majors = []"
        "e = EngineSupportError (idx_module idx) majors (hd ?s) (rel_engines (rel_at ?r (hd ?s)))"
    using assms(4) by (auto simp: select_eq Let_def split: if_splits)
  then show ?thesis
  proof cases
    case none
    then show ?thesis by simp
  next
    case proto
    have "\<forall>p\<in>protocols ?r. 0 < p" by (rule all_positiveD[OF assms(3)])
    then show ?thesis
      using proto proto_scan_bounds[of ?r h]
      by (auto simp: protocols_def filter_empty_conv speaks_def)
  next
    case engine
    then have "?s \<noteq> []" by simp
    then have "hd ?s \<in> set ?s" by (rule hd_in_set)
    then obtain r where "map_of ?r (hd ?s) = Some r" "rel_protocol r = h"
      using mem by blast
    then show ?thesis
      using engine candidates_Nil[OF assms(1), of h majors] mem hd_newest
      by (auto simp: rel_at_def mget_def)
  qed
qed

theorem select_errors_witness:
  "select example_select_index 7 [] [] = Inl (ProtocolError ''httpd'' 7 1 2) \<and>
   7 \<notin> protocols example_releases \<and> 1 = Min (protocols example_releases)"
proof -
  have ok: "gomap_ok (idx_releases example_select_index)" "all_numeric (idx_releases example_select_index)"
    "all_positive (idx_releases example_select_index)" by code_simp+
  have sel: "select example_select_index 7 [] [] = Inl (ProtocolError ''httpd'' 7 1 2)" by code_simp
  have "idx_releases example_select_index = example_releases" by (simp add: example_select_index_def)
  then show ?thesis using select_errors[OF ok sel] sel by simp
qed

text \<open>Which release \<open>Select\<close> picks: the head of the asked channel when it is itself
  compatible; otherwise one no compatible release is newer than.\<close>

theorem select_prefers_channel_then_newest:
  assumes "gomap_ok (idx_releases idx)" "all_numeric (idx_releases idx)"
    and "select idx h majors ch = Inr (v, r)"
  shows "(case channel_head idx ch of
      Some head \<Rightarrow> if compatible (idx_releases idx) h majors head then v = head
        else (\<forall>w. compatible (idx_releases idx) h majors w \<longrightarrow> \<not> newer w v)
    | None \<Rightarrow> (\<forall>w. compatible (idx_releases idx) h majors w \<longrightarrow> \<not> newer w v))"
  using assms candidates_hd_newest[OF assms(1,2)]
  by (auto simp: select_Inr_iff[OF assms(1)] set_candidates[OF assms(1)] split: option.splits if_splits)

theorem select_prefers_channel_then_newest_witness:
  "select example_select_index 1 [''16''] [] = Inr (''0.10.0'', rel_at example_releases ''0.10.0'') \<and>
   compatible example_releases 1 [''16''] ''0.9.0'' \<and> \<not> newer ''0.9.0'' ''0.10.0''"
proof -
  have ok: "gomap_ok (idx_releases example_select_index)" "all_numeric (idx_releases example_select_index)"
    by code_simp+
  have sel: "select example_select_index 1 [''16''] [] = Inr (''0.10.0'', rel_at example_releases ''0.10.0'')"
    by code_simp
  have "channel_head example_select_index [] = Some ''0.11.0''" by code_simp
  moreover have "\<not> compatible example_releases 1 [''16''] ''0.11.0''" by code_simp
  moreover have "idx_releases example_select_index = example_releases" by (simp add: example_select_index_def)
  moreover have "compatible example_releases 1 [''16''] ''0.9.0''" by code_simp
  ultimately show ?thesis
    using select_prefers_channel_then_newest[OF ok sel] sel by simp
qed

text \<open>The answer of \<open>Select\<close>, error or release, does not depend on the order the release map
  is visited in, when versions are numbers, no two releases have equal version numbers, and
  protocols are positive.\<close>

theorem select_order_independent:
  assumes "gomap_ok (idx_releases idx)" "all_numeric (idx_releases idx)" "no_ties (idx_releases idx)"
    "all_positive (idx_releases idx)" "mset rels' = mset (idx_releases idx)"
  shows "select (idx\<lparr>idx_releases := rels'\<rparr>) h majors ch = select idx h majors ch"
  by (rule select_perm[OF assms])

theorem select_order_independent_witness:
  "select (example_select_index\<lparr>idx_releases := rev example_releases\<rparr>) 1 [] [] = select example_select_index 1 [] []"
proof (rule select_order_independent)
  show "mset (rev example_releases) = mset (idx_releases example_select_index)"
    by (simp add: example_select_index_def)
qed code_simp+

text \<open>A release without a protocol (0) makes the reported span depend on the visiting order:
  the loop takes a smallest protocol of 0 for "none seen yet" and overwrites it.\<close>

theorem protocol_span_order_dependent:
  "let a = (''0.1.0'', zero_release); b = (''0.2.0'', zero_release\<lparr>rel_protocol := 3\<rparr>) in
   fst (proto_scan 7 [a, b]) = 3 \<and> fst (proto_scan 7 [b, a]) = 0 \<and>
   select (example_index\<lparr>idx_releases := [a, b]\<rparr>) 7 [] [] = Inl (ProtocolError ''httpd'' 7 3 3)"
  by code_simp

section \<open>SelectFor\<close>

definition runs_on :: "string \<Rightarrow> release \<Rightarrow> bool" where
  "runs_on hostDoze r = (rel_doze r = [] \<or> \<not> compare_versions (rel_doze r) hostDoze > 0)"

definition too_new :: "int \<Rightarrow> string \<Rightarrow> string list \<Rightarrow> string \<times> release \<Rightarrow> bool" where
  "too_new h hostDoze majors vr = (\<not> runs_on hostDoze (snd vr) \<and> rel_protocol (snd vr) = h \<and> supports (snd vr) majors)"

definition fits_of :: "string \<Rightarrow> release gomap \<Rightarrow> release gomap" where
  "fits_of hostDoze rels = filter (\<lambda>(v, r). runs_on hostDoze r) rels"

definition needs_of :: "int \<Rightarrow> string \<Rightarrow> string list \<Rightarrow> release gomap \<Rightarrow> string list" where
  "needs_of h hostDoze majors rels = map (rel_doze \<circ> snd) (filter (too_new h hostDoze majors) rels)"

lemma mput_append: "k \<notin> fst ` set m \<Longrightarrow> mput k v m = m @ [(k, v)]"
  by (induction m) auto

lemma fits_fold_fst:
  assumes "gomap_ok rels"
  shows "fst (foldl (fits_step h d majors) ([], need) rels) = fits_of d rels"
  using assms
proof (induction rels rule: rev_induct)
  case (snoc vr rels)
  obtain v r where vr: "vr = (v, r)" by (cases vr)
  have "v \<notin> fst ` set (fits_of d rels)"
    using snoc.prems vr by (auto simp: gomap_ok_def fits_of_def)
  moreover have "gomap_ok rels" using snoc.prems by (simp add: gomap_ok_def)
  ultimately show ?case
    using snoc.IH vr
    by (cases "foldl (fits_step h d majors) ([], need) rels")
       (auto simp: fits_of_def runs_on_def mput_append)
qed (simp add: fits_of_def)

text \<open>The remembered doze is the oldest of those that were needed.\<close>

lemma fits_fold_need:
  assumes "list_all (\<lambda>d. numeric_version d) (needs_of h d majors rels)"
  shows "(let need = snd (foldl (fits_step h d majors) ([], []) rels) in
     if needs_of h d majors rels = [] then need = []
     else need \<in> set (needs_of h d majors rels) \<and> need \<noteq> [] \<and> (\<forall>n\<in>set (needs_of h d majors rels). \<not> newer need n))"
  using assms
proof (induction rels rule: rev_induct)
  case (snoc vr rels)
  obtain v r where vr: "vr = (v, r)" by (cases vr)
  obtain fits need where f: "foldl (fits_step h d majors) ([], []) rels = (fits, need)"
    by (cases "foldl (fits_step h d majors) ([], []) rels")
  have prems: "list_all numeric_version (needs_of h d majors rels)"
    using snoc.prems by (simp add: needs_of_def)
  note ih = snoc.IH[OF prems]
  show ?case
  proof (cases "too_new h d majors vr")
    case False
    then show ?thesis
      using ih f vr by (auto simp: needs_of_def too_new_def runs_on_def Let_def)
  next
    case True
    then have r: "rel_doze r \<noteq> []" "compare_versions (rel_doze r) d > 0" "rel_protocol r = h" "supports r majors"
      using vr by (auto simp: too_new_def runs_on_def)
    have nr: "numeric_version (rel_doze r)"
      using snoc.prems True vr by (simp add: needs_of_def)
    have step: "snd (foldl (fits_step h d majors) ([], []) (rels @ [vr])) =
        (if need = [] \<or> compare_versions (rel_doze r) need < 0 then rel_doze r else need)"
      using f vr r by simp
    have needs: "set (needs_of h d majors (rels @ [vr])) = insert (rel_doze r) (set (needs_of h d majors rels))"
      "needs_of h d majors (rels @ [vr]) \<noteq> []"
      using True vr by (auto simp: needs_of_def)
    show ?thesis
    proof (cases "needs_of h d majors rels = []")
      case True
      then show ?thesis using ih f step needs r by (simp add: Let_def newer_irrefl)
    next
      case False
      then have n: "need \<in> set (needs_of h d majors rels)" "need \<noteq> []"
        "\<forall>n\<in>set (needs_of h d majors rels). \<not> newer need n"
        using ih f by (simp_all add: Let_def)
      have num: "\<forall>n\<in>set (needs_of h d majors rels). numeric_version n"
        using prems by (simp add: list_all_iff)
      then have nn: "numeric_version need" using n by blast
      show ?thesis
        using step needs r n num nr nn
        by (auto simp: Let_def newer_def compare_versions_gt_key)
    qed
  qed
qed (simp add: needs_of_def)

lemma select_for_eq:
  assumes "gomap_ok (idx_releases idx)" "is_doze_version d0"
  shows "select_for idx h d0 majors ch =
    (let d = trim_prefix d0 ''v'';
         need = snd (foldl (fits_step h d majors) ([], []) (idx_releases idx)) in
     case select (idx\<lparr>idx_releases := fits_of d (idx_releases idx), idx_signature := []\<rparr>) h majors ch of
       Inl err \<Rightarrow> if need \<noteq> [] then Inl (DozeError (idx_module idx) majors need d) else Inl err
     | Inr vr \<Rightarrow> Inr vr)"
  using assms fits_fold_fst[OF assms(1), of h "trim_prefix d0 ''v''" majors "[]"]
  by (cases "foldl (fits_step h (trim_prefix d0 ''v'') majors) ([], []) (idx_releases idx)")
     (simp add: select_for_def Let_def split: sum.split)

lemma fits_of_ok: "gomap_ok rels \<Longrightarrow> gomap_ok (fits_of d rels)"
  by (simp add: fits_of_def gomap_ok_def distinct_map_filter)

lemma map_of_fits:
  assumes "gomap_ok rels"
  shows "map_of (fits_of d rels) v = Some r \<longleftrightarrow> map_of rels v = Some r \<and> runs_on d r"
  using gomap_in_set_iff[OF assms] gomap_in_set_iff[OF fits_of_ok[OF assms]]
  by (metis (no_types, lifting) case_prodD case_prodI fits_of_def mem_Collect_eq set_filter)

lemma compatible_fits:
  assumes "gomap_ok rels"
  shows "compatible (fits_of d rels) h majors v \<longleftrightarrow>
    (\<exists>r. map_of rels v = Some r \<and> runs_on d r \<and> rel_protocol r = h \<and> supports r majors)"
proof -
  have "compatible (fits_of d rels) h majors v \<longleftrightarrow>
    (\<exists>r. map_of (fits_of d rels) v = Some r \<and> rel_protocol r = h \<and> supports r majors)"
    by (auto simp: compatible_def split: option.splits)
  then show ?thesis by (auto simp: map_of_fits[OF assms])
qed

lemma select_for_Inr:
  assumes "gomap_ok (idx_releases idx)" "is_doze_version d0" "select_for idx h d0 majors ch = Inr (v, r)"
  shows "map_of (idx_releases idx) v = Some r \<and> runs_on (trim_prefix d0 ''v'') r \<and>
    rel_protocol r = h \<and> supports r majors"
proof -
  let ?d = "trim_prefix d0 ''v''"
  let ?i = "idx\<lparr>idx_releases := fits_of ?d (idx_releases idx), idx_signature := []\<rparr>"
  have sel: "select ?i h majors ch = Inr (v, r)"
    using assms(3) by (auto simp: select_for_eq[OF assms(1,2)] Let_def split: sum.splits if_splits)
  have ok: "gomap_ok (idx_releases ?i)" using fits_of_ok[OF assms(1)] by simp
  have "compatible (fits_of ?d (idx_releases idx)) h majors v \<and> r = rel_at (fits_of ?d (idx_releases idx)) v"
    using select_Inr_compatible[OF ok sel] by simp
  then have "map_of (fits_of ?d (idx_releases idx)) v = Some r \<and> rel_protocol r = h \<and> supports r majors"
    using compatible_rel_at by blast
  then show ?thesis by (simp add: map_of_fits[OF assms(1)])
qed

lemma select_for_Inl:
  assumes "gomap_ok (idx_releases idx)" "is_doze_version d0"
  shows "(\<exists>e. select_for idx h d0 majors ch = Inl e) \<longleftrightarrow>
    (\<nexists>v. compatible (fits_of (trim_prefix d0 ''v'') (idx_releases idx)) h majors v)"
proof -
  let ?d = "trim_prefix d0 ''v''"
  let ?i = "idx\<lparr>idx_releases := fits_of ?d (idx_releases idx), idx_signature := []\<rparr>"
  have "gomap_ok (idx_releases ?i)" using fits_of_ok[OF assms(1)] by simp
  from select_Inl_iff[OF this, of h majors ch] show ?thesis
    by (auto simp: select_for_eq[OF assms] Let_def split: sum.splits if_splits)
qed

lemma select_not_DozeError: "select idx h majors ch \<noteq> Inl (DozeError m ms need have)"
  by (simp add: select_eq Let_def)

lemma select_for_DozeError:
  assumes "gomap_ok (idx_releases idx)" "is_doze_version d0"
    "select_for idx h d0 majors ch = Inl (DozeError m ms need have)"
  shows "need \<noteq> [] \<and> need = snd (foldl (fits_step h (trim_prefix d0 ''v'') majors) ([], []) (idx_releases idx))
    \<and> have = trim_prefix d0 ''v'' \<and> m = idx_module idx \<and> ms = majors"
  using assms(3) by (auto simp: select_for_eq[OF assms(1,2)] Let_def select_not_DozeError split: sum.splits if_splits)

definition doze_numeric :: "release gomap \<Rightarrow> bool" where
  "doze_numeric rels = list_all (\<lambda>(v, r). rel_doze r = [] \<or> numeric_version (rel_doze r)) rels"

lemma needs_numeric:
  "doze_numeric rels \<Longrightarrow> list_all numeric_version (needs_of h d majors rels)"
  by (auto simp: doze_numeric_def needs_of_def list_all_iff too_new_def runs_on_def)

lemma set_needs_of:
  assumes "gomap_ok rels"
  shows "n \<in> set (needs_of h d majors rels) \<longleftrightarrow>
    (\<exists>v r. map_of rels v = Some r \<and> rel_doze r = n \<and> \<not> runs_on d r \<and> rel_protocol r = h \<and> supports r majors)"
  using gomap_in_set_iff[OF assms] by (force simp: needs_of_def too_new_def)

lemma numeric_no_v:
  assumes "numeric_version n"
  shows "trim_prefix n ''v'' = n"
proof (cases n)
  case (Cons c cs)
  have "c \<noteq> CHR ''v''"
  proof
    assume "c = CHR ''v''"
    moreover from this have "\<exists>p ps. segments n = (CHR ''v'' # p) # ps"
      using Cons by (auto simp: segments_def split: list.splits)
    ultimately obtain p ps where p: "segments n = (CHR ''v'' # p) # ps" by blast
    moreover have "atoi (CHR ''v'' # p) = None"
      by (simp add: atoi_def atoi_sign_def is_digit_def)
    ultimately show False using assms by (simp add: numeric_version_def)
  qed
  then show ?thesis using Cons by (simp add: trim_prefix_def has_prefix_def)
qed (simp add: trim_prefix_def has_prefix_def)

lemma doze_error_need:
  assumes "gomap_ok (idx_releases idx)" "is_doze_version d0" "doze_numeric (idx_releases idx)"
    and "select_for idx h d0 majors ch = Inl (DozeError m ms need have)"
  shows "need \<in> set (needs_of h (trim_prefix d0 ''v'') majors (idx_releases idx))" (is "_ \<in> ?N")
    and "n \<in> set (needs_of h (trim_prefix d0 ''v'') majors (idx_releases idx)) \<Longrightarrow> \<not> newer need n"
proof -
  let ?ns = "needs_of h (trim_prefix d0 ''v'') majors (idx_releases idx)"
  define nd where "nd = snd (foldl (fits_step h (trim_prefix d0 ''v'') majors) ([], []) (idx_releases idx))"
  have nd: "need = nd" "nd \<noteq> []"
    using select_for_DozeError[OF assms(1,2,4)] unfolding nd_def by blast+
  have "if ?ns = [] then nd = []
     else nd \<in> set ?ns \<and> nd \<noteq> [] \<and> (\<forall>n\<in>set ?ns. \<not> newer nd n)"
    using fits_fold_need[OF needs_numeric[OF assms(3)], of h "trim_prefix d0 ''v''" majors]
    unfolding nd_def Let_def .
  then have "nd \<in> set ?ns \<and> (\<forall>n\<in>set ?ns. \<not> newer nd n)" using nd(2) by (simp split: if_splits)
  then show "need \<in> ?N" "n \<in> ?N \<Longrightarrow> \<not> newer need n" using nd(1) by blast+
qed

section \<open>Properties of SelectFor\<close>

text \<open>C16. A host that says a released version gets a release exactly when the index has one that
  speaks its protocol, covers the majors and does not need a newer doze; and that is what it
  gets.\<close>

theorem select_for_runs_on_host:
  assumes "gomap_ok (idx_releases idx)" "is_doze_version d0"
  shows "case select_for idx h d0 majors ch of
      Inr (v, r) \<Rightarrow> map_of (idx_releases idx) v = Some r \<and> runs_on (trim_prefix d0 ''v'') r \<and>
        rel_protocol r = h \<and> supports r majors
    | Inl _ \<Rightarrow> (\<nexists>v r. map_of (idx_releases idx) v = Some r \<and> runs_on (trim_prefix d0 ''v'') r \<and>
        rel_protocol r = h \<and> supports r majors)"
proof (cases "select_for idx h d0 majors ch")
  case (Inl e)
  then show ?thesis
    using select_for_Inl[OF assms, of h majors ch] by (auto simp: compatible_fits[OF assms(1)])
next
  case (Inr vr)
  then show ?thesis
    using select_for_Inr[OF assms, of h majors ch "fst vr" "snd vr"] by (auto simp: case_prod_unfold)
qed

theorem select_for_runs_on_host_witness:
  "select_for example_select_index 1 ''v0.2.1'' [''16''] [] = Inr (''0.9.0'', rel_at example_releases ''0.9.0'') \<and>
   runs_on ''0.2.1'' (rel_at example_releases ''0.9.0'')"
proof -
  have ok: "gomap_ok (idx_releases example_select_index)" "is_doze_version ''v0.2.1''" by code_simp+
  have sel: "select_for example_select_index 1 ''v0.2.1'' [''16''] [] = Inr (''0.9.0'', rel_at example_releases ''0.9.0'')"
    by code_simp
  have "trim_prefix ''v0.2.1'' ''v'' = ''0.2.1''" by code_simp
  then show ?thesis using select_for_runs_on_host[OF ok, of 1 "[''16'']" "[]"] sel by simp
qed

text \<open>A \<open>DozeError\<close> is returned only when nothing fits this doze but something would fit a
  newer one, and the version it names is the oldest that lets a fitting release run.\<close>

theorem doze_error_names_oldest:
  assumes "gomap_ok (idx_releases idx)" "is_doze_version d0" "doze_numeric (idx_releases idx)"
    and "select_for idx h d0 majors ch = Inl (DozeError m ms need have)"
  shows "have = trim_prefix d0 ''v'' \<and>
    (\<nexists>v. compatible (fits_of have (idx_releases idx)) h majors v) \<and>
    (\<exists>v r. map_of (idx_releases idx) v = Some r \<and> rel_doze r = need \<and> rel_protocol r = h \<and> supports r majors) \<and>
    (\<forall>v r. map_of (idx_releases idx) v = Some r \<longrightarrow> \<not> runs_on have r \<longrightarrow> rel_protocol r = h \<longrightarrow>
       supports r majors \<longrightarrow> \<not> newer need (rel_doze r))"
proof -
  let ?d = "trim_prefix d0 ''v''"
  note err = select_for_DozeError[OF assms(1,2,4)]
  have none: "\<nexists>v. compatible (fits_of ?d (idx_releases idx)) h majors v"
    using select_for_Inl[OF assms(1,2), of h majors ch] assms(4) by blast
  have have_eq: "have = ?d" using err by blast
  have "\<exists>v r. map_of (idx_releases idx) v = Some r \<and> rel_doze r = need \<and> rel_protocol r = h \<and> supports r majors"
    using doze_error_need(1)[OF assms] unfolding set_needs_of[OF assms(1)] by blast
  moreover have "\<not> newer need (rel_doze r)" if "map_of (idx_releases idx) v = Some r" "\<not> runs_on ?d r"
      "rel_protocol r = h" "supports r majors" for v r
    by (rule doze_error_need(2)[OF assms]) (use that in \<open>auto simp: set_needs_of[OF assms(1)]\<close>)
  ultimately show ?thesis using none unfolding have_eq by blast
qed


lemma doze_error_example: "select_for example_select_index 2 ''0.2.1'' [''17''] [] =
  Inl (DozeError ''httpd'' [''17''] ''0.4.0'' ''0.2.1'')"
  by code_simp

lemma example_select_ok: "gomap_ok (idx_releases example_select_index)"
  "doze_numeric (idx_releases example_select_index)" "is_doze_version ''0.2.1''" "is_doze_version ''0.4.0''"
  by code_simp+

theorem doze_error_names_oldest_witness:
  "\<exists>v r. map_of (idx_releases example_select_index) v = Some r \<and> rel_doze r = ''0.4.0'' \<and>
     rel_protocol r = 2 \<and> supports r [''17'']"
  using doze_error_names_oldest[OF example_select_ok(1,3,2) doze_error_example] by blast


end
