(* ===== verification/Network.thy ===== *)
theory Network
  imports Prelude
begin

text \<open>
  What an instance serves and what the host granted: \<open>engine/network.go\<close>. A network is a list of
  listeners; \<open>ValidateNetwork\<close> collects every problem of it in one pass. The abstract
  specification is \<open>network_ok\<close>, the conditions written declaratively; the pass reports nothing
  exactly on the networks that satisfy them. A route names a host of the instance's own name
  space and nothing outside it.
\<close>

section \<open>Types\<close>

record listener =
  ls_name :: string
  ls_port :: int
  ls_protocol :: string
  ls_routes :: "string list"

record network =
  net_listeners :: "listener list"

definition main_listener :: string where
  "main_listener = ''main''"

definition protocol_tcp :: string where
  "protocol_tcp = ''tcp''"

definition protocol_http :: string where
  "protocol_http = ''http''"

record granted_listener =
  gl_addr :: string
  gl_url :: string
  gl_hosts :: "string list"
  gl_backend :: string

record grant =
  gr_host :: string
  gr_listeners :: "granted_listener gomap"

definition zero_granted_listener :: granted_listener where
  "zero_granted_listener = \<lparr>gl_addr = [], gl_url = [], gl_hosts = [], gl_backend = []\<rparr>"

definition zero_grant :: grant where
  "zero_grant = \<lparr>gr_host = [], gr_listeners = []\<rparr>"

definition zero_listener :: listener where
  "zero_listener = \<lparr>ls_name = [], ls_port = 0, ls_protocol = [], ls_routes = []\<rparr>"

definition default_network :: network where
  "default_network = \<lparr>net_listeners =
     [\<lparr>ls_name = main_listener, ls_port = 0, ls_protocol = protocol_tcp, ls_routes = []\<rparr>]\<rparr>"

text \<open>\<open>Network.Listener\<close>: the first listener of a name.\<close>

fun find_listener :: "listener list \<Rightarrow> string \<Rightarrow> listener \<times> bool" where
  "find_listener [] name = (zero_listener, False)"
| "find_listener (l # ls) name = (if ls_name l = name then (l, True) else find_listener ls name)"

definition network_listener :: "network \<Rightarrow> string \<Rightarrow> listener \<times> bool" where
  "network_listener n name = find_listener (net_listeners n) name"

section \<open>Routes\<close>

definition route_self :: string where
  "route_self = ''@''"

datatype route_kind = RouteSelf | RouteChild | RouteSibling

datatype route_problem = BadPrefix string | AtInside string | NotALabel string

text \<open>The code ranges over runes; a byte outside ASCII is never part of an accepted label, alone
  or in a sequence.\<close>

definition label_char :: "char \<Rightarrow> bool" where
  "label_char r = (CHR ''a'' \<le> r \<and> r \<le> CHR ''z'' \<or> CHR ''0'' \<le> r \<and> r \<le> CHR ''9'' \<or> r = CHR ''-'')"

definition label_chars :: "string \<Rightarrow> bool" where
  "label_chars s = (list_all label_char s \<and> s \<noteq> [])"

definition is_label :: "string \<Rightarrow> bool" where
  "is_label s = (label_chars s \<and> length s \<le> 63 \<and> s ! 0 \<noteq> CHR ''-'' \<and> s ! (length s - 1) \<noteq> CHR ''-'')"

definition parse_route :: "string \<Rightarrow> route_problem + (route_kind \<times> string)" where
  "parse_route route =
     (if route = route_self then Inr (RouteSelf, [])
      else if has_suffix route ''@'' then
        (let prefix = trim_suffix route ''@'' in
         if prefix = [] \<or> \<not> label_chars prefix then Inl (BadPrefix route)
         else Inr (RouteSibling, prefix))
      else if contains_sub route ''@'' then Inl (AtInside route)
      else if \<not> is_label route then Inl (NotALabel route)
      else Inr (RouteChild, route))"

definition route_host :: "string \<Rightarrow> string \<Rightarrow> route_problem + string" where
  "route_host route host = (case parse_route route of
     Inl e \<Rightarrow> Inl e
   | Inr (kind, part) \<Rightarrow>
       (case kind of
          RouteChild \<Rightarrow> Inr (part @ ''.'' @ host)
        | RouteSibling \<Rightarrow> Inr (part @ host)
        | RouteSelf \<Rightarrow> Inr host))"

section \<open>ValidateNetwork\<close>

datatype network_problem =
    BadListenerName string
  | TwoNamed string
  | BadPort string int
  | PortShared string string int
  | TcpWithRoutes string
  | BadProtocol string string
  | BadRoute string route_problem
  | RouteTwice string
  | NoMain

record check_state =
  ck_errs :: "network_problem list"
  ck_names :: "string list"
  ck_ports :: "(int \<times> string) list"
  ck_routes :: "string list"

definition add_err :: "network_problem \<Rightarrow> check_state \<Rightarrow> check_state" where
  "add_err e st = st\<lparr>ck_errs := ck_errs st @ [e]\<rparr>"

definition check_name :: "listener \<Rightarrow> check_state \<Rightarrow> check_state" where
  "check_name l st0 =
     (let st = (if \<not> is_label (ls_name l) then add_err (BadListenerName (ls_name l)) st0 else st0);
          st = (if ls_name l \<in> set (ck_names st) then add_err (TwoNamed (ls_name l)) st else st)
      in st\<lparr>ck_names := ls_name l # ck_names st\<rparr>)"

definition check_port :: "listener \<Rightarrow> check_state \<Rightarrow> check_state" where
  "check_port l st =
     (if ls_name l = main_listener \<and> ls_port l = 0 then st
      else if ls_port l < 1 \<or> ls_port l > 65535 then add_err (BadPort (ls_name l) (ls_port l)) st
      else (case map_of (ck_ports st) (ls_port l) of
          Some other \<Rightarrow> add_err (PortShared other (ls_name l) (ls_port l)) st
        | None \<Rightarrow> st\<lparr>ck_ports := mput (ls_port l) (ls_name l) (ck_ports st)\<rparr>))"

definition check_protocol :: "listener \<Rightarrow> check_state \<Rightarrow> check_state" where
  "check_protocol l st =
     (if ls_protocol l = protocol_tcp then
        (if ls_routes l \<noteq> [] then add_err (TcpWithRoutes (ls_name l)) st else st)
      else if ls_protocol l = protocol_http then st
      else add_err (BadProtocol (ls_name l) (ls_protocol l)) st)"

definition check_route :: "listener \<Rightarrow> check_state \<Rightarrow> string \<Rightarrow> check_state" where
  "check_route l st r = (case parse_route r of
     Inl e \<Rightarrow> add_err (BadRoute (ls_name l) e) st
   | Inr _ \<Rightarrow>
       (let st' = (if r \<in> set (ck_routes st) then add_err (RouteTwice r) st else st)
        in st'\<lparr>ck_routes := r # ck_routes st'\<rparr>))"

definition check_listener :: "check_state \<Rightarrow> listener \<Rightarrow> check_state" where
  "check_listener st l =
     foldl (check_route l) (check_protocol l (check_port l (check_name l st))) (ls_routes l)"

definition validate_network :: "network \<Rightarrow> network_problem list" where
  "validate_network n =
     (let st = foldl check_listener \<lparr>ck_errs = [], ck_names = [], ck_ports = [], ck_routes = []\<rparr> (net_listeners n)
      in if main_listener \<notin> set (ck_names st) then ck_errs st @ [NoMain] else ck_errs st)"

section \<open>Grant\<close>

definition grant_named :: "grant \<Rightarrow> bool" where
  "grant_named g = (gr_host g \<noteq> [])"

definition grant_backend :: "grant \<Rightarrow> string \<Rightarrow> string \<times> bool" where
  "grant_backend g name = (case map_of (gr_listeners g) name of
     None \<Rightarrow> ([], False)
   | Some l \<Rightarrow> if gl_backend l = [] then ([], False) else (gl_backend l, True))"

definition grant_addr :: "grant \<Rightarrow> string \<Rightarrow> string \<times> bool" where
  "grant_addr g name = (case map_of (gr_listeners g) name of
     None \<Rightarrow> ([], False)
   | Some l \<Rightarrow> if gl_addr l = [] then ([], False) else (gl_addr l, True))"

section \<open>What a network has to satisfy\<close>

definition valid_route :: "string \<Rightarrow> bool" where
  "valid_route r = (r = ''@'' \<or> (\<exists>p. r = p @ ''@'' \<and> label_chars p) \<or> is_label r)"

definition needs_port :: "listener \<Rightarrow> bool" where
  "needs_port l = (\<not> (ls_name l = main_listener \<and> ls_port l = 0))"

definition listener_ok :: "listener \<Rightarrow> bool" where
  "listener_ok l = (is_label (ls_name l) \<and>
     (needs_port l \<longrightarrow> 1 \<le> ls_port l \<and> ls_port l \<le> 65535) \<and>
     (ls_protocol l = protocol_tcp \<and> ls_routes l = [] \<or> ls_protocol l = protocol_http) \<and>
     list_all valid_route (ls_routes l))"

definition network_ok :: "network \<Rightarrow> bool" where
  "network_ok n = (list_all listener_ok (net_listeners n) \<and>
     distinct (map ls_name (net_listeners n)) \<and>
     distinct (map ls_port (filter needs_port (net_listeners n))) \<and>
     distinct (concat (map ls_routes (net_listeners n))) \<and>
     main_listener \<in> ls_name ` set (net_listeners n))"


section \<open>Routes: lemmas\<close>

lemma at_not_label_char: "\<not> label_char CHR ''@''"
  by (simp add: label_char_def less_eq_char_def)

lemma dot_not_label_char: "\<not> label_char CHR ''.''"
  by (simp add: label_char_def less_eq_char_def)

lemma has_suffix_char: "has_suffix s [c] \<longleftrightarrow> (\<exists>p. s = p @ [c])"
proof
  assume "has_suffix s [c]"
  then have "take 1 (rev s) = [c]" by (simp add: has_suffix_def has_prefix_def)
  then show "\<exists>p. s = p @ [c]" by (cases s rule: rev_cases) auto
qed (auto simp: has_suffix_def has_prefix_def)

lemma trim_suffix_char: "trim_suffix (p @ [c]) [c] = p"
  by (simp add: trim_suffix_def has_suffix_def has_prefix_def)

lemma contains_char: "contains_sub s [c] \<longleftrightarrow> c \<in> set s"
  by (induction s) (auto simp: has_prefix_def)

lemma label_no_at: "is_label r \<Longrightarrow> CHR ''@'' \<notin> set r"
  using at_not_label_char by (auto simp: is_label_def label_chars_def list_all_iff)

lemma parse_route_self [simp]: "parse_route ''@'' = Inr (RouteSelf, [])"
  by (simp add: parse_route_def route_self_def)

lemma parse_route_sibling:
  assumes "p \<noteq> []"
  shows "parse_route (p @ ''@'') =
    (if label_chars p then Inr (RouteSibling, p) else Inl (BadPrefix (p @ ''@'')))"
  using assms by (simp add: parse_route_def route_self_def has_suffix_char trim_suffix_char Let_def)

lemma parse_route_no_at:
  assumes "CHR ''@'' \<notin> set r"
  shows "parse_route r = (if is_label r then Inr (RouteChild, r) else Inl (NotALabel r))"
  using assms by (auto simp: parse_route_def route_self_def has_suffix_char contains_char)

lemma parse_route_inside:
  assumes "CHR ''@'' \<in> set r" "\<nexists>p. r = p @ ''@''"
  shows "parse_route r = Inl (AtInside r)"
  using assms by (auto simp: parse_route_def route_self_def has_suffix_char contains_char)

lemma parse_route_Inr:
  "parse_route r = Inr x \<longleftrightarrow>
     r = ''@'' \<and> x = (RouteSelf, []) \<or>
     (\<exists>p. r = p @ ''@'' \<and> label_chars p \<and> x = (RouteSibling, p)) \<or>
     is_label r \<and> x = (RouteChild, r)"
proof -
  consider (self) "r = ''@''" | (sib) p where "r = p @ ''@''" "p \<noteq> []"
    | (inside) "CHR ''@'' \<in> set r" "\<nexists>p. r = p @ ''@''" | (plain) "CHR ''@'' \<notin> set r"
    by (metis append_Nil)
  then show ?thesis
  proof cases
    case self
    then show ?thesis using label_no_at[of r] by (auto simp: label_chars_def)
  next
    case sib
    then show ?thesis using label_no_at[of r] by (auto simp: parse_route_sibling)
  next
    case inside
    then show ?thesis using label_no_at[of r] by (auto simp: parse_route_inside)
  next
    case plain
    then show ?thesis by (auto simp: parse_route_no_at)
  qed
qed

lemma parse_route_valid: "(\<exists>x. parse_route r = Inr x) \<longleftrightarrow> valid_route r"
  unfolding parse_route_Inr valid_route_def by blast

lemma parse_route_error: "(\<exists>e. parse_route r = Inl e) \<longleftrightarrow> \<not> valid_route r"
  using parse_route_valid[of r] by (metis sum.exhaust Inl_Inr_False)

text \<open>What a route stands for in front of the host's name.\<close>

definition route_prefix :: "string \<Rightarrow> string" where
  "route_prefix r = (if r = ''@'' then [] else if has_suffix r ''@'' then trim_suffix r ''@'' else r @ ''.'')"

lemma route_host_prefix:
  assumes "valid_route r"
  shows "route_host r host = Inr (route_prefix r @ host)"
proof -
  obtain x where x: "parse_route r = Inr x" using assms parse_route_valid by blast
  then show ?thesis
    using label_no_at[of r] x[unfolded parse_route_Inr]
    by (auto simp: x route_host_def route_prefix_def has_suffix_char trim_suffix_char label_chars_def)
qed

lemma route_prefix_inj:
  assumes "valid_route r" "valid_route r'" "route_prefix r = route_prefix r'"
  shows "r = r'"
proof -
  have dot: "CHR ''.'' \<notin> set p" if "label_chars p" for p
    using that dot_not_label_char by (auto simp: label_chars_def list_all_iff)
  have shape: "route_prefix q = [] \<and> q = ''@'' \<or> label_chars (route_prefix q) \<and> q = route_prefix q @ ''@'' \<or>
      (\<exists>l. route_prefix q = l @ ''.'' \<and> q = l)" if "valid_route q" for q
    using that label_no_at[of q]
    by (auto simp: valid_route_def route_prefix_def has_suffix_char trim_suffix_char label_chars_def)
  show ?thesis
    using shape[OF assms(1)] shape[OF assms(2)] assms(3) dot dot_not_label_char by (auto simp: label_chars_def)
qed

section \<open>The checking pass: lemmas\<close>

lemma add_err_simps [simp]:
  "ck_errs (add_err e st) = ck_errs st @ [e]" "ck_names (add_err e st) = ck_names st"
  "ck_ports (add_err e st) = ck_ports st" "ck_routes (add_err e st) = ck_routes st"
  by (simp_all add: add_err_def)

lemma check_name_spec:
  "ck_errs (check_name l st) = [] \<longleftrightarrow> ck_errs st = [] \<and> is_label (ls_name l) \<and> ls_name l \<notin> set (ck_names st)"
  "ck_names (check_name l st) = ls_name l # ck_names st"
  "ck_ports (check_name l st) = ck_ports st" "ck_routes (check_name l st) = ck_routes st"
  by (auto simp: check_name_def Let_def)

lemma check_port_spec:
  "ck_errs (check_port l st) = [] \<longleftrightarrow> ck_errs st = [] \<and>
     (needs_port l \<longrightarrow> 1 \<le> ls_port l \<and> ls_port l \<le> 65535 \<and> ls_port l \<notin> fst ` set (ck_ports st))"
  "ck_names (check_port l st) = ck_names st" "ck_routes (check_port l st) = ck_routes st"
  "ck_errs (check_port l st) = [] \<Longrightarrow>
     fst ` set (ck_ports (check_port l st)) = (if needs_port l then {ls_port l} else {}) \<union> fst ` set (ck_ports st)"
  by (auto simp: check_port_def needs_port_def dom_update simp flip: map_of_eq_None_iff dom_map_of_conv_image_fst
      split: option.splits if_splits)

lemma check_protocol_spec:
  "ck_errs (check_protocol l st) = [] \<longleftrightarrow> ck_errs st = [] \<and>
     (ls_protocol l = protocol_tcp \<and> ls_routes l = [] \<or> ls_protocol l = protocol_http)"
  "ck_names (check_protocol l st) = ck_names st" "ck_ports (check_protocol l st) = ck_ports st"
  "ck_routes (check_protocol l st) = ck_routes st"
  by (auto simp: check_protocol_def protocol_tcp_def protocol_http_def)

lemma check_route_spec:
  "ck_errs (check_route l st r) = [] \<longleftrightarrow> ck_errs st = [] \<and> valid_route r \<and> r \<notin> set (ck_routes st)"
  "ck_names (check_route l st r) = ck_names st" "ck_ports (check_route l st r) = ck_ports st"
  "valid_route r \<Longrightarrow> ck_routes (check_route l st r) = r # ck_routes st"
  using parse_route_valid[of r] parse_route_error[of r]
  by (auto simp: check_route_def Let_def split: sum.splits)

lemma check_routes_spec:
  "(ck_errs (foldl (check_route l) st rs) = [] \<longleftrightarrow> ck_errs st = [] \<and> list_all valid_route rs \<and>
      distinct rs \<and> set rs \<inter> set (ck_routes st) = {}) \<and>
   ck_names (foldl (check_route l) st rs) = ck_names st \<and>
   ck_ports (foldl (check_route l) st rs) = ck_ports st \<and>
   (list_all valid_route rs \<longrightarrow> set (ck_routes (foldl (check_route l) st rs)) = set rs \<union> set (ck_routes st))"
proof (induction rs arbitrary: st)
  case (Cons r rs)
  show ?case
    using Cons.IH[of "check_route l st r"] check_route_spec[where l = l and st = st and r = r]
    by auto
qed simp

text \<open>One listener: nothing is reported exactly when it is fine by itself and clashes with nothing
  seen before; then what it uses has been added.\<close>

definition fits_in :: "check_state \<Rightarrow> listener \<Rightarrow> bool" where
  "fits_in st l = (listener_ok l \<and> ls_name l \<notin> set (ck_names st) \<and>
     (needs_port l \<longrightarrow> ls_port l \<notin> fst ` set (ck_ports st)) \<and>
     distinct (ls_routes l) \<and> set (ls_routes l) \<inter> set (ck_routes st) = {})"

lemma check_listener_ok:
  "ck_errs (check_listener st l) = [] \<longleftrightarrow> ck_errs st = [] \<and> fits_in st l"
  by (auto simp: check_listener_def check_routes_spec check_protocol_spec check_port_spec check_name_spec
      fits_in_def listener_ok_def)

lemma check_listener_names: "ck_names (check_listener st l) = ls_name l # ck_names st"
  by (simp add: check_listener_def check_routes_spec check_protocol_spec check_port_spec check_name_spec)

lemma check_listener_ports:
  assumes "ck_errs (check_listener st l) = []"
  shows "fst ` set (ck_ports (check_listener st l)) = (if needs_port l then {ls_port l} else {}) \<union> fst ` set (ck_ports st)"
proof -
  have "ck_errs (check_port l (check_name l st)) = []"
    using assms by (simp add: check_listener_def check_routes_spec check_protocol_spec)
  then show ?thesis
    by (simp add: check_listener_def check_routes_spec check_protocol_spec check_port_spec(4) check_name_spec)
qed

lemma check_listener_routes:
  assumes "ck_errs (check_listener st l) = []"
  shows "set (ck_routes (check_listener st l)) = set (ls_routes l) \<union> set (ck_routes st)"
proof -
  have "list_all valid_route (ls_routes l)"
    using assms by (simp add: check_listener_def check_routes_spec)
  then show ?thesis
    by (simp add: check_listener_def check_routes_spec check_protocol_spec check_port_spec check_name_spec)
qed

lemma check_fold_names:
  "set (ck_names (foldl check_listener st ls)) = ls_name ` set ls \<union> set (ck_names st)"
  by (induction ls arbitrary: st) (auto simp: check_listener_names)

lemma check_fold_errs: "ck_errs (foldl check_listener st ls) = [] \<Longrightarrow> ck_errs st = []"
proof (induction ls arbitrary: st)
  case (Cons l ls)
  have "ck_errs (check_listener st l) = []"
    by (rule Cons.IH) (use Cons.prems in simp)
  then show ?case by (simp add: check_listener_ok)
qed simp

text \<open>A list adds nothing twice and nothing already there.\<close>

definition fresh :: "'a set \<Rightarrow> 'a list \<Rightarrow> bool" where
  "fresh N xs = (distinct xs \<and> set xs \<inter> N = {})"

lemma fresh_append: "fresh N (xs @ ys) \<longleftrightarrow> fresh N xs \<and> fresh (set xs \<union> N) ys"
  by (auto simp: fresh_def)

lemma fresh_Nil [simp]: "fresh N []"
  by (simp add: fresh_def)

lemma fresh_Cons: "fresh N (x # xs) \<longleftrightarrow> x \<notin> N \<and> fresh (insert x N) xs"
  by (auto simp: fresh_def)

lemma fresh_empty [simp]: "fresh {} xs = distinct xs"
  by (simp add: fresh_def)

definition all_fit :: "check_state \<Rightarrow> listener list \<Rightarrow> bool" where
  "all_fit st ls = (list_all listener_ok ls \<and>
     fresh (set (ck_names st)) (map ls_name ls) \<and>
     fresh (fst ` set (ck_ports st)) (map ls_port (filter needs_port ls)) \<and>
     fresh (set (ck_routes st)) (concat (map ls_routes ls)))"

lemma fits_in_fresh:
  "fits_in st l \<longleftrightarrow> listener_ok l \<and> ls_name l \<notin> set (ck_names st) \<and>
     (needs_port l \<longrightarrow> ls_port l \<notin> fst ` set (ck_ports st)) \<and> fresh (set (ck_routes st)) (ls_routes l)"
  by (auto simp: fits_in_def fresh_def)

lemma all_fit_Cons:
  assumes "ck_errs (check_listener st l) = []"
  shows "all_fit st (l # ls) \<longleftrightarrow> all_fit (check_listener st l) ls"
proof -
  have f: "fits_in st l" using assms by (simp add: check_listener_ok)
  show ?thesis
    using f unfolding all_fit_def fits_in_fresh check_listener_names check_listener_ports[OF assms]
      check_listener_routes[OF assms]
    by (simp add: fresh_Cons fresh_append)
qed

lemma check_fold_ok:
  "ck_errs (foldl check_listener st ls) = [] \<longleftrightarrow> ck_errs st = [] \<and> all_fit st ls"
proof (induction ls arbitrary: st)
  case Nil
  then show ?case by (simp add: all_fit_def)
next
  case (Cons l ls)
  show ?case
  proof (cases "ck_errs (check_listener st l) = []")
    case True
    then show ?thesis
      using Cons.IH[of "check_listener st l"] all_fit_Cons[OF True] by (simp add: check_listener_ok)
  next
    case False
    then have "\<not> (ck_errs st = [] \<and> fits_in st l)" by (simp add: check_listener_ok)
    moreover have "all_fit st (l # ls) \<Longrightarrow> fits_in st l"
      unfolding all_fit_def fits_in_fresh by (cases "needs_port l") (simp_all add: fresh_Cons fresh_append)
    moreover have "ck_errs (foldl check_listener st (l # ls)) \<noteq> []"
      using False check_fold_errs[of "check_listener st l" ls] by simp blast
    ultimately show ?thesis by blast
  qed
qed

lemma network_ok_fit:
  "network_ok n \<longleftrightarrow> main_listener \<in> ls_name ` set (net_listeners n) \<and>
     all_fit \<lparr>ck_errs = [], ck_names = [], ck_ports = [], ck_routes = []\<rparr> (net_listeners n)"
  by (simp add: network_ok_def all_fit_def conj_ac)

lemma validate_ok: "validate_network n = [] \<longleftrightarrow> network_ok n"
  unfolding validate_network_def Let_def network_ok_fit
  by (simp add: check_fold_names check_fold_ok)

section \<open>Properties\<close>

text \<open>C12. \<open>ValidateNetwork\<close> reports no problem exactly on the networks the documentation allows:
  every listener has a label for a name, a port in range (the main one may leave it 0), a known
  protocol, routes only on http and only in the three shapes; names, ports and routes are given
  once; and there is a main listener.\<close>

theorem validate_network_exact:
  "validate_network n = [] \<longleftrightarrow> network_ok n"
  by (rule validate_ok)

text \<open>C18. In a network that passes, every route has a host, no two routes of the instance have
  the same one, and each is the instance's own name or that name behind a label and a dot or a
  prefix.\<close>

theorem route_hosts_distinct:
  assumes "validate_network n = []" "l \<in> set (net_listeners n)" "l' \<in> set (net_listeners n)"
    and "r \<in> set (ls_routes l)" "r' \<in> set (ls_routes l')" "r \<noteq> r'"
  shows "\<exists>x y. route_host r host = Inr x \<and> route_host r' host = Inr y \<and> x \<noteq> y \<and>
    has_suffix x host \<and> has_suffix y host"
proof -
  have v: "valid_route r" "valid_route r'"
    using assms(1-5) by (auto simp: validate_ok network_ok_def listener_ok_def list_all_iff)
  then have "route_prefix r \<noteq> route_prefix r'" using assms(6) route_prefix_inj by blast
  then show ?thesis
    using v by (auto simp: route_host_prefix has_suffix_def has_prefix_def)
qed

definition example_network :: network where
  "example_network = \<lparr>net_listeners =
     [\<lparr>ls_name = ''main'', ls_port = 0, ls_protocol = ''http'', ls_routes = [''@'', ''sync-@'']\<rparr>,
      \<lparr>ls_name = ''console'', ls_port = 9001, ls_protocol = ''http'', ls_routes = [''console'']\<rparr>]\<rparr>"

theorem route_hosts_distinct_witness:
  "\<exists>x y. route_host ''sync-@'' ''aws.shop.doze'' = Inr x \<and> route_host ''console'' ''aws.shop.doze'' = Inr y \<and>
     x \<noteq> y \<and> has_suffix x ''aws.shop.doze'' \<and> has_suffix y ''aws.shop.doze''"
proof (rule route_hosts_distinct)
  show "validate_network example_network = []" by code_simp
  show "hd (net_listeners example_network) \<in> set (net_listeners example_network)"
    "hd (tl (net_listeners example_network)) \<in> set (net_listeners example_network)"
    by (simp_all add: example_network_def)
qed (simp_all add: example_network_def)

section \<open>The check of a module's network\<close>

text \<open>\<open>networkProblems\<close> of \<open>enginetest/network.go\<close>. A module's \<open>Network\<close> method is asked twice; the
  two answers are the parameters. A module without the method has none.\<close>

datatype check_network_error = Invalid "network_problem list" | NotPure network network

definition network_problems :: "(network \<times> network) option \<Rightarrow> check_network_error option" where
  "network_problems nw = (case nw of
     None \<Rightarrow> (case validate_network default_network of [] \<Rightarrow> None | es \<Rightarrow> Some (Invalid es))
   | Some (first, second) \<Rightarrow>
       if validate_network first \<noteq> [] then Some (Invalid (validate_network first))
       else if second \<noteq> first then Some (NotPure first second)
       else None)"

lemma default_network_valid: "validate_network default_network = []"
  by code_simp

text \<open>A module passes \<open>CheckNetwork\<close> exactly when it has no \<open>Network\<close> method, or one that gives
  the same network twice and a network that is allowed; so the default network is taken.\<close>

theorem check_network_exact:
  "network_problems nw = None \<longleftrightarrow> (case nw of None \<Rightarrow> True | Some (a, b) \<Rightarrow> a = b \<and> network_ok a)"
proof (cases nw)
  case None
  then show ?thesis by (simp add: network_problems_def default_network_valid)
next
  case (Some ab)
  show ?thesis using Some by (cases ab) (auto simp: network_problems_def validate_ok)
qed

end
