(* ===== verification/Paths.thy ===== *)
theory Paths
  imports Prelude "HOL-Library.Sublist"
begin

text \<open>
  \<open>path/filepath\<close> on a Unix host: \<open>Clean\<close>, \<open>Join\<close>, \<open>Dir\<close> and \<open>Base\<close>, as the code uses them.
  A path is cleaned component by component on a stack. The lemmas say what a cleaned path
  looks like and what the textual prefix test the extractors use means for components.
\<close>

section \<open>Definitions\<close>

abbreviation slash :: char where
  "slash \<equiv> CHR ''/''"

definition rooted :: "string \<Rightarrow> bool" where
  "rooted p = (case p of [] \<Rightarrow> False | c # _ \<Rightarrow> c = slash)"

text \<open>One component onto the reversed stack of the components kept so far.\<close>

definition clean_step :: "bool \<Rightarrow> string list \<Rightarrow> string \<Rightarrow> string list" where
  "clean_step r stack c =
     (if c = [] \<or> c = ''.'' then stack
      else if c = ''..'' then
        (case stack of
          [] \<Rightarrow> if r then [] else [''..'']
        | t # ts \<Rightarrow> if t = ''..'' then ''..'' # t # ts else ts)
      else c # stack)"

definition clean_comps :: "bool \<Rightarrow> string list \<Rightarrow> string list" where
  "clean_comps r cs = rev (foldl (clean_step r) [] cs)"

definition comps :: "string \<Rightarrow> string list" where
  "comps p = clean_comps (rooted p) (split_on slash p)"

definition render :: "bool \<Rightarrow> string list \<Rightarrow> string" where
  "render r cs = (if r then slash # join_with [slash] cs
     else if cs = [] then ''.'' else join_with [slash] cs)"

definition clean :: "string \<Rightarrow> string" where
  "clean p = (if p = [] then ''.'' else render (rooted p) (comps p))"

definition join_path :: "string list \<Rightarrow> string" where
  "join_path es = (let ne = filter (\<lambda>e. e \<noteq> []) es in
     if ne = [] then [] else clean (join_with [slash] ne))"

text \<open>\<open>Dir\<close>: all but the last element, cleaned; \<open>Base\<close>: the last element.\<close>

definition dir_of :: "string \<Rightarrow> string" where
  "dir_of p = clean (rev (dropWhile (\<lambda>c. c \<noteq> slash) (rev p)))"

definition base_of :: "string \<Rightarrow> string" where
  "base_of p = (if p = [] then ''.''
     else (let q = trim_right_char slash p in
       if q = [] then ''/'' else rev (takeWhile (\<lambda>c. c \<noteq> slash) (rev q))))"

section \<open>Splitting and joining\<close>

lemma split_on_append_sep:
  assumes "c \<notin> set a"
  shows "split_on c (a @ c # b) = a # split_on c b"
  using assms by (induction a) auto

lemma split_on_no_sep: "c \<notin> set a \<Longrightarrow> split_on c a = [a]"
  by (induction a) auto

lemma split_on_nonempty [simp]: "split_on c s \<noteq> []"
  by (induction c s rule: split_on.induct) (auto split: list.splits)

lemma split_on_parts_no_sep: "p \<in> set (split_on c s) \<Longrightarrow> c \<notin> set p"
  by (induction c s arbitrary: p rule: split_on.induct) (auto split: list.splits if_splits)

lemma split_join:
  assumes "cs \<noteq> []" "list_all (\<lambda>p. c \<notin> set p) cs"
  shows "split_on c (join_with [c] cs) = cs"
  using assms
proof (induction "[c]" cs rule: join_with.induct)
  case (3 x y zs)
  then show ?case by (simp add: split_on_append_sep)
qed (auto simp: split_on_no_sep)

lemma split_on_append: "split_on c (a @ c # b) = split_on c a @ split_on c b"
proof (induction a)
  case (Cons x xs)
  then show ?case using split_on_nonempty[of c xs] by (auto split: list.splits)
qed simp

section \<open>Cleaned component lists\<close>

definition plain_comp :: "string \<Rightarrow> bool" where
  "plain_comp c = (c \<noteq> [] \<and> c \<noteq> ''.'' \<and> c \<noteq> ''..'' \<and> slash \<notin> set c)"

text \<open>A cleaned stack: plain components, with parent references only at the bottom of a
  relative path.\<close>

definition clean_stack :: "bool \<Rightarrow> string list \<Rightarrow> bool" where
  "clean_stack r st = (\<exists>ps n. st = ps @ replicate n ''..'' \<and> list_all plain_comp ps \<and> (r \<longrightarrow> n = 0))"

lemma clean_stack_Nil: "clean_stack r []"
  by (auto simp: clean_stack_def)

lemma clean_step_stack:
  assumes "clean_stack r st" "slash \<notin> set c"
  shows "clean_stack r (clean_step r st c)"
proof -
  obtain ps n where st: "st = ps @ replicate n ''..''" "list_all plain_comp ps" "r \<longrightarrow> n = 0"
    using assms(1) by (auto simp: clean_stack_def)
  consider "c = [] \<or> c = ''.''" | (up) "c = ''..''" | (plain) "plain_comp c"
    using assms(2) by (auto simp: plain_comp_def)
  then show ?thesis
  proof cases
    case up
    show ?thesis
    proof (cases ps)
      case Nil
      then show ?thesis
      proof (cases n)
        case 0
        have "clean_step r st c = [] @ replicate (if r then 0 else 1) ''..''"
          using 0 Nil up st by (simp add: clean_step_def)
        then show ?thesis unfolding clean_stack_def by (metis list.pred_inject(1))
      next
        case (Suc k)
        then have "clean_step r st c = [] @ replicate (Suc n) ''..''"
          using Nil up st by (simp add: clean_step_def)
        moreover have "\<not> r" using Suc st(3) by auto
        ultimately show ?thesis unfolding clean_stack_def by (metis list.pred_inject(1))
      qed
    next
      case (Cons p ps')
      then have "clean_step r st c = ps' @ replicate n ''..''"
        using up st by (simp add: clean_step_def plain_comp_def)
      then show ?thesis using st Cons unfolding clean_stack_def by (metis list.pred_inject(2))
    qed
  next
    case plain
    then have "clean_step r st c = (c # ps) @ replicate n ''..''"
      using st by (simp add: clean_step_def plain_comp_def)
    then show ?thesis using st plain unfolding clean_stack_def by (metis list.pred_inject(2))
  qed (use assms in \<open>simp add: clean_step_def\<close>)
qed

lemma clean_fold_stack:
  assumes "clean_stack r st" "list_all (\<lambda>c. slash \<notin> set c) cs"
  shows "clean_stack r (foldl (clean_step r) st cs)"
  using assms by (induction cs arbitrary: st) (auto simp: clean_step_stack)

lemma rooted_comps_plain: "rooted p \<Longrightarrow> list_all plain_comp (comps p)"
  using clean_fold_stack[OF clean_stack_Nil, of "split_on slash p" True]
  by (auto simp: comps_def clean_comps_def clean_stack_def list_all_iff split_on_parts_no_sep)

lemma clean_fold_plain:
  assumes "list_all plain_comp cs"
  shows "foldl (clean_step r) st cs = rev cs @ st"
  using assms by (induction cs arbitrary: st) (auto simp: clean_step_def plain_comp_def)

lemma comps_render:
  assumes "list_all plain_comp cs"
  shows "comps (render True cs) = cs"
proof (cases cs)
  case Nil
  then show ?thesis by (simp add: comps_def render_def clean_comps_def clean_step_def)
next
  case (Cons d ds)
  have "split_on slash (join_with [slash] cs) = cs"
    using Cons assms by (intro split_join) (auto simp: plain_comp_def list_all_iff)
  then have "foldl (clean_step True) [] (split_on slash (slash # join_with [slash] cs)) = rev cs"
    using clean_fold_plain[OF assms, of True "[]"] by (simp add: clean_step_def)
  then show ?thesis by (simp add: comps_def clean_comps_def render_def rooted_def)
qed

lemma rooted_render [simp]: "rooted (render True cs)"
  by (simp add: render_def rooted_def)

lemma clean_rooted: "rooted p \<Longrightarrow> clean p = render True (comps p)"
  by (auto simp: clean_def rooted_def split: list.splits)

lemma rooted_clean [simp]: "rooted p \<Longrightarrow> rooted (clean p)"
  by (simp add: clean_rooted)

lemma comps_clean: "rooted p \<Longrightarrow> comps (clean p) = comps p"
  by (simp add: clean_rooted comps_render rooted_comps_plain)

lemma clean_idem: "rooted p \<Longrightarrow> clean (clean p) = clean p"
  by (simp add: clean_rooted comps_render rooted_comps_plain)

lemma rooted_append: "rooted p \<Longrightarrow> rooted (p @ q)"
  by (cases p) (auto simp: rooted_def)

text \<open>Joining onto a rooted path goes on from its components.\<close>

lemma comps_append:
  assumes "rooted p"
  shows "comps (p @ slash # q) = rev (foldl (clean_step True) (rev (comps p)) (split_on slash q))"
  using assms rooted_append[OF assms] by (simp add: comps_def clean_comps_def split_on_append)

lemma join_path_two:
  assumes "rooted p"
  shows "join_path [p, q] = (if q = [] then clean p else clean (p @ slash # q))"
  using assms by (auto simp: join_path_def rooted_def)

lemma comps_slashes: "foldl (clean_step r) st (split_on slash []) = st"
  by (simp add: clean_step_def)

lemma rooted_join: "rooted p \<Longrightarrow> rooted (join_path [p, q])"
  by (simp add: join_path_two rooted_append)

lemma comps_join:
  assumes "rooted p"
  shows "comps (join_path [p, q]) = rev (foldl (clean_step True) (rev (comps p)) (split_on slash q))"
  using assms
  by (simp add: join_path_two comps_clean comps_append rooted_append clean_step_def)

lemma comps_join_plain:
  assumes "rooted p" "plain_comp q"
  shows "comps (join_path [p, q]) = comps p @ [q]"
  using assms by (simp add: comps_join split_on_no_sep plain_comp_def clean_step_def)

lemma rooted_eqI:
  assumes "rooted p" "rooted q" "comps p = comps q"
  shows "clean p = clean q"
  using assms by (simp add: clean_rooted)

lemma join_path_clean: "rooted p \<Longrightarrow> clean (join_path [p, q]) = join_path [p, q]"
  by (simp add: join_path_two clean_idem rooted_append)

section \<open>The textual prefix test\<close>

lemma join_with_append:
  assumes "a \<noteq> []" "b \<noteq> []"
  shows "join_with s (a @ b) = join_with s a @ s @ join_with s b"
  using assms
proof (induction s a rule: join_with.induct)
  case (2 sep x)
  then show ?case by (cases b) auto
qed auto

lemma render_prefix_iff:
  assumes "list_all plain_comp a" "list_all plain_comp b" "a \<noteq> []"
  shows "render True b = render True a \<or> has_prefix (render True b) (render True a @ [slash]) \<longleftrightarrow> prefix a b"
proof -
  have sa: "split_on slash (join_with [slash] a) = a"
    using assms by (intro split_join) (auto simp: plain_comp_def list_all_iff)
  have sb: "split_on slash (join_with [slash] b) = b" if "b \<noteq> []"
    using assms that by (intro split_join) (auto simp: plain_comp_def list_all_iff)
  show ?thesis
  proof
    assume "render True b = render True a \<or> has_prefix (render True b) (render True a @ [slash])"
    then show "prefix a b"
    proof
      assume "render True b = render True a"
      then have "b = a" using comps_render[OF assms(1)] comps_render[OF assms(2)] by simp
      then show ?thesis by simp
    next
      assume "has_prefix (render True b) (render True a @ [slash])"
      then obtain t where t: "join_with [slash] b = join_with [slash] a @ slash # t"
        by (auto simp: has_prefix_def render_def)
           (metis append_Cons append_assoc append_take_drop_id self_append_conv2)
      then have "b \<noteq> []" by auto
      then have "b = a @ split_on slash t"
        using sa sb t by (metis split_on_append)
      then show ?thesis by simp
    qed
  next
    assume "prefix a b"
    then obtain c where c: "b = a @ c" by (auto simp: prefix_def)
    show "render True b = render True a \<or> has_prefix (render True b) (render True a @ [slash])"
    proof (cases "c = []")
      case False
      then show ?thesis
        using c assms(3) by (simp add: render_def has_prefix_def join_with_append)
    qed (use c in simp)
  qed
qed

end
