(* ===== verification/Types.thy ===== *)
theory Types
  imports Network Paths Versions
begin

text \<open>
  The value types of the driver contract, \<open>engine/types.go\<close> and the description types of
  \<open>engine/driver.go\<close>, with the operations on them: \<open>Toolchain.Path\<close>, \<open>HostPlatform\<close> and
  \<open>targetTriple\<close> of \<open>engine/platform.go\<close>, and the display categories of \<open>engine/category.go\<close>.
  The driver's own spec value (\<open>any\<close> in Go) is a type parameter of an instance.
\<close>

section \<open>Objects, platforms, toolchains\<close>

record object_rec =
  obj_kind :: string
  obj_name :: string
  obj_hash :: string

text \<open>\<open>HashOf\<close>, of what \<open>json.Marshal\<close> gives for a value; \<open>sha\<close> is the digest in hex.\<close>

definition hash_of :: "(string \<Rightarrow> string) \<Rightarrow> string + string \<Rightarrow> string" where
  "hash_of sha marshalled = (case marshalled of Inl e \<Rightarrow> [] | Inr b \<Rightarrow> take 12 (sha b))"

definition is_exact :: "string \<Rightarrow> bool" where
  "is_exact spec = (CHR ''.'' \<in> set spec)"

record platform =
  pl_os :: string
  pl_arch :: string
  pl_triple :: string

record toolchain =
  tc_engine :: string
  tc_full :: string
  tc_bin_dir :: string
  tc_tools :: "string gomap"

definition zero_toolchain :: toolchain where
  "zero_toolchain = \<lparr>tc_engine = [], tc_full = [], tc_bin_dir = [], tc_tools = []\<rparr>"

definition toolchain_path :: "toolchain \<Rightarrow> string \<Rightarrow> string" where
  "toolchain_path t tool = (case map_of (tc_tools t) tool of
     Some p \<Rightarrow> if p \<noteq> [] then p else join_path [tc_bin_dir t, tool]
   | None \<Rightarrow> join_path [tc_bin_dir t, tool])"

section \<open>Pins\<close>

text \<open>A nil map and an empty one are the same here: the code reads, ranges over and copies them,
  and makes a map before writing to one.\<close>

record pin =
  pin_resolved :: string
  pin_source :: string
  pin_hashes :: "string gomap"

definition zero_pin :: pin where
  "zero_pin = \<lparr>pin_resolved = [], pin_source = [], pin_hashes = []\<rparr>"

record lock_entry =
  le_engine :: string
  le_spec :: string
  le_pin :: pin

section \<open>Instances\<close>

record endpoint =
  ep_unix_socket :: string
  ep_tcp_addr :: string
  ep_backend :: string

record dep =
  dep_name :: string
  dep_engine :: string
  dep_socket_dir :: string
  dep_backend :: string
  dep_url :: string

record dependency =
  dy_name :: string
  dy_condition :: string

definition condition_healthy :: string where "condition_healthy = ''healthy''"
definition condition_started :: string where "condition_started = ''started''"
definition condition_lazy :: string where "condition_lazy = ''lazy''"

record 's instance_rec =
  in_name :: string
  in_type :: string
  in_version :: string
  in_data_dir :: string
  in_socket_dir :: string
  in_port :: int
  in_endpoint :: endpoint
  in_spec :: 's
  in_deps :: "dep gomap"
  in_toolchain :: toolchain
  in_grant :: grant

section \<open>Restarts\<close>

definition restart_no :: string where "restart_no = ''no''"
definition restart_on_failure :: string where "restart_on_failure = ''on_failure''"
definition restart_always :: string where "restart_always = ''always''"

record restart_spec =
  rs_policy :: string
  rs_backoff :: int
  rs_max_retries :: int

section \<open>Descriptions\<close>

record config_arg =
  ca_name :: string
  ca_type :: string
  ca_default :: string
  ca_desc :: string
  ca_required :: bool
  ca_since :: string
  ca_until :: string

record config_block =
  cb_name :: string
  cb_label :: string
  cb_desc :: string
  cb_args :: "config_arg list"

record description =
  ds_title :: string
  ds_tagline :: string
  ds_category :: string
  ds_description :: string
  ds_port :: int
  ds_versions :: "string list"
  ds_example :: string
  ds_example_label :: string
  ds_config :: "config_arg list"
  ds_blocks :: "config_block list"
  ds_homepage :: string
  ds_source :: string

section \<open>Platform and category\<close>

datatype platform_error = IntelMac | UnsupportedPlatform string string

definition target_triple :: "string \<Rightarrow> string \<Rightarrow> platform_error + string" where
  "target_triple goos goarch =
     (if goos = ''linux'' then
        (if goarch = ''amd64'' then Inr ''x86_64-unknown-linux-gnu''
         else if goarch = ''arm64'' then Inr ''aarch64-unknown-linux-gnu''
         else Inl (UnsupportedPlatform goos goarch))
      else if goos = ''darwin'' then
        (if goarch = ''arm64'' then Inr ''aarch64-apple-darwin''
         else if goarch = ''amd64'' then Inl IntelMac
         else Inl (UnsupportedPlatform goos goarch))
      else Inl (UnsupportedPlatform goos goarch))"

definition host_platform :: "string \<Rightarrow> string \<Rightarrow> platform_error + platform" where
  "host_platform goos goarch = (case target_triple goos goarch of
     Inl e \<Rightarrow> Inl e
   | Inr triple \<Rightarrow> Inr \<lparr>pl_os = goos, pl_arch = goarch, pl_triple = triple\<rparr>)"

definition category :: "string \<Rightarrow> string" where
  "category engineType =
     (if engineType \<in> {''postgres'', ''documentdb'', ''mysql''} then ''database''
      else if engineType \<in> {''valkey'', ''kvrocks'', ''redis''} then ''cache''
      else if engineType \<in> {''sqs'', ''sns'', ''kafka''} then ''queue''
      else if engineType \<in> {''s3'', ''minio''} then ''storage''
      else if engineType = ''process'' then ''services''
      else ''other'')"

definition category_order :: "string list" where
  "category_order = [''database'', ''cache'', ''queue'', ''storage'', ''services'', ''other'']"

lemma category_in_order: "category e \<in> set category_order"
  by (simp add: category_def category_order_def)

text \<open>\<open>CoreArguments\<close> of \<open>engine/core.go\<close>: what doze reads of a block before a driver does.\<close>

definition core_arguments :: "string list" where
  "core_arguments = [''count'', ''for_each'', ''depends_on'', ''enabled'', ''after'',
     ''version'', ''listen'', ''port'', ''sleep'']"

text \<open>Two platforms never share a triple, so an artifact of a triple runs on one platform.\<close>

lemma target_triple_inj:
  assumes "target_triple os1 arch1 = Inr t" "target_triple os2 arch2 = Inr t"
  shows "os1 = os2 \<and> arch1 = arch2"
  using assms by (auto simp: target_triple_def split: if_splits)

lemma toolchain_path_override:
  "map_of (tc_tools t) tool = Some p \<Longrightarrow> p \<noteq> [] \<Longrightarrow> toolchain_path t tool = p"
  by (simp add: toolchain_path_def)

end
