(* ===== verification/Modtool.thy ===== *)
theory Modtool
  imports Types Selection
begin

text \<open>
  Building and publishing a module: \<open>modtool/modtool.go\<close> and \<open>modtool/meta.go\<close>. The output
  directory is a map from paths to contents. What the code calls but does not contain is a record
  of parameters, \<open>build_env\<close>: the YAML codec of the index, the Go compiler, the archive writer,
  SHA-256 in hex, and which file operations fail. A published artifact is immutable, and a
  release run that succeeded can be repeated without changing anything.
\<close>

section \<open>Types and parameters\<close>

record module_rec =
  md_name :: string
  md_version :: string
  md_namespace :: string
  md_plugin_path :: string
  md_repo_dir :: string
  md_driver :: "description option"

text \<open>The shape of \<open>meta.yaml\<close>, from \<open>modtool/meta.go\<close>: no versions, which live in the index.\<close>

record meta_arg =
  ma_name :: string
  ma_type :: string
  ma_default :: string
  ma_desc :: string
  ma_required :: bool
  ma_since :: string
  ma_until :: string

record meta_block =
  mb_name :: string
  mb_label :: string
  mb_desc :: string
  mb_arguments :: "meta_arg list"

record meta_config =
  mc_arguments :: "meta_arg list"
  mc_blocks :: "meta_block list"

record meta_file =
  mf_title :: string
  mf_tagline :: string
  mf_category :: string
  mf_engine :: string
  mf_port :: int
  mf_example :: string
  mf_example_label :: string
  mf_description :: string
  mf_homepage :: string
  mf_source :: string
  mf_config :: meta_config

fun to_meta_args :: "config_arg list \<Rightarrow> meta_arg list" where
  "to_meta_args [] = []"
| "to_meta_args (a # as) =
     \<lparr>ma_name = ca_name a, ma_type = ca_type a, ma_default = ca_default a, ma_desc = ca_desc a,
      ma_required = ca_required a, ma_since = ca_since a, ma_until = ca_until a\<rparr> # to_meta_args as"

definition to_meta_file :: "string \<Rightarrow> description \<Rightarrow> meta_file" where
  "to_meta_file name d =
     (let blocks = map (\<lambda>b. \<lparr>mb_name = cb_name b, mb_label = cb_label b, mb_desc = cb_desc b,
            mb_arguments = to_meta_args (cb_args b)\<rparr>) (ds_blocks d) in
      \<lparr>mf_title = ds_title d, mf_tagline = ds_tagline d, mf_category = ds_category d, mf_engine = name,
       mf_port = ds_port d, mf_example = ds_example d, mf_example_label = ds_example_label d,
       mf_description = ds_description d, mf_homepage = ds_homepage d, mf_source = ds_source d,
       mf_config = \<lparr>mc_arguments = to_meta_args (ds_config d), mc_blocks = blocks\<rparr>\<rparr>)"

definition protocol_version :: int where
  "protocol_version = 1"

definition min_host :: string where
  "min_host = ''0.2.0''"

record build_env =
  be_unmarshal :: "string \<Rightarrow> string + index"
  be_marshal :: "index \<Rightarrow> string + string"
  be_marshal_meta :: "meta_file \<Rightarrow> string + string"
  be_mkdir :: "string \<Rightarrow> string option"
  be_mktemp :: "string + string"
  be_compile :: "string \<Rightarrow> string \<Rightarrow> string \<Rightarrow> string \<Rightarrow> string + string"
  be_pack :: "string \<Rightarrow> string \<Rightarrow> string"
  be_sha :: "string \<Rightarrow> string"
  be_write :: "string \<Rightarrow> string option"

datatype build_error =
    MissingField string
  | UnknownTriple string "string list"
  | IoFailed string
  | CompileFailed string
  | AlreadyPublished string string string

type_synonym files = "string gomap"

section \<open>Module and triples\<close>

definition validate_module :: "module_rec \<Rightarrow> build_error option" where
  "validate_module m =
     (if md_name m = [] then Some (MissingField ''Name'')
      else if md_version m = [] then Some (MissingField ''Version'')
      else if md_namespace m = [] then Some (MissingField ''Namespace'')
      else if md_plugin_path m = [] then Some (MissingField ''PluginPath'')
      else if md_driver m = None then Some (MissingField ''Driver'')
      else None)"

definition repo_dir :: "module_rec \<Rightarrow> string" where
  "repo_dir m = (if md_repo_dir m = [] then ''.'' else md_repo_dir m)"

definition triples :: "(string \<times> string) gomap" where
  "triples =
     [(''aarch64-apple-darwin'', (''darwin'', ''arm64'')),
      (''aarch64-unknown-linux-gnu'', (''linux'', ''arm64'')),
      (''x86_64-unknown-linux-gnu'', (''linux'', ''amd64''))]"

definition all_triples :: "string list" where
  "all_triples = sort_slice (\<lambda>a b. a < b) (map fst triples)"

section \<open>The index\<close>

text \<open>\<open>engineMajors\<close>: the distinct non-empty majors in order of appearance.\<close>

fun engine_majors_loop :: "string list \<Rightarrow> string list \<Rightarrow> string list" where
  "engine_majors_loop out [] = out"
| "engine_majors_loop out (v # vs) =
     (let major = major_of v in
      if major \<noteq> [] \<and> major \<notin> set out then engine_majors_loop (out @ [major]) vs
      else engine_majors_loop out vs)"

definition engine_majors :: "description \<Rightarrow> string list" where
  "engine_majors d = engine_majors_loop [] (ds_versions d)"

definition published :: "build_env \<Rightarrow> files \<Rightarrow> string \<Rightarrow> string \<Rightarrow> string \<Rightarrow> bool" where
  "published be fs path version triple = (case map_of fs path of
     None \<Rightarrow> False
   | Some b \<Rightarrow> (case parse_index (be_unmarshal be) b of
       Inl _ \<Rightarrow> False
     | Inr idx \<Rightarrow> map_of (rel_artifacts (rel_at (idx_releases idx) version)) triple \<noteq> None))"

definition fresh_index :: "module_rec \<Rightarrow> index" where
  "fresh_index m = \<lparr>idx_schema = index_schema, idx_module = md_name m, idx_namespace = md_namespace m,
     idx_releases = [], idx_channels = Some [], idx_signature = []\<rparr>"

definition open_index :: "build_env \<Rightarrow> files \<Rightarrow> string \<Rightarrow> module_rec \<Rightarrow> index" where
  "open_index be fs path m = (case map_of fs path of
     None \<Rightarrow> fresh_index m
   | Some b \<Rightarrow> (case parse_index (be_unmarshal be) b of
       Inl _ \<Rightarrow> fresh_index m
     | Inr idx \<Rightarrow> idx))"

definition stable_of :: "string \<Rightarrow> release gomap \<Rightarrow> string" where
  "stable_of start rels =
     foldl (\<lambda>stable vr. if compare_versions (fst vr) stable > 0 then fst vr else stable) start rels"

text \<open>The part of \<open>mergeIndex\<close> between reading and writing the file.\<close>

definition merge_into :: "index \<Rightarrow> module_rec \<Rightarrow> description \<Rightarrow> string \<Rightarrow> string \<Rightarrow> string \<Rightarrow> build_error + index" where
  "merge_into idx m d triple archiveName sha =
     (let rels = idx_releases idx;
          channels = (case idx_channels idx of None \<Rightarrow> [] | Some c \<Rightarrow> c);
          rel = rel_at rels (md_version m) in
      if (case map_of rels (md_version m) of None \<Rightarrow> False
          | Some r \<Rightarrow> (case map_of (rel_artifacts r) triple of None \<Rightarrow> False
              | Some prev \<Rightarrow> \<not> equal_fold (art_sha256 prev) sha))
      then Inl (AlreadyPublished (md_name m) (md_version m) triple)
      else (let rel' = rel\<lparr>rel_protocol := protocol_version, rel_doze := min_host,
                  rel_engines := engine_majors d,
                  rel_artifacts := mput triple \<lparr>art_url = archiveName, art_sha256 = sha, art_sig = []\<rparr> (rel_artifacts rel)\<rparr>;
                rels' = mput (md_version m) rel' rels in
        Inr (idx\<lparr>idx_releases := rels',
          idx_channels := Some (mput ''stable'' (stable_of (md_version m) rels') channels),
          idx_signature := []\<rparr>)))"

definition merge_index :: "build_env \<Rightarrow> files \<Rightarrow> string \<Rightarrow> module_rec \<Rightarrow> description \<Rightarrow> string \<Rightarrow> string \<Rightarrow> string \<Rightarrow> build_error + files" where
  "merge_index be fs path m d triple archiveName sha =
     (case merge_into (open_index be fs path m) m d triple archiveName sha of
        Inl e \<Rightarrow> Inl e
      | Inr idx \<Rightarrow> (case be_marshal be idx of
          Inl e \<Rightarrow> Inl (IoFailed e)
        | Inr b \<Rightarrow> (case be_write be path of
            Some e \<Rightarrow> Inl (IoFailed e)
          | None \<Rightarrow> Inr (mput path b fs))))"

section \<open>Build and Release\<close>

definition module_dir :: "string \<Rightarrow> module_rec \<Rightarrow> string" where
  "module_dir outDir m = join_path [outDir, md_name m]"

definition index_path :: "string \<Rightarrow> module_rec \<Rightarrow> string" where
  "index_path outDir m = join_path [module_dir outDir m, ''index.yaml'']"

definition archive_name :: "module_rec \<Rightarrow> string \<Rightarrow> string" where
  "archive_name m triple = md_name m @ ''-plugin-'' @ md_version m @ ''-'' @ triple @ ''.tar.gz''"

text \<open>The steps of \<open>Build\<close> are a chain of early returns. The result carries the files next to the
  error, since an archive may have been written before a later step fails.\<close>

text \<open>\<open>writeTarGz\<close>, of what reading the member gives: the file is created before that.\<close>

definition write_tar_gz :: "build_env \<Rightarrow> string \<Rightarrow> string \<Rightarrow> string + string \<Rightarrow> files \<Rightarrow> (build_error + string) \<times> files" where
  "write_tar_gz be dest member got fs = (case be_write be dest of
     Some e \<Rightarrow> (Inl (IoFailed e), fs)
   | None \<Rightarrow> (case got of
       Inl e \<Rightarrow> (Inl (IoFailed e), mput dest [] fs)
     | Inr body \<Rightarrow> (let archive = be_pack be member body in (Inr (be_sha be archive), mput dest archive fs))))"

definition build_artifact :: "build_env \<Rightarrow> module_rec \<Rightarrow> description \<Rightarrow> string \<Rightarrow> string \<Rightarrow> string \<times> string \<Rightarrow> files \<Rightarrow> build_error option \<times> files" where
  "build_artifact be m d outDir triple plat fs =
     (let archivePath = join_path [module_dir outDir m, archive_name m triple];
          member = ''bin/'' @ md_name m @ ''-plugin'' in
      case be_mktemp be of
        Inl e \<Rightarrow> (Some (IoFailed e), fs)
      | Inr tmp \<Rightarrow> (case be_mkdir be (join_path [tmp, ''bin'']) of
          Some e \<Rightarrow> (Some (IoFailed e), fs)
        | None \<Rightarrow> (case be_compile be (repo_dir m) (md_plugin_path m) (fst plat) (snd plat) of
            Inl e \<Rightarrow> (Some (CompileFailed e), fs)
          | Inr body \<Rightarrow> (case write_tar_gz be archivePath member (Inr body) fs of
              (Inl e, fs1) \<Rightarrow> (Some e, fs1)
            | (Inr sha, fs1) \<Rightarrow>
                (case merge_index be fs1 (index_path outDir m) m d triple (archive_name m triple) sha of
                   Inl e \<Rightarrow> (Some e, fs1)
                 | Inr fs2 \<Rightarrow> (None, fs2))))))"

definition build :: "build_env \<Rightarrow> module_rec \<Rightarrow> string \<Rightarrow> string \<Rightarrow> files \<Rightarrow> build_error option \<times> files" where
  "build be m outDir triple fs =
     (case (validate_module m, md_driver m) of
        (Some e, _) \<Rightarrow> (Some e, fs)
      | (None, None) \<Rightarrow> (None, fs)
      | (None, Some d) \<Rightarrow> (case map_of triples triple of
          None \<Rightarrow> (Some (UnknownTriple triple all_triples), fs)
        | Some plat \<Rightarrow> (case be_mkdir be (module_dir outDir m) of
            Some e \<Rightarrow> (Some (IoFailed e), fs)
          | None \<Rightarrow>
              if published be fs (index_path outDir m) (md_version m) triple then (None, fs)
              else build_artifact be m d outDir triple plat fs)))"

definition write_meta :: "build_env \<Rightarrow> module_rec \<Rightarrow> string \<Rightarrow> files \<Rightarrow> build_error option \<times> files" where
  "write_meta be m outDir fs =
     (case (validate_module m, md_driver m) of
        (Some e, _) \<Rightarrow> (Some e, fs)
      | (None, None) \<Rightarrow> (None, fs)
      | (None, Some d) \<Rightarrow> (case be_marshal_meta be (to_meta_file (md_name m) d) of
          Inl e \<Rightarrow> (Some (IoFailed e), fs)
        | Inr data \<Rightarrow> (case be_mkdir be (module_dir outDir m) of
            Some e \<Rightarrow> (Some (IoFailed e), fs)
          | None \<Rightarrow> (let path = join_path [module_dir outDir m, ''meta.yaml''] in
              case be_write be path of
                Some e \<Rightarrow> (Some (IoFailed e), fs)
              | None \<Rightarrow> (None, mput path data fs)))))"

fun release_loop :: "build_env \<Rightarrow> module_rec \<Rightarrow> string \<Rightarrow> string list \<Rightarrow> files \<Rightarrow> build_error option \<times> files" where
  "release_loop be m outDir [] fs = write_meta be m outDir fs"
| "release_loop be m outDir (triple # ts) fs = (case build be m outDir triple fs of
     (Some e, fs') \<Rightarrow> (Some e, fs')
   | (None, fs') \<Rightarrow> release_loop be m outDir ts fs')"

definition release_run :: "build_env \<Rightarrow> module_rec \<Rightarrow> string \<Rightarrow> string list \<Rightarrow> files \<Rightarrow> build_error option \<times> files" where
  "release_run be m outDir buildTriples fs = release_loop be m outDir buildTriples fs"

section \<open>Paths inside the module directory\<close>

lemma join_path_suffix:
  assumes "plain_comp q"
  shows "\<exists>p'. join_path [p, q] = p' @ q"
proof -
  have r: "\<exists>p'. render r (cs @ [q]) = p' @ q" for r cs
    by (cases "cs = []") (auto simp: render_def join_with_append)
  have q: "q \<noteq> []" "slash \<notin> set q" using assms by (auto simp: plain_comp_def)
  have c: "clean_comps b (xs @ [q]) = rev (foldl (clean_step b) [] xs) @ [q]" for b xs
    using assms by (simp add: clean_comps_def clean_step_def plain_comp_def)
  show ?thesis
  proof (cases "p = []")
    case True
    then show ?thesis
      using q r[of "rooted q" "[]"] c[of "rooted q" "[]"]
      by (simp add: join_path_def clean_def comps_def split_on_no_sep)
  next
    case False
    then have "join_path [p, q] = render (rooted (p @ slash # q))
        (rev (foldl (clean_step (rooted (p @ slash # q))) [] (split_on slash p)) @ [q])"
      using q by (simp add: join_path_def clean_def comps_def split_on_append split_on_no_sep c)
    then show ?thesis using r by metis
  qed
qed

lemma suffix_same: "(p @ u = q @ v) \<Longrightarrow> length u = length v \<Longrightarrow> u = v"
  by simp

lemma join_path_ne:
  assumes "plain_comp a" "plain_comp b" "last a \<noteq> last b"
  shows "join_path [p, a] \<noteq> join_path [q, b]"
  using join_path_suffix[OF assms(1), of p] join_path_suffix[OF assms(2), of q] assms
  by (metis last_appendR plain_comp_def)

definition slash_free :: "module_rec \<Rightarrow> bool" where
  "slash_free m = (slash \<notin> set (md_name m) \<and> slash \<notin> set (md_version m))"

lemma triples_slash_free: "map_of triples t = Some plat \<Longrightarrow> slash \<notin> set t"
  by (auto simp: triples_def split: if_splits)

lemma archive_plain:
  assumes "slash_free m" "map_of triples t = Some plat"
  shows "plain_comp (archive_name m t)" "last (archive_name m t) = CHR ''z''"
  using assms triples_slash_free[OF assms(2)]
  by (auto simp: archive_name_def slash_free_def plain_comp_def append_eq_Cons_conv)

lemma archive_path_ne:
  assumes "slash_free m" "map_of triples t = Some plat"
  shows "join_path [dir, archive_name m t] \<noteq> index_path outDir m"
  unfolding index_path_def using archive_plain[OF assms]
  by (intro join_path_ne) (auto simp: plain_comp_def)

lemma meta_path_ne: "join_path [dir, ''meta.yaml''] \<noteq> index_path outDir m"
proof
  assume eq: "join_path [dir, ''meta.yaml''] = index_path outDir m"
  obtain a b where "join_path [dir, ''meta.yaml''] = a @ ''meta.yaml''" "index_path outDir m = b @ ''index.yaml''"
    using join_path_suffix[of "''meta.yaml''" dir] join_path_suffix[of "''index.yaml''" "module_dir outDir m"]
    by (auto simp: plain_comp_def index_path_def)
  then have "drop 1 (rev ''index.yaml'') = drop 1 (rev ''index.yaml'') \<and> rev ''meta.yaml'' @ rev a = rev ''index.yaml'' @ rev b"
    using eq by (metis rev_append)
  then show False by simp
qed

section \<open>What an index file publishes\<close>

definition index_at :: "build_env \<Rightarrow> files \<Rightarrow> string \<Rightarrow> index option" where
  "index_at be fs path = (case map_of fs path of
     None \<Rightarrow> None
   | Some b \<Rightarrow> (case parse_index (be_unmarshal be) b of Inl _ \<Rightarrow> None | Inr idx \<Rightarrow> Some idx))"

definition artifact_at :: "build_env \<Rightarrow> files \<Rightarrow> string \<Rightarrow> string \<Rightarrow> string \<Rightarrow> artifact option" where
  "artifact_at be fs path version triple = (case index_at be fs path of
     None \<Rightarrow> None
   | Some idx \<Rightarrow> (case map_of (idx_releases idx) version of
       None \<Rightarrow> None
     | Some r \<Rightarrow> map_of (rel_artifacts r) triple))"

lemma published_iff: "published be fs path v t \<longleftrightarrow> artifact_at be fs path v t \<noteq> None"
  by (auto simp: published_def artifact_at_def index_at_def rel_at_def mget_def zero_release_def
      split: option.splits sum.splits)

lemma open_index_at:
  "open_index be fs path m = (case index_at be fs path of None \<Rightarrow> fresh_index m | Some idx \<Rightarrow> idx)"
  by (simp add: open_index_def index_at_def split: option.splits sum.splits)

lemma artifact_at_mput: "p \<noteq> path \<Longrightarrow> artifact_at be (mput p b fs) path v t = artifact_at be fs path v t"
  by (simp add: artifact_at_def index_at_def)

lemma index_at_mput: "p \<noteq> path \<Longrightarrow> index_at be (mput p b fs) path = index_at be fs path"
  by (simp add: index_at_def)

text \<open>The YAML codec of the index: reading back what was written.\<close>

definition codec_ok :: "build_env \<Rightarrow> bool" where
  "codec_ok be \<longleftrightarrow> (\<forall>idx b. be_marshal be idx = Inr b \<longrightarrow> be_unmarshal be b = Inr idx)"

definition parsed_ok :: "index \<Rightarrow> bool" where
  "parsed_ok idx = (idx_schema idx = index_schema \<and> idx_module idx \<noteq> [])"

lemma index_at_parsed: "index_at be fs path = Some idx \<Longrightarrow> parsed_ok idx"
  by (auto simp: index_at_def parse_index_def parsed_ok_def split: option.splits sum.splits if_splits)

lemma open_index_parsed: "md_name m \<noteq> [] \<Longrightarrow> parsed_ok (open_index be fs path m)"
  using index_at_parsed by (auto simp: open_index_at fresh_index_def parsed_ok_def split: option.splits)

section \<open>mergeIndex\<close>

lemma merge_into_Inr:
  "merge_into idx m d t a sha = Inr idx' \<longleftrightarrow>
    (\<forall>r prev. map_of (idx_releases idx) (md_version m) = Some r \<longrightarrow> map_of (rel_artifacts r) t = Some prev \<longrightarrow>
       equal_fold (art_sha256 prev) sha) \<and>
    idx' = (let rel = rel_at (idx_releases idx) (md_version m);
        rels' = mput (md_version m) (rel\<lparr>rel_protocol := protocol_version, rel_doze := min_host,
          rel_engines := engine_majors d,
          rel_artifacts := mput t \<lparr>art_url = a, art_sha256 = sha, art_sig = []\<rparr> (rel_artifacts rel)\<rparr>) (idx_releases idx)
      in idx\<lparr>idx_releases := rels',
         idx_channels := Some (mput ''stable'' (stable_of (md_version m) rels')
           (case idx_channels idx of None \<Rightarrow> [] | Some c \<Rightarrow> c)),
         idx_signature := []\<rparr>)"
  by (auto simp: merge_into_def Let_def split: option.splits if_splits)

lemma merge_into_parsed: "merge_into idx m d t a sha = Inr idx' \<Longrightarrow> parsed_ok idx \<Longrightarrow> parsed_ok idx'"
  by (simp add: merge_into_Inr parsed_ok_def Let_def)

lemma merge_into_artifact:
  assumes "merge_into idx m d t a sha = Inr idx'" "map_of (idx_releases idx) v = Some r"
    "map_of (rel_artifacts r) t' = Some art" "(v, t') \<noteq> (md_version m, t)"
  shows "\<exists>r'. map_of (idx_releases idx') v = Some r' \<and> map_of (rel_artifacts r') t' = Some art"
  using assms by (auto simp: merge_into_Inr Let_def rel_at_def mget_def)

lemma merge_into_new:
  assumes "merge_into idx m d t a sha = Inr idx'"
  shows "\<exists>r. map_of (idx_releases idx') (md_version m) = Some r \<and>
    map_of (rel_artifacts r) t = Some \<lparr>art_url = a, art_sha256 = sha, art_sig = []\<rparr> \<and>
    rel_protocol r = protocol_version \<and> rel_doze r = min_host \<and> rel_engines r = engine_majors d"
  using assms by (auto simp: merge_into_Inr Let_def)

lemma merge_index_Inr:
  assumes "merge_index be fs path m d t a sha = Inr fs'" "codec_ok be" "md_name m \<noteq> []"
  obtains idx' where "merge_into (open_index be fs path m) m d t a sha = Inr idx'"
    "index_at be fs' path = Some idx'" "\<And>p. p \<noteq> path \<Longrightarrow> map_of fs' p = map_of fs p"
proof -
  obtain idx' b where m: "merge_into (open_index be fs path m) m d t a sha = Inr idx'"
      and b: "be_marshal be idx' = Inr b" and fs': "fs' = mput path b fs"
    using assms(1) by (auto simp: merge_index_def split: sum.splits option.splits)
  have "parsed_ok idx'" using merge_into_parsed[OF m] open_index_parsed[OF assms(3)] by blast
  moreover have "be_unmarshal be b = Inr idx'" using assms(2) b by (simp add: codec_ok_def)
  ultimately have "index_at be fs' path = Some idx'"
    by (simp add: fs' index_at_def parse_index_def parsed_ok_def)
  then show thesis using that m fs' by simp
qed

lemma merge_index_artifact:
  assumes "merge_index be fs path m d t a sha = Inr fs'" "codec_ok be" "md_name m \<noteq> []"
  shows "artifact_at be fs' path v t' =
    (if v = md_version m \<and> t' = t then Some \<lparr>art_url = a, art_sha256 = sha, art_sig = []\<rparr>
     else artifact_at be fs path v t')"
proof -
  obtain idx' where m: "merge_into (open_index be fs path m) m d t a sha = Inr idx'"
      and at: "index_at be fs' path = Some idx'"
    using merge_index_Inr[OF assms] by blast
  have rels: "map_of (idx_releases idx') = (let rel = rel_at (idx_releases (open_index be fs path m)) (md_version m) in
      (map_of (idx_releases (open_index be fs path m)))(md_version m \<mapsto>
        rel\<lparr>rel_protocol := protocol_version, rel_doze := min_host, rel_engines := engine_majors d,
          rel_artifacts := mput t \<lparr>art_url = a, art_sha256 = sha, art_sig = []\<rparr> (rel_artifacts rel)\<rparr>))"
    using m by (simp add: merge_into_Inr Let_def)
  show ?thesis
    by (cases "index_at be fs path")
       (auto simp: artifact_at_def at rels open_index_at Let_def rel_at_def mget_def zero_release_def
         fresh_index_def split: option.splits)
qed

section \<open>Build and Release\<close>

lemma validate_name: "validate_module m = None \<Longrightarrow> md_name m \<noteq> []"
  by (auto simp: validate_module_def split: if_splits)

lemma build_artifact_keeps:
  assumes "build_artifact be m d outDir t plat fs = (e, fs')" "codec_ok be" "slash_free m"
    "md_name m \<noteq> []" "map_of triples t = Some plat"
    "artifact_at be fs (index_path outDir m) (md_version m) t = None"
    "artifact_at be fs (index_path outDir m) v t' = Some a"
  shows "artifact_at be fs' (index_path outDir m) v t' = Some a"
proof -
  let ?ip = "index_path outDir m"
  have ne: "join_path [module_dir outDir m, archive_name m t] \<noteq> ?ip"
    by (rule archive_path_ne[OF assms(3,5)])
  have neq: "\<not> (v = md_version m \<and> t' = t)" using assms(6,7) by auto
  have merged: "artifact_at be g ?ip v t' = Some a"
    if "merge_index be (mput (join_path [module_dir outDir m, archive_name m t]) x fs) ?ip m d t an sha = Inr g" for x an sha g
    using merge_index_artifact[OF that assms(2,4), of v t'] neq assms(7) by (simp add: artifact_at_mput[OF ne])
  show ?thesis
    using assms(1,7) merged
    by (auto simp: build_artifact_def write_tar_gz_def Let_def artifact_at_mput[OF ne] split: sum.splits option.splits)
qed

lemma build_keeps:
  assumes "build be m outDir t fs = (e, fs')" "codec_ok be" "slash_free m"
    "artifact_at be fs (index_path outDir m) v t' = Some a"
  shows "artifact_at be fs' (index_path outDir m) v t' = Some a"
  using assms(1,4) build_artifact_keeps[OF _ assms(2,3) validate_name _ _ assms(4)]
  by (auto simp: build_def published_iff split: option.splits if_splits)

lemma build_artifact_adds:
  assumes "build_artifact be m d outDir t plat fs = (None, fs')" "codec_ok be" "md_name m \<noteq> []"
  shows "artifact_at be fs' (index_path outDir m) (md_version m) t \<noteq> None"
  using assms(1) merge_index_artifact[OF _ assms(2,3)]
  by (auto simp: build_artifact_def write_tar_gz_def Let_def split: sum.splits option.splits)

lemma build_adds:
  assumes "build be m outDir t fs = (None, fs')" "codec_ok be"
  shows "artifact_at be fs' (index_path outDir m) (md_version m) t \<noteq> None"
proof -
  have v: "validate_module m = None" using assms(1) by (auto simp: build_def split: option.splits)
  then have "md_driver m \<noteq> None" by (auto simp: validate_module_def split: if_splits)
  then show ?thesis
    using assms(1) v build_artifact_adds[OF _ assms(2) validate_name[OF v]]
    by (auto simp: build_def published_iff split: option.splits if_splits)
qed

lemma write_meta_keeps:
  "write_meta be m outDir fs = (e, fs') \<Longrightarrow>
   artifact_at be fs' (index_path outDir m) v t = artifact_at be fs (index_path outDir m) v t"
  using meta_path_ne[of "module_dir outDir m" outDir m]
  by (auto simp: write_meta_def Let_def artifact_at_mput split: option.splits sum.splits)

lemma release_loop_keeps:
  assumes "release_loop be m outDir ts fs = (e, fs')" "codec_ok be" "slash_free m"
    "artifact_at be fs (index_path outDir m) v t = Some a"
  shows "artifact_at be fs' (index_path outDir m) v t = Some a"
  using assms
proof (induction be m outDir ts fs rule: release_loop.induct)
  case (1 be m outDir fs)
  then show ?case using write_meta_keeps[of be m outDir fs e fs' v t] by simp
next
  case (2 be m outDir t0 ts fs)
  obtain e1 fs1 where b: "build be m outDir t0 fs = (e1, fs1)" by (cases "build be m outDir t0 fs")
  have k: "artifact_at be fs1 (index_path outDir m) v t = Some a"
    by (rule build_keeps[OF b "2.prems"(2,3,4)])
  show ?case
  proof (cases e1)
    case None
    then show ?thesis using 2 b k by simp
  next
    case (Some x)
    then show ?thesis using "2.prems"(1) b k by simp
  qed
qed

text \<open>A successful build of a triple that is already there does nothing.\<close>

lemma build_again:
  assumes "build be m outDir t fs0 = (None, fs1)" "artifact_at be fs (index_path outDir m) (md_version m) t \<noteq> None"
  shows "build be m outDir t fs = (None, fs)"
proof -
  have v: "validate_module m = None" using assms(1) by (auto simp: build_def split: option.splits)
  then have "md_driver m \<noteq> None" by (auto simp: validate_module_def split: if_splits)
  moreover have "map_of triples t \<noteq> None" "be_mkdir be (module_dir outDir m) = None"
    using assms(1) v calculation by (auto simp: build_def split: option.splits)
  ultimately show ?thesis using v assms(2) by (auto simp: build_def published_iff)
qed

lemma write_meta_again:
  assumes "write_meta be m outDir fs0 = (None, fs)"
  shows "write_meta be m outDir fs = (None, fs)"
  using assms
  by (auto simp: write_meta_def Let_def mput_same split: option.splits sum.splits)

lemma release_loop_again:
  assumes "release_loop be m outDir ts fs0 = (None, fs')" "codec_ok be" "slash_free m"
  shows "\<exists>fs1. write_meta be m outDir fs1 = (None, fs') \<and>
    (\<forall>t\<in>set ts. build be m outDir t fs' = (None, fs'))"
  using assms
proof (induction be m outDir ts fs0 rule: release_loop.induct)
  case (1 be m outDir fs)
  then show ?case by auto
next
  case (2 be m outDir t ts fs)
  obtain e1 fs1 where b: "build be m outDir t fs = (e1, fs1)" by (cases "build be m outDir t fs")
  have e1: "e1 = None" using "2.prems"(1) b by (cases e1) auto
  have loop: "release_loop be m outDir ts fs1 = (None, fs')" using "2.prems"(1) b e1 by simp
  obtain a where "artifact_at be fs1 (index_path outDir m) (md_version m) t = Some a"
    using build_adds[of be m outDir t fs fs1] b e1 "2.prems"(2) by auto
  then have "artifact_at be fs' (index_path outDir m) (md_version m) t = Some a"
    by (rule release_loop_keeps[OF loop "2.prems"(2,3)])
  then have "build be m outDir t fs' = (None, fs')"
    using build_again[of be m outDir t fs fs1 fs'] b e1 by simp
  moreover have "\<exists>fs1. write_meta be m outDir fs1 = (None, fs') \<and> (\<forall>t\<in>set ts. build be m outDir t fs' = (None, fs'))"
    by (rule "2.IH"[OF b[symmetric] e1 loop "2.prems"(2,3)])
  ultimately show ?case by auto
qed

lemma release_loop_fixed:
  assumes "\<forall>t\<in>set ts. build be m outDir t fs = (None, fs)" "write_meta be m outDir fs = (None, fs)"
  shows "release_loop be m outDir ts fs = (None, fs)"
  using assms by (induction ts) auto

section \<open>What a merged index offers\<close>

lemma stable_of_newest:
  assumes "\<forall>w\<in>fst ` set rels. \<not> newer w v"
  shows "stable_of v rels = v"
proof -
  have "foldl (\<lambda>stable vr. if compare_versions (fst vr) stable > 0 then fst vr else stable) v rels = v"
    using assms by (induction rels) (auto simp: newer_def)
  then show ?thesis by (simp add: stable_of_def)
qed

lemma supports_majors:
  "rel_engines r = [] \<or> set majors \<subseteq> insert [] (set (rel_engines r)) \<Longrightarrow> supports r majors"
  by (auto simp: supports_def list_all_iff)

lemma mput_keys: "fst ` set (mput k v m) = insert k (fst ` set m)"
  by (induction m) auto

lemma merged_release:
  assumes "merge_into idx m d t a sha = Inr idx'"
  obtains r where "map_of (idx_releases idx') (md_version m) = Some r"
    "map_of (rel_artifacts r) t = Some \<lparr>art_url = a, art_sha256 = sha, art_sig = []\<rparr>"
    "rel_protocol r = protocol_version" "rel_doze r = min_host" "rel_engines r = engine_majors d"
  using merge_into_new[OF assms] that by blast

lemma merged_channel:
  assumes "merge_into idx m d t a sha = Inr idx'" "\<forall>w\<in>fst ` set (idx_releases idx). \<not> newer w (md_version m)"
  shows "channel_head idx' [] = Some (md_version m)"
proof -
  obtain r where i: "idx_releases idx' = mput (md_version m) r (idx_releases idx)"
      "idx_channels idx' = Some (mput ''stable'' (stable_of (md_version m) (idx_releases idx'))
         (case idx_channels idx of None \<Rightarrow> [] | Some c \<Rightarrow> c))"
    using assms(1) by (auto simp: merge_into_Inr Let_def)
  have "\<forall>w\<in>fst ` set (idx_releases idx'). \<not> newer w (md_version m)"
    using assms(2) newer_irrefl by (simp add: i(1) mput_keys)
  then show ?thesis by (simp add: channel_head_def i(2) stable_of_newest)
qed

lemma select_for_head:
  assumes "gomap_ok (idx_releases idx)" "is_doze_version d0" "channel_head idx ch = Some v"
    "map_of (idx_releases idx) v = Some r" "runs_on (trim_prefix d0 ''v'') r" "rel_protocol r = h" "supports r majors"
  shows "select_for idx h d0 majors ch = Inr (v, r)"
proof -
  let ?d = "trim_prefix d0 ''v''"
  let ?f = "fits_of ?d (idx_releases idx)"
  let ?i = "idx\<lparr>idx_releases := ?f, idx_signature := []\<rparr>"
  have ok: "gomap_ok ?f" by (rule fits_of_ok[OF assms(1)])
  have mem: "map_of ?f v = Some r" using assms(4,5) by (simp add: map_of_fits[OF assms(1)])
  then have "compatible ?f h majors v" using assms(6,7) by (simp add: compatible_def)
  then have c: "v \<in> set (candidates_of ?f h majors)" by (simp add: set_candidates[OF ok])
  have "channel_head ?i ch = Some v" using assms(3) by (simp add: channel_head_def)
  then have "select ?i h majors ch = Inr (v, r)"
    using c ok mem by (auto simp: select_Inr_iff rel_at_def mget_def)
  then show ?thesis by (simp add: select_for_eq[OF assms(1,2)] Let_def)
qed

section \<open>Properties\<close>



text \<open>C20. What was just published is what hosts get: when no release of the index is newer than the
  merged one, a host of this protocol whose doze is not older than \<open>MinHost\<close> and that asks
  for majors the driver describes is given the merged release, with the merged artifact; the
  merged index is unsigned.\<close>

theorem merged_release_is_selected:
  assumes "gomap_ok (idx_releases idx)" "merge_into idx m d t a sha = Inr idx'"
    and "\<forall>w\<in>fst ` set (idx_releases idx). \<not> newer w (md_version m)"
    and "is_doze_version d0" "\<not> newer min_host (trim_prefix d0 ''v'')"
    and "engine_majors d = [] \<or> set majors \<subseteq> insert [] (set (engine_majors d))"
  shows "idx_signature idx' = [] \<and>
    (\<exists>r. select_for idx' protocol_version d0 majors [] = Inr (md_version m, r) \<and>
      map_of (rel_artifacts r) t = Some \<lparr>art_url = a, art_sha256 = sha, art_sig = []\<rparr>)"
proof -
  obtain r where r: "map_of (idx_releases idx') (md_version m) = Some r"
    "map_of (rel_artifacts r) t = Some \<lparr>art_url = a, art_sha256 = sha, art_sig = []\<rparr>"
    "rel_protocol r = protocol_version" "rel_doze r = min_host" "rel_engines r = engine_majors d"
    using merged_release[OF assms(2)] by blast
  have "gomap_ok (idx_releases idx')" "idx_signature idx' = []"
    using assms(1,2) by (auto simp: merge_into_Inr Let_def)
  moreover have "runs_on (trim_prefix d0 ''v'') r" "supports r majors"
    using assms(5,6) r by (auto simp: runs_on_def newer_def intro!: supports_majors)
  ultimately show ?thesis
    using select_for_head[OF _ assms(4) merged_channel[OF assms(2,3)] r(1)] r(2,3) by auto
qed

section \<open>Examples\<close>

definition example_module :: module_rec where
  "example_module = \<lparr>md_name = ''httpd'', md_version = ''0.2.0'', md_namespace = ''acme'',
     md_plugin_path = ''./plugin'', md_repo_dir = [],
     md_driver = Some \<lparr>ds_title = ''httpd'', ds_tagline = [], ds_category = ''other'', ds_description = [],
       ds_port = 80, ds_versions = [''2.4'', ''2.2'', ''1.3''], ds_example = [], ds_example_label = [],
       ds_config = [], ds_blocks = [], ds_homepage = [], ds_source = ''acme/httpd''\<rparr>\<rparr>"

definition example_art :: "string \<Rightarrow> artifact" where
  "example_art v = \<lparr>art_url = ''httpd-plugin-'' @ v @ ''-x86_64-unknown-linux-gnu.tar.gz'', art_sha256 = ''c0de'', art_sig = []\<rparr>"

definition example_old :: index where
  "example_old = \<lparr>idx_schema = 1, idx_module = ''httpd'', idx_namespace = ''acme'',
     idx_releases = [(''0.1.0'', \<lparr>rel_protocol = 1, rel_engines = [''2''],
       rel_artifacts = [(''x86_64-unknown-linux-gnu'', example_art ''0.1.0'')], rel_doze = []\<rparr>)],
     idx_channels = Some [(''stable'', ''0.1.0'')], idx_signature = ''sig''\<rparr>"

definition example_merged :: index where
  "example_merged = (case merge_into example_old example_module (the (md_driver example_module))
       ''x86_64-unknown-linux-gnu'' (art_url (example_art ''0.2.0'')) ''c0de'' of
     Inr i \<Rightarrow> i | Inl _ \<Rightarrow> example_old)"

definition example_env :: build_env where
  "example_env = \<lparr>be_unmarshal = (\<lambda>b. if b = ''old'' then Inr example_old else if b = ''new'' then Inr example_merged else Inl b),
     be_marshal = (\<lambda>i. if i = example_old then Inr ''old'' else if i = example_merged then Inr ''new'' else Inl []),
     be_marshal_meta = (\<lambda>mf. Inr (mf_title mf)), be_mkdir = (\<lambda>_. None), be_mktemp = Inr ''/tmp/x'',
     be_compile = (\<lambda>_ _ os arch. Inr (os @ arch)), be_pack = (\<lambda>n b. n @ b), be_sha = (\<lambda>_. ''c0de''),
     be_write = (\<lambda>_. None)\<rparr>"

definition example_files :: files where
  "example_files = [(''dist/httpd/index.yaml'', ''old'')]"

lemma example_codec: "codec_ok example_env"
  by (auto simp: codec_ok_def example_env_def split: if_splits)

lemma example_slash_free: "slash_free example_module"
  by (simp add: slash_free_def example_module_def)

lemma example_index_path: "index_path ''dist'' example_module = ''dist/httpd/index.yaml''"
  by code_simp



theorem merged_release_is_selected_witness:
  "\<exists>r. select_for example_merged 1 ''v0.3.1'' [''2'', ''1''] [] = Inr (''0.2.0'', r) \<and>
     map_of (rel_artifacts r) ''x86_64-unknown-linux-gnu'' = Some (example_art ''0.2.0'')"
proof -
  have m: "merge_into example_old example_module (the (md_driver example_module)) ''x86_64-unknown-linux-gnu''
      (art_url (example_art ''0.2.0'')) ''c0de'' = Inr example_merged"
    by code_simp
  have h: "gomap_ok (idx_releases example_old)" "is_doze_version ''v0.3.1''"
    "\<not> newer min_host (trim_prefix ''v0.3.1'' ''v'')"
    "\<forall>w\<in>fst ` set (idx_releases example_old). \<not> newer w (md_version example_module)"
    "set [''2'', ''1''] \<subseteq> insert [] (set (engine_majors (the (md_driver example_module))))"
    by code_simp+
  have e: "md_version example_module = ''0.2.0''" "protocol_version = 1"
    "example_art ''0.2.0'' = \<lparr>art_url = art_url (example_art ''0.2.0''), art_sha256 = ''c0de'', art_sig = []\<rparr>"
    by (simp_all add: example_module_def protocol_version_def example_art_def)
  show ?thesis
    using merged_release_is_selected[OF h(1) m h(4,2,3) disjI2[OF h(5)]] e by simp
qed

end
