(* ===== verification/Filesys.thy ===== *)
theory Filesys
  imports Paths
begin

text \<open>
  The file operations the fetcher uses, on a Unix file system with symbolic links: a finite map
  from absolute component lists to directories, files and links. A path is resolved component by
  component, following at most forty links (the kernel's bound). The lemmas say what each
  operation leaves alone when no link is met.
\<close>

section \<open>File systems\<close>

datatype fnode = FDir | FFile string nat | FLink string

type_synonym fs = "(string list \<times> fnode) list"

text \<open>The root directory is always there.\<close>

definition fs_at :: "fs \<Rightarrow> string list \<Rightarrow> fnode option" where
  "fs_at fs p = (if p = [] then Some FDir else map_of fs p)"

definition link_comps :: "string \<Rightarrow> string list" where
  "link_comps t = filter (\<lambda>c. c \<noteq> []) (split_on slash t)"

text \<open>\<open>resolve n follow fs base todo\<close>: where the path \<open>todo\<close> from \<open>base\<close> leads; \<open>follow\<close> says
  whether a link as the last component is followed.\<close>

fun resolve :: "nat \<Rightarrow> bool \<Rightarrow> fs \<Rightarrow> string list \<Rightarrow> string list \<Rightarrow> string list option" where
  "resolve n follow fs base [] = Some base"
| "resolve n follow fs base (c # cs) =
     (if c = ''.'' then resolve n follow fs base cs
      else if c = ''..'' then resolve n follow fs (butlast base) cs
      else (case fs_at fs (base @ [c]) of
          Some (FLink t) \<Rightarrow>
            (if cs = [] \<and> \<not> follow then Some (base @ [c])
             else (case n of 0 \<Rightarrow> None
               | Suc m \<Rightarrow> resolve m follow fs (if rooted t then [] else base) (link_comps t @ cs)))
        | _ \<Rightarrow> resolve n follow fs (base @ [c]) cs))"

definition max_links :: nat where
  "max_links = 40"

definition locate :: "fs \<Rightarrow> string list \<Rightarrow> string list option" where
  "locate fs p = resolve max_links True fs [] p"

definition locate_link :: "fs \<Rightarrow> string list \<Rightarrow> string list option" where
  "locate_link fs p = resolve max_links False fs [] p"

definition is_dir :: "fs \<Rightarrow> string list \<Rightarrow> bool" where
  "is_dir fs p = (case locate fs p of None \<Rightarrow> False | Some q \<Rightarrow> fs_at fs q = Some FDir)"

section \<open>Operations\<close>

text \<open>\<open>os.MkdirAll\<close>: every missing directory of the path, from the top.\<close>

definition mkdir_one :: "fs \<Rightarrow> string list \<Rightarrow> string + fs" where
  "mkdir_one fs p = (case locate fs p of
     None \<Rightarrow> Inl ''too many links''
   | Some q \<Rightarrow> (case fs_at fs q of
       Some FDir \<Rightarrow> Inr fs
     | Some _ \<Rightarrow> Inl ''not a directory''
     | None \<Rightarrow>
         (if locate_link fs p \<noteq> Some q then Inl ''file exists''
          else if fs_at fs (butlast q) \<noteq> Some FDir then Inl ''no such file or directory''
          else Inr (mput q FDir fs))))"

fun mkdir_list :: "fs \<Rightarrow> string list list \<Rightarrow> string + fs" where
  "mkdir_list fs [] = Inr fs"
| "mkdir_list fs (p # ps) = (case mkdir_one fs p of Inl e \<Rightarrow> Inl e | Inr fs' \<Rightarrow> mkdir_list fs' ps)"

definition mkdir_all :: "fs \<Rightarrow> string list \<Rightarrow> string + fs" where
  "mkdir_all fs p = mkdir_list fs (prefixes p)"

text \<open>Opening with create and truncate, and writing everything: a link at the end is followed.\<close>

definition write_at :: "fs \<Rightarrow> string list \<Rightarrow> nat \<Rightarrow> string \<Rightarrow> string + fs" where
  "write_at fs p mode data = (case locate fs p of
     None \<Rightarrow> Inl ''too many links''
   | Some q \<Rightarrow>
       if fs_at fs (butlast q) \<noteq> Some FDir then Inl ''no such file or directory''
       else (case fs_at fs q of
         Some FDir \<Rightarrow> Inl ''is a directory''
       | Some (FFile _ m) \<Rightarrow> Inr (mput q (FFile data m) fs)
       | _ \<Rightarrow> Inr (mput q (FFile data mode) fs)))"

definition read_at :: "fs \<Rightarrow> string list \<Rightarrow> string option" where
  "read_at fs p = (case locate fs p of
     None \<Rightarrow> None
   | Some q \<Rightarrow> (case fs_at fs q of Some (FFile data _) \<Rightarrow> Some data | _ \<Rightarrow> None))"

text \<open>\<open>os.Symlink\<close>: the new name is not followed and must not exist. The code ignores its error.\<close>

definition symlink_at :: "fs \<Rightarrow> string \<Rightarrow> string list \<Rightarrow> fs" where
  "symlink_at fs target p = (case locate_link fs p of
     None \<Rightarrow> fs
   | Some q \<Rightarrow> if fs_at fs q = None \<and> fs_at fs (butlast q) = Some FDir then mput q (FLink target) fs else fs)"

text \<open>\<open>os.RemoveAll\<close>: the entry itself, not what a link points to, and everything under it.\<close>

definition remove_all :: "fs \<Rightarrow> string list \<Rightarrow> fs" where
  "remove_all fs p = (case locate_link fs p of
     None \<Rightarrow> fs
   | Some q \<Rightarrow> filter (\<lambda>(k, n). \<not> prefix q k) fs)"

definition children :: "fs \<Rightarrow> string list \<Rightarrow> string list" where
  "children fs p = map (\<lambda>(k, n). last k) (filter (\<lambda>(k, n). k \<noteq> [] \<and> butlast k = p) fs)"

text \<open>\<open>os.ReadDir\<close>: the names of a directory, sorted.\<close>

definition read_dir :: "fs \<Rightarrow> string list \<Rightarrow> string list option" where
  "read_dir fs p = (case locate fs p of
     None \<Rightarrow> None
   | Some q \<Rightarrow> if fs_at fs q = Some FDir then Some (sort_slice (\<lambda>a b. a < b) (children fs q)) else None)"

definition move_tree :: "fs \<Rightarrow> string list \<Rightarrow> string list \<Rightarrow> fs" where
  "move_tree fs a b = map (\<lambda>(k, n). if prefix a k then (b @ drop (length a) k, n) else (k, n))
     (filter (\<lambda>(k, n). \<not> prefix b k \<or> prefix a k) fs)"

definition rename_at :: "fs \<Rightarrow> string list \<Rightarrow> string list \<Rightarrow> string + fs" where
  "rename_at fs a b = (case (locate_link fs a, locate_link fs b) of
     (Some qa, Some qb) \<Rightarrow>
       (case fs_at fs qa of
          None \<Rightarrow> Inl ''no such file or directory''
        | Some n \<Rightarrow>
            if qa = qb then Inr fs
            else if prefix qa qb \<or> fs_at fs (butlast qb) \<noteq> Some FDir then Inl ''invalid argument''
            else (case fs_at fs qb of
                None \<Rightarrow> Inr (move_tree fs qa qb)
              | Some FDir \<Rightarrow> if n = FDir \<and> children fs qb = [] then Inr (move_tree fs qa qb) else Inl ''file exists''
              | Some _ \<Rightarrow> if n = FDir then Inl ''not a directory'' else Inr (move_tree fs qa qb)))
   | _ \<Rightarrow> Inl ''too many links'')"

section \<open>Paths without links\<close>

definition no_links :: "fs \<Rightarrow> bool" where
  "no_links fs = list_all (\<lambda>(k, n). case n of FLink _ \<Rightarrow> False | _ \<Rightarrow> True) fs"

definition ordinary :: "string list \<Rightarrow> bool" where
  "ordinary p = list_all (\<lambda>c. c \<noteq> ''.'' \<and> c \<noteq> ''..'') p"

text \<open>No proper or improper prefix of the path is a link.\<close>

definition link_free :: "fs \<Rightarrow> string list \<Rightarrow> bool" where
  "link_free fs p \<longleftrightarrow> (\<forall>q t. prefix q p \<longrightarrow> fs_at fs q \<noteq> Some (FLink t))"

lemma fs_at_Nil [simp]: "fs_at fs [] = Some FDir"
  by (simp add: fs_at_def)

lemma fs_at_mput [simp]: "p \<noteq> [] \<Longrightarrow> fs_at (mput p n fs) q = (if q = p then Some n else fs_at fs q)"
  by (simp add: fs_at_def)

lemma link_free_prefix: "link_free fs p \<Longrightarrow> prefix q p \<Longrightarrow> link_free fs q"
  unfolding link_free_def by (meson prefix_order.trans)

lemma resolve_link_free:
  assumes "link_free fs (base @ todo)" "ordinary todo"
  shows "resolve n follow fs base todo = Some (base @ todo)"
  using assms
proof (induction todo arbitrary: base)
  case (Cons c cs)
  have "prefix (base @ [c]) (base @ c # cs)" by simp
  then have nl: "fs_at fs (base @ [c]) \<noteq> Some (FLink t)" for t
    using Cons.prems(1) unfolding link_free_def by blast
  have "resolve n follow fs (base @ [c]) cs = Some ((base @ [c]) @ cs)"
    by (rule Cons.IH) (use Cons.prems in \<open>auto simp: ordinary_def\<close>)
  then show ?case
    using nl Cons.prems(2) by (auto simp: ordinary_def split: option.splits fnode.splits)
qed simp

lemma locate_link_free: "link_free fs p \<Longrightarrow> ordinary p \<Longrightarrow> locate fs p = Some p"
  using resolve_link_free[of fs "[]" p] by (simp add: locate_def)

lemma locate_link_link_free: "link_free fs p \<Longrightarrow> ordinary p \<Longrightarrow> locate_link fs p = Some p"
  using resolve_link_free[of fs "[]" p] by (simp add: locate_link_def)

lemma link_free_mput:
  assumes "link_free fs p" "q \<noteq> []" "\<And>t. n \<noteq> FLink t"
  shows "link_free (mput q n fs) p"
  using assms by (auto simp: link_free_def)

lemma ordinary_prefix: "ordinary p \<Longrightarrow> prefix q p \<Longrightarrow> ordinary q"
  by (auto simp: ordinary_def prefix_def)

lemma plain_ordinary: "list_all plain_comp p \<Longrightarrow> ordinary p"
  by (auto simp: ordinary_def list_all_iff plain_comp_def)

text \<open>The frame of each operation on link-free paths.\<close>

lemma mkdir_one_frame:
  assumes "mkdir_one fs p = Inr fs'" "link_free fs p" "ordinary p"
  shows "(\<forall>q. q \<noteq> p \<longrightarrow> fs_at fs' q = fs_at fs q) \<and> fs_at fs' p = Some FDir \<and>
    (\<forall>r. link_free fs r \<longrightarrow> link_free fs' r) \<and> (fs_at fs p \<noteq> None \<longrightarrow> fs' = fs)"
proof -
  have "locate fs p = Some p" "locate_link fs p = Some p"
    using assms(2,3) by (simp_all add: locate_link_free locate_link_link_free)
  then have "fs_at fs p = Some FDir \<and> fs' = fs \<or> fs_at fs p = None \<and> fs' = mput p FDir fs"
    using assms(1) by (auto simp: mkdir_one_def split: option.splits fnode.splits if_splits)
  then show ?thesis
  proof
    assume n: "fs_at fs p = None \<and> fs' = mput p FDir fs"
    then have "p \<noteq> []" by auto
    then show ?thesis using n link_free_mput[of fs _ p FDir] by auto
  qed auto
qed

lemma mkdir_list_frame:
  assumes "mkdir_list fs ps = Inr fs'" "\<forall>p\<in>set ps. link_free fs p \<and> ordinary p"
  shows "(\<forall>q. q \<notin> set ps \<longrightarrow> fs_at fs' q = fs_at fs q) \<and> (\<forall>p\<in>set ps. fs_at fs' p = Some FDir) \<and>
    (\<forall>r. link_free fs r \<longrightarrow> link_free fs' r) \<and> (\<forall>q. fs_at fs q \<noteq> None \<longrightarrow> fs_at fs' q = fs_at fs q)"
  using assms
proof (induction ps arbitrary: fs)
  case (Cons p ps)
  obtain fs1 where m: "mkdir_one fs p = Inr fs1" "mkdir_list fs1 ps = Inr fs'"
    using Cons.prems(1) by (auto split: sum.splits)
  have p: "link_free fs p" "ordinary p" using Cons.prems(2) by auto
  note f1 = mkdir_one_frame[OF m(1) p]
  have "\<forall>q\<in>set ps. link_free fs1 q \<and> ordinary q" using f1 Cons.prems(2) by auto
  note f2 = Cons.IH[OF m(2) this]
  have keep: "fs_at fs q \<noteq> None \<longrightarrow> fs_at fs' q = fs_at fs q" for q
    using f1 f2 by metis
  moreover have "fs_at fs' p = Some FDir" using f1 f2 by (metis option.distinct(1))
  ultimately show ?case using f1 f2 by auto
qed simp

lemma mkdir_all_frame:
  assumes "mkdir_all fs p = Inr fs'" "link_free fs p" "ordinary p"
  shows "(\<forall>q. \<not> prefix q p \<longrightarrow> fs_at fs' q = fs_at fs q) \<and> fs_at fs' p = Some FDir \<and>
    (\<forall>r. link_free fs r \<longrightarrow> link_free fs' r) \<and> (\<forall>q. fs_at fs q \<noteq> None \<longrightarrow> fs_at fs' q = fs_at fs q)"
proof -
  have "\<forall>q\<in>set (prefixes p). link_free fs q \<and> ordinary q"
    using assms(2,3) link_free_prefix ordinary_prefix by (simp add: set_prefixes_eq)
  then show ?thesis
    using mkdir_list_frame[of fs "prefixes p" fs'] assms(1) by (auto simp: mkdir_all_def)
qed

lemma write_at_frame:
  assumes "write_at fs p mode data = Inr fs'" "link_free fs p" "ordinary p"
  shows "(\<forall>q. q \<noteq> p \<longrightarrow> fs_at fs' q = fs_at fs q) \<and> (\<exists>m. fs_at fs' p = Some (FFile data m)) \<and>
    (\<forall>r. link_free fs r \<longrightarrow> link_free fs' r)"
proof -
  have "locate fs p = Some p" using assms(2,3) by (simp add: locate_link_free)
  moreover have "fs_at fs p \<noteq> Some (FLink t)" for t
    using assms(2) unfolding link_free_def by blast
  ultimately obtain m where m: "fs' = mput p (FFile data m) fs" "fs_at fs p \<noteq> Some FDir"
    using assms(1) by (auto simp: write_at_def split: option.splits fnode.splits if_splits)
  then have "p \<noteq> []" by auto
  then show ?thesis using m link_free_mput[of fs _ p "FFile data m"] by auto
qed

section \<open>Directories that are made\<close>

text \<open>Only a link changes where a path leads.\<close>

definition link_at :: "fs \<Rightarrow> string list \<Rightarrow> string option" where
  "link_at fs p = (case fs_at fs p of Some (FLink t) \<Rightarrow> Some t | _ \<Rightarrow> None)"

lemma resolve_step:
  "resolve n follow fs base (c # cs) =
     (if c = ''.'' then resolve n follow fs base cs
      else if c = ''..'' then resolve n follow fs (butlast base) cs
      else (case link_at fs (base @ [c]) of
          Some t \<Rightarrow>
            (if cs = [] \<and> \<not> follow then Some (base @ [c])
             else (case n of 0 \<Rightarrow> None
               | Suc m \<Rightarrow> resolve m follow fs (if rooted t then [] else base) (link_comps t @ cs)))
        | None \<Rightarrow> resolve n follow fs (base @ [c]) cs))"
  by (auto simp: link_at_def split: option.splits fnode.splits)

lemma resolve_cong:
  assumes "\<And>x. link_at fs' x = link_at fs x"
  shows "resolve n follow fs' base todo = resolve n follow fs base todo"
proof (induction n arbitrary: base todo)
  case 0
  show ?case by (induction todo arbitrary: base) (simp, simp only: resolve_step assms, auto split: option.split)
next
  case (Suc n)
  show ?case by (induction todo arbitrary: base) (simp, simp only: resolve_step assms, auto simp: Suc split: option.split)
qed

lemma resolve_mput_plain:
  assumes "q \<noteq> []" "\<And>t. n \<noteq> FLink t" "\<And>t. fs_at fs q \<noteq> Some (FLink t)"
  shows "resolve k follow (mput q n fs) base todo = resolve k follow fs base todo"
proof (rule resolve_cong)
  fix x show "link_at (mput q n fs) x = link_at fs x"
    using assms by (cases n) (auto simp: link_at_def split: option.split fnode.split)
qed

lemma mkdir_one_cases:
  assumes "mkdir_one fs p = Inr fs'"
  obtains (there) "is_dir fs p" "fs' = fs"
  | (made) q where "locate fs p = Some q" "locate_link fs p = Some q" "fs_at fs q = None" "fs_at fs (butlast q) = Some FDir"
      "q \<noteq> []" "fs' = mput q FDir fs"
proof -
  obtain q where q: "locate fs p = Some q" using assms by (auto simp: mkdir_one_def split: option.splits)
  have "fs_at fs q = None \<Longrightarrow> q \<noteq> []" by auto
  with assms q show thesis using there made
    by (auto simp: mkdir_one_def is_dir_def split: option.splits fnode.splits if_splits)
qed

lemma mkdir_one_keeps:
  assumes "mkdir_one fs p = Inr fs'"
  shows "is_dir fs' p \<and> (is_dir fs r \<longrightarrow> is_dir fs' r)"
  using assms
proof (cases rule: mkdir_one_cases)
  case (made q)
  then have "locate fs' r = locate fs r" for r
    by (simp add: locate_def resolve_mput_plain)
  then show ?thesis using made by (auto simp: is_dir_def split: option.splits)
qed auto

lemma mkdir_one_there: "is_dir fs p \<Longrightarrow> mkdir_one fs p = Inr fs"
  by (auto simp: mkdir_one_def is_dir_def split: option.splits)

lemma mkdir_list_keeps: "mkdir_list fs ps = Inr fs' \<Longrightarrow> is_dir fs r \<Longrightarrow> is_dir fs' r"
  by (induction ps arbitrary: fs) (auto dest: mkdir_one_keeps split: sum.splits)

lemma mkdir_list_dirs: "mkdir_list fs ps = Inr fs' \<Longrightarrow> p \<in> set ps \<Longrightarrow> is_dir fs' p"
  by (induction ps arbitrary: fs) (auto dest: mkdir_one_keeps mkdir_list_keeps split: sum.splits)

lemma mkdir_list_there: "\<forall>p\<in>set ps. is_dir fs p \<Longrightarrow> mkdir_list fs ps = Inr fs"
  by (induction ps) (simp_all add: mkdir_one_there)

text \<open>What \<open>MkdirAll\<close> made is there, and making it again changes nothing.\<close>

lemma mkdir_all_made:
  assumes "mkdir_all fs p = Inr fs'"
  shows "is_dir fs' p" "mkdir_all fs' p = Inr fs'"
  using assms mkdir_list_dirs[of fs "prefixes p" fs'] mkdir_list_there[of "prefixes p" fs']
  by (auto simp: mkdir_all_def set_prefixes_eq)

section \<open>Well-formed file systems\<close>

text \<open>Each path names one thing, and everything is in a directory.\<close>

definition fs_ok :: "fs \<Rightarrow> bool" where
  "fs_ok fs \<longleftrightarrow> gomap_ok fs \<and> (\<forall>k n. (k, n) \<in> set fs \<longrightarrow> k \<noteq> [] \<and> fs_at fs (butlast k) = Some FDir)"

lemma fs_okD: "fs_ok fs \<Longrightarrow> fs_at fs k = Some n \<Longrightarrow> k \<noteq> [] \<Longrightarrow> fs_at fs (butlast k) = Some FDir"
  unfolding fs_ok_def by (metis fs_at_def map_of_SomeD)

lemma fs_ok_alt: "fs_ok fs \<longleftrightarrow> gomap_ok fs \<and> [] \<notin> fst ` set fs
    \<and> (\<forall>k n. fs_at fs k = Some n \<longrightarrow> k \<noteq> [] \<longrightarrow> fs_at fs (butlast k) = Some FDir)"
  (is "_ \<longleftrightarrow> ?r")
proof
  assume ok: "fs_ok fs"
  then have "gomap_ok fs" "[] \<notin> fst ` set fs" by (auto simp: fs_ok_def)
  then show ?r using fs_okD[OF ok] by blast
next
  assume r: ?r
  then have "fs_at fs k = Some n" if "(k, n) \<in> set fs" for k n
    using that by (force simp: fs_at_def gomap_ok_def)
  with r show "fs_ok fs" unfolding fs_ok_def by (metis fst_conv image_eqI)
qed

lemma fs_ok_mput:
  assumes "fs_ok fs" "q \<noteq> []" "fs_at fs (butlast q) = Some FDir" "n = FDir \<or> fs_at fs q \<noteq> Some FDir"
  shows "fs_ok (mput q n fs)"
proof -
  have "[] \<notin> fst ` set (mput q n fs)" using assms(1,2) by (auto simp: fs_ok_alt dom_update)
  moreover have "fs_at (mput q n fs) (butlast k) = Some FDir" if "fs_at (mput q n fs) k = Some m" "k \<noteq> []" for k m
    using that assms fs_okD[OF assms(1), of k m] by (auto split: if_splits)
  ultimately show ?thesis using assms(1) by (auto simp: fs_ok_alt)
qed

lemma fs_okE: "fs_ok fs \<Longrightarrow> (k, n) \<in> set fs \<Longrightarrow> k \<noteq> [] \<and> (butlast k = [] \<or> (butlast k, FDir) \<in> set fs)"
  unfolding fs_ok_def by (metis fs_at_def map_of_SomeD)

lemma fs_okI:
  assumes "gomap_ok fs" "\<And>k n. (k, n) \<in> set fs \<Longrightarrow> k \<noteq> [] \<and> (butlast k = [] \<or> (butlast k, FDir) \<in> set fs)"
  shows "fs_ok fs"
  using assms unfolding fs_ok_def gomap_ok_def by (metis fs_at_def map_of_is_SomeI)

lemma prefix_butlast: "prefix q (butlast k) \<Longrightarrow> prefix q k"
  by (meson prefix_order.trans prefixeq_butlast)

lemma prefix_butlast_iff: "k \<noteq> q \<Longrightarrow> prefix q k \<longleftrightarrow> prefix q (butlast k) \<and> k \<noteq> []"
  by (cases k rule: rev_cases) auto

lemma fs_ok_remove: "fs_ok fs \<Longrightarrow> fs_ok (filter (\<lambda>(k, n). \<not> prefix q k) fs)"
proof (rule fs_okI)
  assume ok: "fs_ok fs"
  then show "gomap_ok (filter (\<lambda>(k, n). \<not> prefix q k) fs)"
    by (simp add: fs_ok_def gomap_ok_def distinct_map_filter)
  show "k \<noteq> [] \<and> (butlast k = [] \<or> (butlast k, FDir) \<in> set (filter (\<lambda>(k, n). \<not> prefix q k) fs))"
    if "(k, n) \<in> set (filter (\<lambda>(k, n). \<not> prefix q k) fs)" for k n
    using fs_okE[OF ok, of k n] that prefix_butlast by auto
qed

text \<open>What is above something is a directory, and one without entries has nothing under it.\<close>

lemma fs_ok_above: "fs_ok fs \<Longrightarrow> fs_at fs (p @ q) = Some n \<Longrightarrow> q \<noteq> [] \<Longrightarrow> fs_at fs p = Some FDir"
proof (induction q arbitrary: n rule: rev_induct)
  case (snoc c q)
  have "fs_at fs (p @ q) = Some FDir" using fs_okD[OF snoc.prems(1,2)] by (simp add: butlast_append)
  then show ?case using snoc.IH[OF snoc.prems(1)] by (cases "q = []") auto
qed simp

lemma fs_ok_entry:
  assumes "fs_ok fs" "fs_at fs (p @ c # q) = Some n"
  shows "c \<in> set (children fs p)"
proof -
  have "\<exists>m. fs_at fs (p @ [c]) = Some m"
    using fs_ok_above[OF assms(1), of "p @ [c]" q n] assms(2) by (cases "q = []") auto
  then obtain m where "(p @ [c], m) \<in> set fs" by (auto simp: fs_at_def dest: map_of_SomeD)
  then show ?thesis by (force simp: children_def)
qed

lemma fs_ok_nothing_under:
  assumes "fs_ok fs" "fs_at fs p \<noteq> Some FDir \<or> children fs p = []" "(k, n) \<in> set fs" "prefix p k"
  shows "k = p"
proof (rule ccontr)
  assume "k \<noteq> p"
  then obtain c q where k: "k = p @ c # q" using assms(4) by (metis append_Nil2 neq_Nil_conv prefixE)
  have "fs_at fs k = Some n" using assms(1,3) by (force simp: fs_ok_def fs_at_def gomap_ok_def)
  then show False using fs_ok_entry[OF assms(1), of p c q n] fs_ok_above[OF assms(1), of p "c # q" n] assms(2) k by auto
qed

lemma fs_ok_move:
  assumes ok: "fs_ok fs" and a: "fs_at fs a \<noteq> None" "\<not> prefix a b" and b: "fs_at fs (butlast b) = Some FDir"
    and empty_b: "fs_at fs b \<noteq> Some FDir \<or> children fs b = []"
  shows "fs_ok (move_tree fs a b)"
proof -
  have aN: "a \<noteq> []" using a(2) by auto
  have under: "(k, n) \<in> set fs \<Longrightarrow> prefix b k \<Longrightarrow> k = b" for k n
    using fs_ok_nothing_under[OF ok empty_b] .
  have "\<not> prefix b a"
  proof
    assume p: "prefix b a"
    obtain n where "(a, n) \<in> set fs" using a(1) aN by (auto simp: fs_at_def dest: map_of_SomeD)
    then show False using under[OF _ p] a(2) by auto
  qed
  then have ba: "\<not> prefix b k" if "prefix a k" "(k, n) \<in> set fs" for k n
    using under[OF that(2)] that(1) a(2) by auto
  have mem: "(k', n) \<in> set (move_tree fs a b) \<longleftrightarrow>
      (\<exists>r. k' = b @ r \<and> (a @ r, n) \<in> set fs) \<or> (k', n) \<in> set fs \<and> \<not> prefix a k' \<and> \<not> prefix b k'" for k' n
  proof
    assume "(k', n) \<in> set (move_tree fs a b)"
    then obtain k where "(k, n) \<in> set fs" "\<not> prefix b k \<or> prefix a k" "k' = (if prefix a k then b @ drop (length a) k else k)"
      by (auto simp: move_tree_def split: if_splits)
    then show "(\<exists>r. k' = b @ r \<and> (a @ r, n) \<in> set fs) \<or> (k', n) \<in> set fs \<and> \<not> prefix a k' \<and> \<not> prefix b k'"
      by (cases "prefix a k") (auto elim: prefixE)
  next
    have moved: "(b @ r, n) \<in> set (move_tree fs a b)" if "(a @ r, n) \<in> set fs" for r
    proof -
      have "(\<lambda>(k, n). if prefix a k then (b @ drop (length a) k, n) else (k, n)) (a @ r, n) = (b @ r, n)" by simp
      moreover have "(a @ r, n) \<in> set (filter (\<lambda>(k, n). \<not> prefix b k \<or> prefix a k) fs)" using that by simp
      ultimately show ?thesis unfolding move_tree_def set_map by (rule image_eqI[OF sym])
    qed
    have "(k', n) \<in> set (move_tree fs a b)" if "(k', n) \<in> set fs" "\<not> prefix a k'" "\<not> prefix b k'"
    proof -
      have "(\<lambda>(k, n). if prefix a k then (b @ drop (length a) k, n) else (k, n)) (k', n) = (k', n)" using that by simp
      moreover have "(k', n) \<in> set (filter (\<lambda>(k, n). \<not> prefix b k \<or> prefix a k) fs)" using that by simp
      ultimately show ?thesis unfolding move_tree_def set_map by (rule image_eqI[OF sym])
    qed
    with moved show "(\<exists>r. k' = b @ r \<and> (a @ r, n) \<in> set fs) \<or> (k', n) \<in> set fs \<and> \<not> prefix a k' \<and> \<not> prefix b k' \<Longrightarrow>
        (k', n) \<in> set (move_tree fs a b)" by blast
  qed
  have bN: "b \<noteq> []" using \<open>\<not> prefix b a\<close> by auto
  show ?thesis
  proof (rule fs_okI)
    have "inj_on (\<lambda>k. if prefix a k then b @ drop (length a) k else k) {k. \<not> prefix b k \<or> prefix a k}"
      unfolding inj_on_def by (auto simp: prefix_def split: if_splits)
    moreover have d: "distinct (map fst (filter (\<lambda>(k, n). \<not> prefix b k \<or> prefix a k) fs))"
      using ok by (simp add: fs_ok_def gomap_ok_def distinct_map_filter)
    ultimately have "distinct (map (\<lambda>k. if prefix a k then b @ drop (length a) k else k)
        (map fst (filter (\<lambda>(k, n). \<not> prefix b k \<or> prefix a k) fs)))"
      unfolding distinct_map[of _ "map fst xs" for xs] by (intro conjI) (assumption, erule inj_on_subset, auto)
    then show "gomap_ok (move_tree fs a b)"
      by (simp add: gomap_ok_def move_tree_def comp_def case_prod_beta if_distrib cong: if_cong)
  next
    fix k' n assume "(k', n) \<in> set (move_tree fs a b)"
    then consider r where "k' = b @ r" "(a @ r, n) \<in> set fs" | "(k', n) \<in> set fs" "\<not> prefix a k'" "\<not> prefix b k'"
      using mem by blast
    then show "k' \<noteq> [] \<and> (butlast k' = [] \<or> (butlast k', FDir) \<in> set (move_tree fs a b))"
    proof cases
      case (1 r)
      show ?thesis
      proof (cases "r = []")
        case True
        have "butlast b = [] \<or> (butlast b, FDir) \<in> set fs" using b by (auto simp: fs_at_def dest: map_of_SomeD split: if_splits)
        moreover have "\<not> prefix a (butlast b)" using a(2) prefix_butlast by blast
        moreover have "\<not> prefix b (butlast b)" using bN by (metis append_butlast_last_id not_Cons_self2 prefix_order.antisym prefixeq_butlast same_append_eq append_Nil2)
        ultimately show ?thesis using 1(1) True bN mem by auto
      next
        case False
        then have "(a @ butlast r, FDir) \<in> set fs" using fs_okE[OF ok 1(2)] aN by (auto simp: butlast_append)
        then show ?thesis using 1(1) False bN mem by (auto simp: butlast_append)
      qed
    next
      case 2
      then show ?thesis using fs_okE[OF ok 2(1)] prefix_butlast mem by blast
    qed
  qed
qed

section \<open>Every operation keeps a well-formed file system\<close>

lemma fs_ok_mkdir_one: "mkdir_one fs p = Inr fs' \<Longrightarrow> fs_ok fs \<Longrightarrow> fs_ok fs'"
  by (elim mkdir_one_cases) (simp_all add: fs_ok_mput)

lemma fs_ok_mkdir_list: "mkdir_list fs ps = Inr fs' \<Longrightarrow> fs_ok fs \<Longrightarrow> fs_ok fs'"
  by (induction ps arbitrary: fs) (auto dest: fs_ok_mkdir_one split: sum.splits)

lemma fs_ok_mkdir_all: "mkdir_all fs p = Inr fs' \<Longrightarrow> fs_ok fs \<Longrightarrow> fs_ok fs'"
  by (auto simp: mkdir_all_def intro: fs_ok_mkdir_list)

lemma fs_ok_write_at:
  assumes "write_at fs p mode data = Inr fs'" "fs_ok fs"
  shows "fs_ok fs'"
proof -
  obtain q m where q: "fs_at fs (butlast q) = Some FDir" "fs_at fs q \<noteq> Some FDir" "fs' = mput q (FFile data m) fs"
    using assms(1) by (auto simp: write_at_def split: option.splits if_splits fnode.splits)
  then have "q \<noteq> []" by auto
  then show ?thesis using fs_ok_mput[OF assms(2)] q by simp
qed

lemma fs_ok_symlink_at: "fs_ok fs \<Longrightarrow> fs_ok (symlink_at fs target p)"
proof (cases "locate_link fs p")
  case (Some q)
  moreover have "fs_at fs q = None \<Longrightarrow> q \<noteq> []" by auto
  ultimately show "fs_ok fs \<Longrightarrow> ?thesis" by (auto simp: symlink_at_def fs_ok_mput)
qed (simp add: symlink_at_def)

lemma fs_ok_remove_all: "fs_ok fs \<Longrightarrow> fs_ok (remove_all fs p)"
  by (simp add: remove_all_def fs_ok_remove split: option.split)

lemma fs_ok_rename_at:
  assumes "rename_at fs p q = Inr fs'" "fs_ok fs"
  shows "fs_ok fs'"
proof -
  obtain a b where l: "locate_link fs p = Some a" "locate_link fs q = Some b"
    using assms(1) by (auto simp: rename_at_def split: option.splits)
  then consider "fs' = fs" | "fs_at fs a \<noteq> None" "\<not> prefix a b" "fs_at fs (butlast b) = Some FDir"
      "fs_at fs b \<noteq> Some FDir \<or> children fs b = []" "fs' = move_tree fs a b"
    using assms(1) unfolding rename_at_def by (simp split: option.splits fnode.splits if_splits)
  then show ?thesis by cases (use assms(2) fs_ok_move in auto)
qed

lemmas fs_ok_ops = fs_ok_mkdir_all fs_ok_write_at fs_ok_symlink_at fs_ok_remove_all fs_ok_rename_at

end
