(* ===== verification/Extract.thy ===== *)
theory Extract
  imports Filesys
begin

text \<open>
  Unpacking archives: \<open>extractTarGz\<close> of \<open>binaries/binaries.go\<close> and \<open>unpack\<close>, \<open>untar\<close>, \<open>unzip\<close>,
  \<open>writeFile\<close> and \<open>inside\<close> of \<open>binaries/download.go\<close>. The gzip, tar and zip readers are
  parameters that give the entries, possibly followed by an error. Every entry's path is checked
  to be inside the destination by its text; that check is exact for paths, and keeps an archive
  without symbolic links inside. An archive with a link can write through it.
\<close>

section \<open>Definitions\<close>

datatype entry_kind = KindDir | KindReg | KindSymlink | KindOther

record entry =
  en_name :: string
  en_kind :: entry_kind
  en_mode :: nat
  en_body :: string
  en_link :: string

datatype extract_error = BadArchive string | UnsafePath string | FileFailed string

text \<open>What a reader yields: the entries up to the end or up to an error.\<close>

type_synonym stream = "entry list \<times> string option"

text \<open>\<open>mode & 0o777\<close>. The default modes are 0o644 = 420 and 0o755 = 493.\<close>

definition perm_bits :: "nat \<Rightarrow> nat" where
  "perm_bits m = m mod 512"

definition lift_io :: "fs \<Rightarrow> string + fs \<Rightarrow> extract_error option \<times> fs" where
  "lift_io fs r = (case r of Inl e \<Rightarrow> (Some (FileFailed e), fs) | Inr fs' \<Rightarrow> (None, fs'))"

text \<open>\<open>inside\<close>, by text.\<close>

definition inside :: "string \<Rightarrow> string \<Rightarrow> bool" where
  "inside dest target = (target = clean dest \<or> has_prefix target (clean dest @ [slash]))"

text \<open>\<open>os.MkdirAll(filepath.Dir(target))\<close> and then a write.\<close>

definition mkdir_write :: "fs \<Rightarrow> string \<Rightarrow> nat \<Rightarrow> string \<Rightarrow> extract_error option \<times> fs" where
  "mkdir_write fs target mode data = (case mkdir_all fs (comps (dir_of target)) of
     Inl e \<Rightarrow> (Some (FileFailed e), fs)
   | Inr fs1 \<Rightarrow> lift_io fs1 (write_at fs1 (comps target) mode data))"

definition write_file :: "fs \<Rightarrow> string \<Rightarrow> string \<Rightarrow> nat \<Rightarrow> extract_error option \<times> fs" where
  "write_file fs target data mode = mkdir_write fs target (if mode = 0 then 420 else mode) data"

text \<open>One entry of \<open>extractTarGz\<close>, and the loop over the entries.\<close>

definition extract_entry :: "string \<Rightarrow> fs \<Rightarrow> entry \<Rightarrow> extract_error option \<times> fs" where
  "extract_entry dest fs e =
     (let target = join_path [dest, en_name e] in
      if \<not> has_prefix target (clean dest @ [slash]) \<and> target \<noteq> clean dest
      then (Some (UnsafePath (en_name e)), fs)
      else (case en_kind e of
          KindDir \<Rightarrow> lift_io fs (mkdir_all fs (comps target))
        | KindReg \<Rightarrow> mkdir_write fs target (perm_bits (en_mode e)) (en_body e)
        | KindSymlink \<Rightarrow> (None, symlink_at fs (en_link e) (comps target))
        | KindOther \<Rightarrow> (None, fs)))"

text \<open>One entry of \<open>untar\<close>.\<close>

definition untar_entry :: "string \<Rightarrow> fs \<Rightarrow> entry \<Rightarrow> extract_error option \<times> fs" where
  "untar_entry dest fs e =
     (let target = join_path [dest, en_name e] in
      if \<not> inside dest target then (Some (UnsafePath (en_name e)), fs)
      else (case en_kind e of
          KindDir \<Rightarrow> lift_io fs (mkdir_all fs (comps target))
        | KindReg \<Rightarrow> write_file fs target (en_body e) (perm_bits (en_mode e))
        | KindSymlink \<Rightarrow> (case mkdir_all fs (comps (dir_of target)) of
            Inl e \<Rightarrow> (Some (FileFailed e), fs)
          | Inr fs1 \<Rightarrow> (None, symlink_at fs1 (en_link e) (comps target)))
        | KindOther \<Rightarrow> (None, fs)))"

text \<open>One file of \<open>unzip\<close>: everything that is not a directory is written as a file.\<close>

definition unzip_entry :: "string \<Rightarrow> fs \<Rightarrow> entry \<Rightarrow> extract_error option \<times> fs" where
  "unzip_entry dest fs e =
     (let target = join_path [dest, en_name e] in
      if \<not> inside dest target then (Some (UnsafePath (en_name e)), fs)
      else if en_kind e = KindDir then lift_io fs (mkdir_all fs (comps target))
      else write_file fs target (en_body e) (perm_bits (en_mode e)))"

fun extract_loop :: "(fs \<Rightarrow> entry \<Rightarrow> extract_error option \<times> fs) \<Rightarrow> fs \<Rightarrow> entry list \<Rightarrow> string option \<Rightarrow> extract_error option \<times> fs" where
  "extract_loop step fs [] rest = (map_option BadArchive rest, fs)"
| "extract_loop step fs (e # es) rest = (case step fs e of
     (Some err, fs') \<Rightarrow> (Some err, fs')
   | (None, fs') \<Rightarrow> extract_loop step fs' es rest)"

definition extract_tar_gz :: "(string \<Rightarrow> string + stream) \<Rightarrow> string \<Rightarrow> string \<Rightarrow> fs \<Rightarrow> extract_error option \<times> fs" where
  "extract_tar_gz read_tar data dest fs = (case read_tar data of
     Inl e \<Rightarrow> (Some (BadArchive e), fs)
   | Inr (es, rest) \<Rightarrow> extract_loop (extract_entry dest) fs es rest)"

definition untar :: "(string \<Rightarrow> string + stream) \<Rightarrow> string \<Rightarrow> string \<Rightarrow> fs \<Rightarrow> extract_error option \<times> fs" where
  "untar read_tar data dest fs = (case read_tar data of
     Inl e \<Rightarrow> (Some (BadArchive e), fs)
   | Inr (es, rest) \<Rightarrow> extract_loop (untar_entry dest) fs es rest)"

definition unzip_all :: "(string \<Rightarrow> string + stream) \<Rightarrow> string \<Rightarrow> string \<Rightarrow> fs \<Rightarrow> extract_error option \<times> fs" where
  "unzip_all read_zip data dest fs = (case read_zip data of
     Inl e \<Rightarrow> (Some (BadArchive e), fs)
   | Inr (es, rest) \<Rightarrow> extract_loop (unzip_entry dest) fs es rest)"

text \<open>\<open>unpack\<close>: by the first bytes of the file, and else one executable named after the URL. The
  URL parser gives the path, or fails.\<close>

definition gzip_magic :: "string \<Rightarrow> bool" where
  "gzip_magic data = has_prefix data [CHR 0x1F, CHR 0x8B]"

definition zip_magic :: "string \<Rightarrow> bool" where
  "zip_magic data = has_prefix data [CHR ''P'', CHR ''K'', CHR 0x03, CHR 0x04]"

definition download_name :: "(string \<Rightarrow> string option) \<Rightarrow> string \<Rightarrow> string" where
  "download_name url_path rawURL = (case url_path rawURL of
     None \<Rightarrow> ''download''
   | Some p \<Rightarrow> if base_of p \<noteq> [] \<and> base_of p \<noteq> ''.'' \<and> base_of p \<noteq> ''/'' then base_of p else ''download'')"

definition unpack ::
  "(string \<Rightarrow> string + stream) \<Rightarrow> (string \<Rightarrow> string + stream) \<Rightarrow> (string \<Rightarrow> string option) \<Rightarrow>
   string \<Rightarrow> string \<Rightarrow> string \<Rightarrow> fs \<Rightarrow> extract_error option \<times> fs" where
  "unpack read_tar read_zip url_path file dest rawURL fs = (case read_at fs (comps file) of
     None \<Rightarrow> (Some (FileFailed ''no such file or directory''), fs)
   | Some data \<Rightarrow>
       if gzip_magic data then untar read_tar data dest fs
       else if zip_magic data then unzip_all read_zip data dest fs
       else lift_io fs (write_at fs (comps (join_path [dest, download_name url_path rawURL])) 493 data))"

section \<open>The check on paths\<close>

lemma comps_dir_join:
  assumes "rooted p"
  shows "comps (dir_of (clean p)) = butlast (comps p)"
proof (cases "comps p" rule: rev_cases)
  case Nil
  then have "clean p = ''/''" using assms by (simp add: clean_rooted render_def)
  moreover have "comps (dir_of ''/'') = []" by code_simp
  ultimately show ?thesis using Nil by simp
next
  case (snoc cs c)
  have pl: "list_all plain_comp (cs @ [c])" using rooted_comps_plain[OF assms] snoc by simp
  then have c: "slash \<notin> set c" "c \<noteq> []" by (auto simp: plain_comp_def)
  have r: "clean p = render True (cs @ [c])" using assms snoc by (simp add: clean_rooted)
  have split: "clean p = (slash # (if cs = [] then [] else join_with [slash] cs @ [slash])) @ c"
    unfolding r by (simp add: render_def join_with_append)
  have tw: "rev (dropWhile (\<lambda>x. x \<noteq> slash) (rev (clean p))) = slash # (if cs = [] then [] else join_with [slash] cs @ [slash])"
    unfolding split using c by (auto simp: dropWhile_append dropWhile_eq_Nil_conv)
  have "comps (slash # (if cs = [] then [] else join_with [slash] cs @ [slash])) = cs"
  proof (cases "cs = []")
    case True
    then show ?thesis by (simp add: comps_def clean_comps_def rooted_def clean_step_def)
  next
    case False
    have "split_on slash (join_with [slash] cs) = cs"
      using False pl by (intro split_join) (auto simp: plain_comp_def list_all_iff)
    then have "split_on slash (slash # join_with [slash] cs @ [slash]) = [] # cs @ [[]]"
      using split_on_append[of slash "join_with [slash] cs" "[]"] by simp
    then show ?thesis
      using False pl clean_fold_plain[of cs True "[]"]
      by (simp add: comps_def clean_comps_def rooted_def clean_step_def)
  qed
  then show ?thesis
    using snoc tw comps_clean by (simp add: dir_of_def comps_clean rooted_def)
qed

lemma inside_iff:
  assumes "rooted dest" "comps dest \<noteq> []"
  shows "inside dest (join_path [dest, name]) \<longleftrightarrow> prefix (comps dest) (comps (join_path [dest, name]))"
proof -
  let ?t = "join_path [dest, name]"
  have t: "rooted ?t" using assms(1) by (rule rooted_join)
  then have "?t = render True (comps ?t)" using join_path_clean[OF assms(1)] clean_rooted by metis
  then show ?thesis
    using render_prefix_iff[OF rooted_comps_plain[OF assms(1)] rooted_comps_plain[OF t] assms(2)]
    by (simp add: inside_def clean_rooted[OF assms(1)])
qed

section \<open>The file system stays well formed\<close>

lemma snd_lift_io: "fs_ok fs \<Longrightarrow> (\<And>fs'. r = Inr fs' \<Longrightarrow> fs_ok fs') \<Longrightarrow> fs_ok (snd (lift_io fs r))"
  by (auto simp: lift_io_def split: sum.splits)

lemma fs_ok_mkdir_write: "fs_ok fs \<Longrightarrow> fs_ok (snd (mkdir_write fs target mode data))"
  by (auto simp: mkdir_write_def split: sum.splits intro!: snd_lift_io dest: fs_ok_ops(1,2))

lemma fs_ok_entry_steps:
  assumes "fs_ok fs"
  shows "fs_ok (snd (extract_entry dest fs e))" "fs_ok (snd (untar_entry dest fs e))" "fs_ok (snd (unzip_entry dest fs e))"
  using assms
  by (auto simp: extract_entry_def untar_entry_def unzip_entry_def Let_def write_file_def fs_ok_mkdir_write fs_ok_ops(3)
      split: entry_kind.splits sum.splits intro!: snd_lift_io fs_ok_ops(3) dest: fs_ok_ops(1))

lemma fs_ok_extract_loop:
  assumes "\<And>fs e. fs_ok fs \<Longrightarrow> fs_ok (snd (step fs e))"
  shows "fs_ok fs \<Longrightarrow> fs_ok (snd (extract_loop step fs es rest))"
proof (induction es arbitrary: fs)
  case (Cons e es)
  then show ?case using assms[of fs e] by (auto split: prod.splits option.splits)
qed simp

lemma fs_ok_extract:
  assumes "fs_ok fs"
  shows "fs_ok (snd (extract_tar_gz read_tar data dest fs))" "fs_ok (snd (unpack read_tar read_zip url_path file dest rawURL fs))"
  using assms fs_ok_entry_steps
  by (auto simp: extract_tar_gz_def unpack_def untar_def unzip_all_def intro!: fs_ok_extract_loop snd_lift_io
      dest: fs_ok_ops(2) split: sum.splits option.splits)

section \<open>What stays as it was\<close>

text \<open>No link on the way to \<open>d\<close> nor below it; and nothing outside \<open>d\<close> changes, except that missing
  directories on the way to \<open>d\<close> may be made.\<close>

definition clean_tree :: "fs \<Rightarrow> string list \<Rightarrow> bool" where
  "clean_tree fs d \<longleftrightarrow> (\<forall>p t. prefix d p \<or> prefix p d \<longrightarrow> fs_at fs p \<noteq> Some (FLink t))"

definition keeps_outside :: "string list \<Rightarrow> fs \<Rightarrow> fs \<Rightarrow> bool" where
  "keeps_outside d fs fs' \<longleftrightarrow> (\<forall>p. \<not> prefix d p \<longrightarrow> fs_at fs p \<noteq> None \<or> \<not> prefix p d \<longrightarrow> fs_at fs' p = fs_at fs p)"

lemma keeps_outside_refl: "keeps_outside d fs fs"
  by (simp add: keeps_outside_def)

lemma keeps_outside_trans: "keeps_outside d fs fs1 \<Longrightarrow> keeps_outside d fs1 fs2 \<Longrightarrow> keeps_outside d fs fs2"
  unfolding keeps_outside_def by metis

lemma clean_tree_link_free: "clean_tree fs d \<Longrightarrow> prefix d p \<Longrightarrow> link_free fs p"
  unfolding clean_tree_def link_free_def by (meson prefix_same_cases)

lemma clean_tree_link_free_above: "clean_tree fs d \<Longrightarrow> prefix p d \<Longrightarrow> link_free fs p"
  unfolding clean_tree_def link_free_def by (meson prefix_order.trans)

lemma clean_tree_step:
  assumes "clean_tree fs d" "\<And>r. link_free fs r \<Longrightarrow> link_free fs' r"
  shows "clean_tree fs' d"
proof -
  have "link_free fs' p" if "prefix d p \<or> prefix p d" for p
    using assms clean_tree_link_free clean_tree_link_free_above that by blast
  then show ?thesis unfolding clean_tree_def link_free_def by blast
qed

lemma mkdir_all_safe:
  assumes "clean_tree fs d" "mkdir_all fs t = Inr fs'" "prefix d t \<or> prefix t d" "ordinary t"
  shows "clean_tree fs' d \<and> keeps_outside d fs fs' \<and> fs_at fs' t = Some FDir \<and>
    (\<forall>q. fs_at fs q \<noteq> None \<longrightarrow> fs_at fs' q = fs_at fs q)"
proof -
  have lf: "link_free fs t"
    using assms(1,3) clean_tree_link_free clean_tree_link_free_above by blast
  note f = mkdir_all_frame[OF assms(2) lf assms(4)]
  have "keeps_outside d fs fs'"
    unfolding keeps_outside_def
  proof (intro allI impI)
    fix p assume p: "\<not> prefix d p" "fs_at fs p \<noteq> None \<or> \<not> prefix p d"
    show "fs_at fs' p = fs_at fs p"
    proof (cases "prefix p t")
      case True
      then have "prefix p d" using assms(3) p(1) prefix_same_cases prefix_order.trans by metis
      then show ?thesis using p(2) f by simp
    qed (use f in simp)
  qed
  then show ?thesis using f clean_tree_step[OF assms(1)] by blast
qed

lemma write_at_safe:
  assumes "clean_tree fs d" "write_at fs t mode data = Inr fs'" "prefix d t" "ordinary t"
  shows "clean_tree fs' d \<and> keeps_outside d fs fs' \<and> (\<forall>q. q \<noteq> t \<longrightarrow> fs_at fs' q = fs_at fs q) \<and>
    (\<exists>m. fs_at fs' t = Some (FFile data m))"
proof -
  note f = write_at_frame[OF assms(2) clean_tree_link_free[OF assms(1,3)] assms(4)]
  then have "keeps_outside d fs fs'" using assms(3) by (auto simp: keeps_outside_def)
  then show ?thesis using f clean_tree_step[OF assms(1)] by blast
qed

section \<open>The contract of an unpacking step\<close>

text \<open>What the loop relies on of one step, for entries that are \<open>fine\<close>: it stays inside \<open>d\<close>, leaves
  what is there alone but for the file it writes, and writes that file's contents.\<close>

locale unpacker =
  fixes unpack_step :: "fs \<Rightarrow> entry \<Rightarrow> extract_error option \<times> fs"
    and d :: "string list"
    and target :: "entry \<Rightarrow> string list"
    and writes :: "entry \<Rightarrow> bool"
    and fine :: "entry \<Rightarrow> bool"
  assumes step_safe: "clean_tree fs d \<Longrightarrow> fine e \<Longrightarrow> unpack_step fs e = (r, fs') \<Longrightarrow> clean_tree fs' d \<and> keeps_outside d fs fs'"
    and step_keeps: "clean_tree fs d \<Longrightarrow> fine e \<Longrightarrow> unpack_step fs e = (None, fs') \<Longrightarrow> fs_at fs p \<noteq> None \<Longrightarrow>
      \<not> (writes e \<and> p = target e) \<Longrightarrow> fs_at fs' p = fs_at fs p"
    and step_writes: "clean_tree fs d \<Longrightarrow> fine e \<Longrightarrow> unpack_step fs e = (None, fs') \<Longrightarrow> writes e \<Longrightarrow>
      \<exists>m. fs_at fs' (target e) = Some (FFile (en_body e) m)"
begin

lemma loop_safe:
  assumes "extract_loop unpack_step fs es rest = (r, fs')" "clean_tree fs d" "\<forall>e\<in>set es. fine e"
  shows "clean_tree fs' d \<and> keeps_outside d fs fs'"
  using assms
proof (induction es arbitrary: fs)
  case Nil
  then show ?case by (simp add: keeps_outside_refl)
next
  case (Cons e es)
  obtain r1 fs1 where s: "unpack_step fs e = (r1, fs1)" by (cases "unpack_step fs e")
  have s1: "clean_tree fs1 d" "keeps_outside d fs fs1"
    using step_safe[OF Cons.prems(2) _ s] Cons.prems(3) by auto
  show ?case
  proof (cases r1)
    case None
    then have "extract_loop unpack_step fs1 es rest = (r, fs')" using Cons.prems(1) s by simp
    then show ?thesis using Cons.IH[OF _ s1(1)] Cons.prems(3) keeps_outside_trans[OF s1(2)] by auto
  next
    case (Some x)
    then show ?thesis using Cons.prems(1) s s1 by auto
  qed
qed

lemma loop_keeps:
  assumes "extract_loop unpack_step fs es rest = (None, fs')" "clean_tree fs d" "\<forall>e\<in>set es. fine e"
    "fs_at fs p \<noteq> None" "\<forall>e\<in>set es. \<not> (writes e \<and> target e = p)"
  shows "fs_at fs' p = fs_at fs p"
  using assms
proof (induction es arbitrary: fs)
  case (Cons e es)
  obtain fs1 where s: "unpack_step fs e = (None, fs1)" "extract_loop unpack_step fs1 es rest = (None, fs')"
    using Cons.prems(1) by (cases "unpack_step fs e") (auto split: option.splits)
  have fe: "fine e" using Cons.prems(3) by simp
  have "clean_tree fs1 d" using step_safe[OF Cons.prems(2) fe s(1)] by simp
  moreover have "fs_at fs1 p = fs_at fs p"
    by (rule step_keeps[OF Cons.prems(2) fe s(1) Cons.prems(4)]) (use Cons.prems(5) in auto)
  ultimately show ?case using Cons.IH[OF s(2)] Cons.prems(3,4,5) by simp
qed simp

lemma loop_contents:
  assumes "extract_loop unpack_step fs (es @ e # es') rest = (None, fs')" "clean_tree fs d"
    "\<forall>x\<in>set (es @ e # es'). fine x" "writes e" "\<forall>x\<in>set es'. \<not> (writes x \<and> target x = target e)"
  shows "\<exists>m. fs_at fs' (target e) = Some (FFile (en_body e) m)"
  using assms
proof (induction es arbitrary: fs)
  case Nil
  obtain fs1 where s: "unpack_step fs e = (None, fs1)" "extract_loop unpack_step fs1 es' rest = (None, fs')"
    using Nil.prems(1) by (cases "unpack_step fs e") (auto split: option.splits)
  have fe: "fine e" using Nil.prems(3) by simp
  obtain m where m: "fs_at fs1 (target e) = Some (FFile (en_body e) m)"
    using step_writes[OF Nil.prems(2) fe s(1) Nil.prems(4)] by blast
  have "clean_tree fs1 d" using step_safe[OF Nil.prems(2) fe s(1)] by simp
  then have "fs_at fs' (target e) = fs_at fs1 (target e)"
    by (rule loop_keeps[OF s(2)]) (use Nil.prems(3,5) m in auto)
  then show ?case using m by simp
next
  case (Cons x xs)
  obtain fs1 where s: "unpack_step fs x = (None, fs1)" "extract_loop unpack_step fs1 (xs @ e # es') rest = (None, fs')"
    using Cons.prems(1) by (cases "unpack_step fs x") (auto split: option.splits)
  have "clean_tree fs1 d" using step_safe[OF Cons.prems(2) _ s(1)] Cons.prems(3) by simp
  then show ?case using Cons.IH[OF s(2)] Cons.prems(3,4,5) by simp
qed

end

section \<open>The three extractors\<close>

definition dest_ok :: "string \<Rightarrow> bool" where
  "dest_ok dest = (rooted dest \<and> comps dest \<noteq> [])"

definition entry_path :: "string \<Rightarrow> entry \<Rightarrow> string list" where
  "entry_path dest e = comps (join_path [dest, en_name e])"

definition tar_writes :: "entry \<Rightarrow> bool" where
  "tar_writes e = (en_kind e = KindReg)"

definition tar_fine :: "string \<Rightarrow> entry \<Rightarrow> bool" where
  "tar_fine dest e = (dest_ok dest \<and> en_kind e \<noteq> KindSymlink)"

definition zip_writes :: "entry \<Rightarrow> bool" where
  "zip_writes e = (en_kind e \<noteq> KindDir)"

definition zip_fine :: "string \<Rightarrow> entry \<Rightarrow> bool" where
  "zip_fine dest e = dest_ok dest"

lemma entry_path_ordinary: "rooted dest \<Longrightarrow> ordinary (entry_path dest e)"
  unfolding entry_path_def by (rule plain_ordinary) (simp add: rooted_comps_plain rooted_join)

lemma entry_inside:
  assumes "dest_ok dest" "inside dest (join_path [dest, en_name e])"
  shows "prefix (comps dest) (entry_path dest e)"
  using assms inside_iff unfolding dest_ok_def entry_path_def by blast

lemma entry_dir:
  assumes "dest_ok dest"
  shows "comps (dir_of (join_path [dest, en_name e])) = butlast (entry_path dest e)"
proof -
  have r: "rooted dest" using assms by (simp add: dest_ok_def)
  then show ?thesis
    using comps_dir_join[OF rooted_join[OF r, of "en_name e"]] join_path_clean[OF r, of "en_name e"]
    by (simp add: entry_path_def)
qed

lemma butlast_near: "prefix d t \<Longrightarrow> prefix d (butlast t) \<or> prefix (butlast t) d"
  by (metis prefix_same_cases prefixeq_butlast)

lemma mkdir_write_safe:
  assumes "clean_tree fs (comps dest)" "dest_ok dest" "prefix (comps dest) (entry_path dest e)"
    "mkdir_write fs (join_path [dest, en_name e]) mode data = (r, fs')"
  shows "clean_tree fs' (comps dest) \<and> keeps_outside (comps dest) fs fs' \<and>
    (r = None \<longrightarrow> (\<exists>m. fs_at fs' (entry_path dest e) = Some (FFile data m)) \<and>
      (\<forall>p. fs_at fs p \<noteq> None \<longrightarrow> p \<noteq> entry_path dest e \<longrightarrow> fs_at fs' p = fs_at fs p))"
proof (cases "mkdir_all fs (butlast (entry_path dest e))")
  case (Inl x)
  then show ?thesis
    using assms(1,4) by (auto simp: mkdir_write_def entry_dir[OF assms(2)] keeps_outside_refl)
next
  case (Inr fs1)
  have ord: "ordinary (entry_path dest e)" using assms(2) entry_path_ordinary by (simp add: dest_ok_def)
  then have ordb: "ordinary (butlast (entry_path dest e))" using ordinary_prefix prefixeq_butlast by blast
  note m = mkdir_all_safe[OF assms(1) Inr butlast_near[OF assms(3)] ordb]
  show ?thesis
  proof (cases "write_at fs1 (entry_path dest e) mode data")
    case (Inl x)
    then show ?thesis using assms(4) Inr m
      by (auto simp: mkdir_write_def entry_dir[OF assms(2)] lift_io_def entry_path_def)
  next
    case (Inr fs2)
    have w: "clean_tree fs2 (comps dest) \<and> keeps_outside (comps dest) fs1 fs2 \<and>
        (\<forall>q. q \<noteq> entry_path dest e \<longrightarrow> fs_at fs2 q = fs_at fs1 q) \<and> (\<exists>m. fs_at fs2 (entry_path dest e) = Some (FFile data m))"
      by (rule write_at_safe[OF _ Inr assms(3) ord]) (use m in simp)
    have "r = None" "fs' = fs2"
      using assms(4) Inr \<open>mkdir_all fs _ = Inr fs1\<close>
      by (auto simp: mkdir_write_def entry_dir[OF assms(2)] lift_io_def entry_path_def)
    then show ?thesis using m w keeps_outside_trans by metis
  qed
qed

lemma mkdir_entry_safe:
  assumes "clean_tree fs (comps dest)" "dest_ok dest" "prefix (comps dest) (entry_path dest e)"
    "lift_io fs (mkdir_all fs (entry_path dest e)) = (r, fs')"
  shows "clean_tree fs' (comps dest) \<and> keeps_outside (comps dest) fs fs' \<and>
    (\<forall>p. fs_at fs p \<noteq> None \<longrightarrow> fs_at fs' p = fs_at fs p)"
proof (cases "mkdir_all fs (entry_path dest e)")
  case (Inl x)
  then show ?thesis using assms(1,4) by (auto simp: lift_io_def keeps_outside_refl)
next
  case (Inr fs1)
  then show ?thesis
    using mkdir_all_safe[OF assms(1) Inr] assms entry_path_ordinary
    by (auto simp: lift_io_def dest_ok_def)
qed

lemma extract_entry_cases:
  "extract_entry dest fs e =
     (if \<not> inside dest (join_path [dest, en_name e]) then (Some (UnsafePath (en_name e)), fs)
      else (case en_kind e of
          KindDir \<Rightarrow> lift_io fs (mkdir_all fs (entry_path dest e))
        | KindReg \<Rightarrow> mkdir_write fs (join_path [dest, en_name e]) (perm_bits (en_mode e)) (en_body e)
        | KindSymlink \<Rightarrow> (None, symlink_at fs (en_link e) (entry_path dest e))
        | KindOther \<Rightarrow> (None, fs)))"
  by (auto simp: extract_entry_def Let_def inside_def entry_path_def split: entry_kind.split)

text \<open>All three laws of one step at once, for each extractor.\<close>

definition step_ok :: "fs \<Rightarrow> string list \<Rightarrow> string list \<Rightarrow> string \<Rightarrow> bool \<Rightarrow> extract_error option \<Rightarrow> fs \<Rightarrow> bool" where
  "step_ok fs d t body w r fs' \<longleftrightarrow> clean_tree fs' d \<and> keeps_outside d fs fs' \<and>
     (r = None \<longrightarrow> (w \<longrightarrow> (\<exists>m. fs_at fs' t = Some (FFile body m))) \<and>
        (\<forall>p. fs_at fs p \<noteq> None \<longrightarrow> \<not> (w \<and> p = t) \<longrightarrow> fs_at fs' p = fs_at fs p))"

lemma step_ok_same: "clean_tree fs d \<Longrightarrow> r \<noteq> None \<or> \<not> w \<Longrightarrow> step_ok fs d t body w r fs"
  by (auto simp: step_ok_def keeps_outside_refl)

lemma extract_entry_ok:
  assumes "clean_tree fs (comps dest)" "tar_fine dest e" "extract_entry dest fs e = (r, fs')"
  shows "step_ok fs (comps dest) (entry_path dest e) (en_body e) (tar_writes e) r fs'"
proof (cases "inside dest (join_path [dest, en_name e])")
  case True
  have d: "dest_ok dest" using assms(2) by (simp add: tar_fine_def)
  note i = entry_inside[OF d True]
  show ?thesis
  proof (cases "en_kind e")
    case KindDir
    then show ?thesis
      using assms(3) True mkdir_entry_safe[OF assms(1) d i, of r fs']
      by (simp add: extract_entry_cases step_ok_def tar_writes_def)
  next
    case KindReg
    then show ?thesis
      using assms(3) True mkdir_write_safe[OF assms(1) d i, of "perm_bits (en_mode e)" "en_body e" r fs']
      by (auto simp: extract_entry_cases step_ok_def tar_writes_def)
  qed (use assms True step_ok_same in \<open>auto simp: extract_entry_cases tar_fine_def tar_writes_def\<close>)
qed (use assms step_ok_same in \<open>auto simp: extract_entry_cases\<close>)

lemma untar_entry_ok:
  assumes "clean_tree fs (comps dest)" "tar_fine dest e" "untar_entry dest fs e = (r, fs')"
  shows "step_ok fs (comps dest) (entry_path dest e) (en_body e) (tar_writes e) r fs'"
proof (cases "inside dest (join_path [dest, en_name e])")
  case True
  have d: "dest_ok dest" using assms(2) by (simp add: tar_fine_def)
  note i = entry_inside[OF d True]
  show ?thesis
  proof (cases "en_kind e")
    case KindDir
    then show ?thesis
      using assms(3) True mkdir_entry_safe[OF assms(1) d i, of r fs']
      by (simp add: untar_entry_def Let_def step_ok_def tar_writes_def flip: entry_path_def)
  next
    case KindReg
    then show ?thesis
      using assms(3) True mkdir_write_safe[OF assms(1) d i, where data = "en_body e" and r = r and fs' = fs']
      by (auto simp: untar_entry_def write_file_def Let_def step_ok_def tar_writes_def)
  qed (use assms True step_ok_same in \<open>auto simp: untar_entry_def tar_fine_def tar_writes_def\<close>)
qed (use assms step_ok_same in \<open>auto simp: untar_entry_def\<close>)

lemma unzip_entry_ok:
  assumes "clean_tree fs (comps dest)" "zip_fine dest e" "unzip_entry dest fs e = (r, fs')"
  shows "step_ok fs (comps dest) (entry_path dest e) (en_body e) (zip_writes e) r fs'"
proof (cases "inside dest (join_path [dest, en_name e])")
  case True
  have d: "dest_ok dest" using assms(2) by (simp add: zip_fine_def)
  note i = entry_inside[OF d True]
  show ?thesis
  proof (cases "en_kind e = KindDir")
    case True': True
    then show ?thesis
      using assms(3) True mkdir_entry_safe[OF assms(1) d i, of r fs']
      by (simp add: unzip_entry_def Let_def step_ok_def zip_writes_def flip: entry_path_def)
  next
    case False
    then show ?thesis
      using assms(3) True mkdir_write_safe[OF assms(1) d i, where data = "en_body e" and r = r and fs' = fs']
      by (auto simp: unzip_entry_def write_file_def Let_def step_ok_def zip_writes_def)
  qed
qed (use assms step_ok_same in \<open>auto simp: unzip_entry_def\<close>)

interpretation tgz: unpacker "extract_entry dest" "comps dest" "entry_path dest" tar_writes "tar_fine dest" for dest
  by unfold_locales (use extract_entry_ok in \<open>unfold step_ok_def, blast\<close>)+

interpretation tarball: unpacker "untar_entry dest" "comps dest" "entry_path dest" tar_writes "tar_fine dest" for dest
  by unfold_locales (use untar_entry_ok in \<open>unfold step_ok_def, blast\<close>)+

interpretation zipfile: unpacker "unzip_entry dest" "comps dest" "entry_path dest" zip_writes "zip_fine dest" for dest
  by unfold_locales (use unzip_entry_ok in \<open>unfold step_ok_def, blast\<close>)+

lemma loop_names_inside:
  assumes "extract_loop stp fs es rest = (None, fs')" "e \<in> set es"
    and "\<And>fs e. \<not> inside dest (join_path [dest, en_name e]) \<Longrightarrow> stp fs e = (Some (UnsafePath (en_name e)), fs)"
  shows "inside dest (join_path [dest, en_name e])"
  using assms(1,2)
proof (induction es arbitrary: fs)
  case (Cons x xs)
  obtain fs1 where s: "stp fs x = (None, fs1)" "extract_loop stp fs1 xs rest = (None, fs')"
    using Cons.prems(1) by (cases "stp fs x") (auto split: option.splits)
  show ?case
  proof (cases "e = x")
    case True
    then show ?thesis using s(1) assms(3)[of x fs] by (cases "inside dest (join_path [dest, en_name x])") auto
  next
    case False
    then show ?thesis using Cons.IH[OF s(2)] Cons.prems(2) by simp
  qed
qed simp

section \<open>Properties\<close>

text \<open>C11. Unpacking stays inside its directory. An archive without symbolic links, unpacked by either
  tar extractor, and any zip, changes nothing outside the destination, whether it succeeds or
  fails half way: every path that is not below the destination is as before, except that missing
  directories on the way to it may have been made. The destination is an absolute path other
  than the root with no link on the way to it or under it.\<close>

theorem unpacking_stays_inside:
  assumes "dest_ok dest" "clean_tree fs (comps dest)" "read_archive data = Inr (es, rest)"
    and "list_all (\<lambda>e. en_kind e \<noteq> KindSymlink) es"
  shows "keeps_outside (comps dest) fs (snd (extract_tar_gz read_archive data dest fs)) \<and>
    keeps_outside (comps dest) fs (snd (untar read_archive data dest fs)) \<and>
    keeps_outside (comps dest) fs (snd (unzip_all read_archive data dest fs))"
proof -
  have fine: "\<forall>e\<in>set es. tar_fine dest e" "\<forall>e\<in>set es. zip_fine dest e"
    using assms(1,4) by (auto simp: tar_fine_def zip_fine_def list_all_iff)
  show ?thesis
    using tgz.loop_safe[OF prod.collapse[symmetric] assms(2) fine(1), of rest]
      tarball.loop_safe[OF prod.collapse[symmetric] assms(2) fine(1), of rest]
      zipfile.loop_safe[OF prod.collapse[symmetric] assms(2) fine(2), of rest]
    by (simp add: extract_tar_gz_def untar_def unzip_all_def assms(3))
qed

definition example_entries :: "entry list" where
  "example_entries =
     [\<lparr>en_name = ''bin/'', en_kind = KindDir, en_mode = 493, en_body = [], en_link = []\<rparr>,
      \<lparr>en_name = ''bin/psql'', en_kind = KindReg, en_mode = 493, en_body = ''elf'', en_link = []\<rparr>,
      \<lparr>en_name = ''../../../etc/passwd'', en_kind = KindReg, en_mode = 420, en_body = ''root'', en_link = []\<rparr>]"

definition example_fs :: fs where
  "example_fs = [([''home''], FDir), ([''etc''], FDir), ([''etc'', ''passwd''], FFile ''users'' 420)]"

lemma example_dest: "dest_ok ''/home/x.tmp''" "clean_tree example_fs (comps ''/home/x.tmp'')"
proof -
  show "dest_ok ''/home/x.tmp''" by code_simp
  have "fs_at example_fs p \<noteq> Some (FLink t)" for p t
    by (simp add: fs_at_def example_fs_def)
  then show "clean_tree example_fs (comps ''/home/x.tmp'')" by (simp add: clean_tree_def)
qed

theorem unpacking_stays_inside_witness:
  "fst (extract_tar_gz (\<lambda>_. Inr (example_entries, None)) [] ''/home/x.tmp'' example_fs) = Some (UnsafePath ''../../../etc/passwd'') \<and>
   keeps_outside (comps ''/home/x.tmp'') example_fs
     (snd (extract_tar_gz (\<lambda>_. Inr (example_entries, None)) [] ''/home/x.tmp'' example_fs))"
proof -
  have "list_all (\<lambda>e. en_kind e \<noteq> KindSymlink) example_entries" by (simp add: example_entries_def)
  moreover have "fst (extract_tar_gz (\<lambda>_. Inr (example_entries, None)) [] ''/home/x.tmp'' example_fs)
      = Some (UnsafePath ''../../../etc/passwd'')"
    by code_simp
  ultimately show ?thesis
    using unpacking_stays_inside[OF example_dest, of "\<lambda>_. Inr (example_entries, None)" "[]" example_entries None] by simp
qed

text \<open>Unpacking that succeeds gives the archive: every entry's path is at or below the
  destination, and every regular file, where no later entry writes the same path, is there with
  its contents.\<close>

theorem unpacked_contents:
  assumes "dest_ok dest" "clean_tree fs (comps dest)" "read_archive data = Inr (es @ e # es', rest)"
    and "list_all (\<lambda>e. en_kind e \<noteq> KindSymlink) (es @ e # es')" "en_kind e = KindReg"
    and "list_all (\<lambda>x. en_kind x = KindReg \<longrightarrow> entry_path dest x \<noteq> entry_path dest e) es'"
    and "extract_tar_gz read_archive data dest fs = (None, fs') \<or> untar read_archive data dest fs = (None, fs')"
  shows "prefix (comps dest) (entry_path dest e) \<and> (\<exists>m. fs_at fs' (entry_path dest e) = Some (FFile (en_body e) m))"
proof -
  have fine: "\<forall>x\<in>set (es @ e # es'). tar_fine dest x"
    using assms(1,4) by (auto simp: tar_fine_def list_all_iff)
  have w: "tar_writes e" "\<forall>x\<in>set es'. \<not> (tar_writes x \<and> entry_path dest x = entry_path dest e)"
    using assms(5,6) by (auto simp: tar_writes_def list_all_iff)
  have e: "e \<in> set (es @ e # es')" by simp
  consider (t) "extract_loop (extract_entry dest) fs (es @ e # es') rest = (None, fs')"
    | (u) "extract_loop (untar_entry dest) fs (es @ e # es') rest = (None, fs')"
    using assms(3,7) by (auto simp: extract_tar_gz_def untar_def)
  then show ?thesis
  proof cases
    case t
    have "inside dest (join_path [dest, en_name e])"
      by (rule loop_names_inside[OF t e]) (simp add: extract_entry_cases)
    then show ?thesis
      using tgz.loop_contents[OF t assms(2) fine w] entry_inside[OF assms(1)] by blast
  next
    case u
    have "inside dest (join_path [dest, en_name e])"
      by (rule loop_names_inside[OF u e]) (simp add: untar_entry_def)
    then show ?thesis
      using tarball.loop_contents[OF u assms(2) fine w] entry_inside[OF assms(1)] by blast
  qed
qed

theorem unpacked_contents_witness:
  "\<exists>m. fs_at (snd (untar (\<lambda>_. Inr (take 2 example_entries, None)) [] ''/home/x.tmp'' example_fs))
     [''home'', ''x.tmp'', ''bin'', ''psql''] = Some (FFile ''elf'' m)"
proof -
  let ?dir = "\<lparr>en_name = ''bin/'', en_kind = KindDir, en_mode = 493, en_body = [], en_link = []\<rparr>"
  let ?e = "\<lparr>en_name = ''bin/psql'', en_kind = KindReg, en_mode = 493, en_body = ''elf'', en_link = []\<rparr>"
  have "take 2 example_entries = [?dir] @ ?e # []"
    by (simp add: example_entries_def)
  then have r: "Inr (take 2 example_entries, None) = (Inr ([?dir] @ ?e # [], None) :: string + stream)"
    by (simp only:)
  have u: "fst (untar (\<lambda>_. Inr (take 2 example_entries, None)) [] ''/home/x.tmp'' example_fs) = None"
    by code_simp
  then have "untar (\<lambda>_. Inr (take 2 example_entries, None)) [] ''/home/x.tmp'' example_fs =
      (None, snd (untar (\<lambda>_. Inr (take 2 example_entries, None)) [] ''/home/x.tmp'' example_fs))"
    by (metis prod.collapse)
  moreover have "entry_path ''/home/x.tmp'' ?e = [''home'', ''x.tmp'', ''bin'', ''psql'']" by code_simp
  ultimately show ?thesis
    using unpacked_contents[OF example_dest, of "\<lambda>_. Inr (take 2 example_entries, None)" "[]" "[?dir]" ?e "[]" None, OF r]
    by auto
qed

text \<open>The check is on names only, so an archive that first makes a symbolic link and then a file
  under it writes outside its destination: both tar extractors accept it and replace the file
  the link leads to.\<close>

theorem symlink_entry_escapes:
  "let es = [\<lparr>en_name = ''lib'', en_kind = KindSymlink, en_mode = 0, en_body = [], en_link = ''/etc''\<rparr>,
       \<lparr>en_name = ''lib/passwd'', en_kind = KindReg, en_mode = 420, en_body = ''evil'', en_link = []\<rparr>];
     fs = mput [''home'', ''x.tmp''] FDir example_fs in
   (case extract_tar_gz (\<lambda>_. Inr (es, None)) [] ''/home/x.tmp'' fs of (err, fs') \<Rightarrow>
      err = None \<and> fs_at fs' [''etc'', ''passwd''] = Some (FFile ''evil'' 420)) \<and>
   (case untar (\<lambda>_. Inr (es, None)) [] ''/home/x.tmp'' fs of (err, fs') \<Rightarrow>
      err = None \<and> fs_at fs' [''etc'', ''passwd''] = Some (FFile ''evil'' 420))"
  by code_simp

end
