(* ===== verification/Resolve.thy ===== *)
theory Resolve
  imports Types
begin

text \<open>
  Resolving a version against a lock and a mirror: \<open>ResolveVia\<close> and \<open>ExactDots\<close> of
  \<open>engine/resolve.go\<close>. The lock is any \<open>engine.Locker\<close>, stated as the locale \<open>locker\<close>; the
  mirror is the two methods of an \<open>engine.Fetcher\<close>, as functions. The lemmas of the locale say
  what a pin is for: after one resolve, every later one gets the same version and insists on the
  same digest, whatever the mirror says by then.
\<close>

section \<open>Definitions\<close>

text \<open>A call that may panic.\<close>

datatype 'a go = Ret 'a | Panic

datatype resolve_error = MajorFailed string | EnsureFailed string

type_synonym ensure_fn = "string \<Rightarrow> string \<Rightarrow> platform \<Rightarrow> string \<Rightarrow> string + (string \<times> string)"

definition ensure_and_record ::
  "('l \<Rightarrow> string \<Rightarrow> string \<Rightarrow> pin \<Rightarrow> 'l) \<Rightarrow> ensure_fn \<Rightarrow> 'l \<Rightarrow> platform \<Rightarrow> string \<Rightarrow> string \<Rightarrow> string \<Rightarrow> string \<Rightarrow>
   (resolve_error + toolchain) \<times> 'l" where
  "ensure_and_record setp ensure lk plat eng spec full expectedSHA =
     (case ensure eng full plat expectedSHA of
        Inl e \<Rightarrow> (Inl (EnsureFailed e), lk)
      | Inr (binDir, digest) \<Rightarrow>
          (let hashes = (if digest \<noteq> [] then mput (pl_triple plat) digest [] else []) in
           (Inr \<lparr>tc_engine = eng, tc_full = full, tc_bin_dir = binDir, tc_tools = []\<rparr>,
            setp lk eng spec \<lparr>pin_resolved = full, pin_source = ''mirror'', pin_hashes = hashes\<rparr>)))"

definition resolve_via ::
  "('l \<Rightarrow> string \<Rightarrow> string \<Rightarrow> (pin \<times> bool) go) \<Rightarrow> ('l \<Rightarrow> string \<Rightarrow> string \<Rightarrow> pin \<Rightarrow> 'l) \<Rightarrow>
   (string \<Rightarrow> string \<Rightarrow> string + string) \<Rightarrow> ensure_fn \<Rightarrow> 'l \<Rightarrow> platform \<Rightarrow> string \<Rightarrow> string \<Rightarrow>
   (string \<Rightarrow> string \<times> bool) \<Rightarrow> ((resolve_error + toolchain) \<times> 'l) go" where
  "resolve_via getp setp resolve_major ensure lk plat eng spec exactFull =
     (case getp lk eng spec of
        Panic \<Rightarrow> Panic
      | Ret (p, ok) \<Rightarrow>
          if ok \<and> pin_resolved p \<noteq> [] then
            Ret (ensure_and_record setp ensure lk plat eng spec (pin_resolved p)
              (mget [] (pin_hashes p) (pl_triple plat)))
          else (case exactFull spec of (v, exact) \<Rightarrow>
            if exact then Ret (ensure_and_record setp ensure lk plat eng spec v [])
            else (case resolve_major eng spec of
                Inl e \<Rightarrow> Ret (Inl (MajorFailed e), lk)
              | Inr full \<Rightarrow> Ret (ensure_and_record setp ensure lk plat eng spec full []))))"

section \<open>The lock's contract\<close>

text \<open>
  What a client of \<open>engine.Locker\<close> relies on. \<open>inv\<close> is what the lock keeps of itself and \<open>name_ok\<close>
  which engine names it can tell apart. Getting never panics; a recorded pin is found again with
  its version and every digest it had; recording says nothing about other pins.
\<close>

locale locker =
  fixes getp :: "'l \<Rightarrow> string \<Rightarrow> string \<Rightarrow> (pin \<times> bool) go"
    and setp :: "'l \<Rightarrow> string \<Rightarrow> string \<Rightarrow> pin \<Rightarrow> 'l"
    and inv :: "'l \<Rightarrow> bool"
    and name_ok :: "string \<Rightarrow> bool"
  assumes get_total: "inv l \<Longrightarrow> getp l eng spec \<noteq> Panic"
    and inv_record: "inv l \<Longrightarrow> gomap_ok (pin_hashes p) \<Longrightarrow> inv (setp l eng spec p)"
    and get_record: "inv l \<Longrightarrow> gomap_ok (pin_hashes p) \<Longrightarrow>
      \<exists>q. getp (setp l eng spec p) eng spec = Ret (q, True) \<and> pin_resolved q = pin_resolved p \<and>
        (\<forall>t h. map_of (pin_hashes p) t = Some h \<longrightarrow> mget [] (pin_hashes q) t = h)"
    and get_record_other: "inv l \<Longrightarrow> name_ok eng \<Longrightarrow> name_ok eng' \<Longrightarrow> (eng', spec') \<noteq> (eng, spec) \<Longrightarrow>
      getp (setp l eng spec p) eng' spec' = getp l eng' spec'"
begin

lemma recorded_hashes_ok: "gomap_ok (if d \<noteq> [] then mput t d [] else [])"
  by simp

lemma ensure_and_record_Inr:
  assumes "ensure_and_record setp ensure lk plat eng spec full sha = (Inr tc, lk')"
  obtains bin digest where "ensure eng full plat sha = Inr (bin, digest)"
    "tc = \<lparr>tc_engine = eng, tc_full = full, tc_bin_dir = bin, tc_tools = []\<rparr>"
    "lk' = setp lk eng spec \<lparr>pin_resolved = full, pin_source = ''mirror'',
       pin_hashes = (if digest \<noteq> [] then mput (pl_triple plat) digest [] else [])\<rparr>"
proof -
  obtain bin digest where "ensure eng full plat sha = Inr (bin, digest)"
    using assms by (cases "ensure eng full plat sha") (auto simp: ensure_and_record_def)
  then show thesis
    using assms by (intro that) (auto simp: ensure_and_record_def Let_def)
qed

text \<open>Every way a resolve can succeed goes through one \<open>Ensure\<close> and one \<open>Record\<close>.\<close>

lemma resolve_via_cases:
  assumes "resolve_via getp setp rm ensure lk plat eng spec ex = Ret x"
  obtains (ensured) full sha where "x = ensure_and_record setp ensure lk plat eng spec full sha"
    | (failed) e where "x = (Inl (MajorFailed e), lk)"
proof (cases "getp lk eng spec")
  case (Ret po)
  obtain p ok where po: "po = (p, ok)" by (cases po)
  obtain v exact where v: "ex spec = (v, exact)" by (cases "ex spec")
  show thesis
  proof (cases "ok \<and> pin_resolved p \<noteq> [] \<or> exact")
    case True
    then show thesis using that(1) assms Ret po v by (auto simp: resolve_via_def split: if_splits)
  next
    case False
    then show thesis
      using that assms Ret po v by (cases "rm eng spec") (auto simp: resolve_via_def)
  qed
qed (use assms in \<open>simp add: resolve_via_def\<close>)

lemma resolve_via_Inr:
  assumes "resolve_via getp setp rm ensure lk plat eng spec ex = Ret (Inr tc, lk')"
  obtains sha where "ensure_and_record setp ensure lk plat eng spec (tc_full tc) sha = (Inr tc, lk')"
  using assms
proof (cases rule: resolve_via_cases)
  case (ensured full sha)
  then have e: "ensure_and_record setp ensure lk plat eng spec full sha = (Inr tc, lk')" by simp
  then have "full = tc_full tc" by (rule ensure_and_record_Inr) simp
  then show thesis using that e by blast
qed simp

lemma ensure_and_record_Inl:
  "ensure_and_record setp ensure lk plat eng spec full sha = (Inl e, lk') \<Longrightarrow> lk' = lk"
  by (cases "ensure eng full plat sha") (auto simp: ensure_and_record_def Let_def)

lemma resolve_via_error_keeps_lock:
  assumes "resolve_via getp setp rm ensure lk plat eng spec ex = Ret (Inl e, lk')"
  shows "lk' = lk"
  using assms
proof (cases rule: resolve_via_cases)
  case (ensured full sha)
  then show ?thesis using ensure_and_record_Inl[of ensure lk plat eng spec full sha e lk'] by simp
qed simp

lemma resolve_via_total:
  assumes "inv lk"
  shows "resolve_via getp setp rm ensure lk plat eng spec ex \<noteq> Panic"
  using get_total[OF assms, of eng spec]
  by (cases "getp lk eng spec"; cases "rm eng spec"; cases "ex spec") (auto simp: resolve_via_def split: if_splits)

lemma resolve_via_inv:
  assumes "resolve_via getp setp rm ensure lk plat eng spec ex = Ret (r, lk')" "inv lk"
  shows "inv lk'"
proof (cases r)
  case (Inl e)
  then show ?thesis using resolve_via_error_keeps_lock[of rm ensure lk plat eng spec ex e lk'] assms by simp
next
  case (Inr tc)
  then have "resolve_via getp setp rm ensure lk plat eng spec ex = Ret (Inr tc, lk')" using assms(1) by simp
  then obtain sha where "ensure_and_record setp ensure lk plat eng spec (tc_full tc) sha = (Inr tc, lk')"
    by (rule resolve_via_Inr)
  then obtain digest where "lk' = setp lk eng spec \<lparr>pin_resolved = tc_full tc, pin_source = ''mirror'',
       pin_hashes = (if digest \<noteq> [] then mput (pl_triple plat) digest [] else [])\<rparr>"
    by (rule ensure_and_record_Inr)
  then show ?thesis using inv_record[OF assms(2)] by simp
qed

text \<open>The pin a successful resolve leaves, and what the next resolve does with it: the mirror's
  majors are not asked, the exact-version test is not made, and the fetcher must produce the
  digest of the first time.\<close>

definition pinned :: "'l \<Rightarrow> string \<Rightarrow> string \<Rightarrow> string \<Rightarrow> string \<Rightarrow> string \<Rightarrow> bool" where
  "pinned l eng spec full t d = (\<exists>q. getp l eng spec = Ret (q, True) \<and> pin_resolved q = full \<and>
     mget [] (pin_hashes q) t = d)"

lemma ensure_and_record_pins:
  assumes "ensure_and_record setp ensure lk plat eng spec full sha = (Inr tc, lk')" "inv lk"
  shows "\<exists>d. ensure eng full plat sha = Inr (tc_bin_dir tc, d) \<and> tc_full tc = full \<and> inv lk' \<and>
    (d \<noteq> [] \<longrightarrow> pinned lk' eng spec full (pl_triple plat) d)"
proof -
  obtain bin d where b: "ensure eng full plat sha = Inr (bin, d)"
      "tc = \<lparr>tc_engine = eng, tc_full = full, tc_bin_dir = bin, tc_tools = []\<rparr>"
      "lk' = setp lk eng spec \<lparr>pin_resolved = full, pin_source = ''mirror'',
         pin_hashes = (if d \<noteq> [] then mput (pl_triple plat) d [] else [])\<rparr>"
    by (rule ensure_and_record_Inr[OF assms(1)])
  let ?p = "\<lparr>pin_resolved = full, pin_source = ''mirror'',
         pin_hashes = (if d \<noteq> [] then mput (pl_triple plat) d [] else [])\<rparr>"
  have ok: "gomap_ok (pin_hashes ?p)" by simp
  have "d \<noteq> [] \<longrightarrow> pinned lk' eng spec full (pl_triple plat) d"
    using get_record[OF assms(2) ok, of eng spec] unfolding b(3) pinned_def by auto
  moreover have "inv lk'" using inv_record[OF assms(2) ok] b(3) by simp
  ultimately show ?thesis using b(1,2) by simp
qed

lemma resolve_via_pinned:
  assumes "pinned lk eng spec full (pl_triple plat) d" "full \<noteq> []"
  shows "resolve_via getp setp rm ensure lk plat eng spec ex =
    Ret (ensure_and_record setp ensure lk plat eng spec full d)"
  using assms by (auto simp: pinned_def resolve_via_def)

lemma resolve_via_first:
  assumes "resolve_via getp setp rm ensure lk plat eng spec ex = Ret (Inr tc, lk')" "inv lk"
  shows "\<exists>sha d. ensure eng (tc_full tc) plat sha = Inr (tc_bin_dir tc, d) \<and> inv lk' \<and>
    (d \<noteq> [] \<longrightarrow> pinned lk' eng spec (tc_full tc) (pl_triple plat) d)"
proof -
  obtain sha where e: "ensure_and_record setp ensure lk plat eng spec (tc_full tc) sha = (Inr tc, lk')"
    by (rule resolve_via_Inr[OF assms(1)])
  show ?thesis using ensure_and_record_pins[OF e assms(2)] by blast
qed

lemma resolve_via_other:
  assumes "resolve_via getp setp rm ensure lk plat eng spec ex = Ret (r, lk')" "inv lk"
    "name_ok eng" "name_ok eng'" "(eng', spec') \<noteq> (eng, spec)"
  shows "getp lk' eng' spec' = getp lk eng' spec'"
proof (cases r)
  case (Inl e)
  then show ?thesis using resolve_via_error_keeps_lock[of rm ensure lk plat eng spec ex e lk'] assms by simp
next
  case (Inr tc)
  then have "resolve_via getp setp rm ensure lk plat eng spec ex = Ret (Inr tc, lk')" using assms(1) by simp
  then obtain sha where "ensure_and_record setp ensure lk plat eng spec (tc_full tc) sha = (Inr tc, lk')"
    by (rule resolve_via_Inr)
  then obtain p where "lk' = setp lk eng spec p" by (rule ensure_and_record_Inr) blast
  then show ?thesis using get_record_other[OF assms(2-5)] by simp
qed

end

text \<open>A lock that merges: recording the version it already pins keeps the digests of the other
  platforms. Then a pin, once there, survives every later resolve of its spec.\<close>

locale merging_locker = locker +
  assumes record_keeps: "inv l \<Longrightarrow> gomap_ok (pin_hashes p) \<Longrightarrow> getp l eng spec = Ret (q, True) \<Longrightarrow>
    pin_resolved q = pin_resolved p \<Longrightarrow> map_of (pin_hashes p) t = None \<Longrightarrow>
    \<exists>q'. getp (setp l eng spec p) eng spec = Ret (q', True) \<and> mget [] (pin_hashes q') t = mget [] (pin_hashes q) t"
begin

lemma ensure_and_record_keeps:
  assumes "ensure_and_record setp ensure lk plat eng spec full sha = (Inr tc, lk')" "inv lk"
    "pinned lk eng spec full t d" "\<And>bin d2. ensure eng full plat sha = Inr (bin, d2) \<Longrightarrow> pl_triple plat = t \<Longrightarrow> d2 = [] \<or> d2 = d"
  shows "pinned lk' eng spec full t d"
proof -
  obtain bin d2 where b: "ensure eng full plat sha = Inr (bin, d2)"
      "lk' = setp lk eng spec \<lparr>pin_resolved = full, pin_source = ''mirror'',
         pin_hashes = (if d2 \<noteq> [] then mput (pl_triple plat) d2 [] else [])\<rparr>"
    by (rule ensure_and_record_Inr[OF assms(1)])
  let ?p = "\<lparr>pin_resolved = full, pin_source = ''mirror'',
         pin_hashes = (if d2 \<noteq> [] then mput (pl_triple plat) d2 [] else [])\<rparr>"
  have ok: "gomap_ok (pin_hashes ?p)" by simp
  obtain q where q: "getp lk eng spec = Ret (q, True)" "pin_resolved q = full" "mget [] (pin_hashes q) t = d"
    using assms(3) by (auto simp: pinned_def)
  obtain q' where q': "getp lk' eng spec = Ret (q', True)" "pin_resolved q' = full"
      "\<forall>t h. map_of (pin_hashes ?p) t = Some h \<longrightarrow> mget [] (pin_hashes q') t = h"
    using get_record[OF assms(2) ok, of eng spec] unfolding b(2) by auto
  show ?thesis
  proof (cases "map_of (pin_hashes ?p) t")
    case None
    then have "mget [] (pin_hashes q') t = d"
      using record_keeps[OF assms(2) ok q(1) _ None] q(2,3) q'(1) b(2) by simp
    then show ?thesis using q' by (auto simp: pinned_def)
  next
    case (Some h)
    then have "pl_triple plat = t" "d2 \<noteq> []" "h = d2" by (auto split: if_splits)
    then have "h = d" using assms(4)[OF b(1)] by simp
    then show ?thesis using q' Some by (auto simp: pinned_def)
  qed
qed

end

end
