(* ===== verification/Lockfile.thy ===== *)
theory Lockfile
  imports Resolve
begin

text \<open>
  The lockfile \<open>doze.lock\<close>: \<open>binaries/lock.go\<close> and the download pins of \<open>binaries/download.go\<close>.
  A pointer that may be nil is an option; a panic is a value. The lock is an instance of the
  \<open>locker\<close> contract as long as no pin of the file is null. The flag that says the lock has unsaved
  changes is right: as long as it is down, the file on disk reads back as the lock.
\<close>

section \<open>Types\<close>

record lock_pin =
  lp_resolved :: string
  lp_source :: string
  lp_hashes :: "string gomap"

record module_pin =
  mp_version :: string
  mp_protocol :: int
  mp_engines :: "string list"
  mp_hashes :: "string gomap"

definition zero_module_pin :: module_pin where
  "zero_module_pin = \<lparr>mp_version = [], mp_protocol = 0, mp_engines = [], mp_hashes = []\<rparr>"

record download_pin =
  dp_sha256 :: string

record lock =
  lk_engines :: "lock_pin option gomap gomap"
  lk_modules :: "module_pin option gomap"
  lk_downloads :: "download_pin option gomap"
  lk_path :: string
  lk_dirty :: bool

section \<open>Loading\<close>

datatype load_error = ReadFailed string | ParseFailed string

text \<open>The file as YAML decodes it: the three maps.\<close>

record lock_file =
  lf_engines :: "lock_pin option gomap gomap"
  lf_modules :: "module_pin option gomap"
  lf_downloads :: "download_pin option gomap"

definition dead_module :: "module_pin option \<Rightarrow> bool" where
  "dead_module p = (case p of None \<Rightarrow> True | Some m \<Rightarrow> mp_version m = [])"

definition drop_dead :: "lock \<Rightarrow> string \<times> module_pin option \<Rightarrow> lock" where
  "drop_dead l sp = (if dead_module (snd sp)
     then l\<lparr>lk_modules := mdel (fst sp) (lk_modules l), lk_dirty := True\<rparr> else l)"

text \<open>What reading the file gives: its contents, that it does not exist, or another error.\<close>

datatype 'b read_result = Contents 'b | NotExist | ReadError string

definition load_lock :: "('b \<Rightarrow> string + lock_file) \<Rightarrow> 'b read_result \<Rightarrow> string \<Rightarrow> load_error + lock" where
  "load_lock unmarshal rd path = (case rd of
     NotExist \<Rightarrow> Inr \<lparr>lk_engines = [], lk_modules = [], lk_downloads = [], lk_path = path, lk_dirty = False\<rparr>
   | ReadError e \<Rightarrow> Inl (ReadFailed e)
   | Contents b \<Rightarrow> (case unmarshal b of
       Inl e \<Rightarrow> Inl (ParseFailed e)
     | Inr f \<Rightarrow> Inr (foldl drop_dead \<lparr>lk_engines = lf_engines f, lk_modules = lf_modules f,
           lk_downloads = lf_downloads f, lk_path = path, lk_dirty = False\<rparr> (lf_modules f))))"

section \<open>Engine pins\<close>

definition lock_specs :: "lock \<Rightarrow> string \<Rightarrow> lock_pin option gomap" where
  "lock_specs l eng = mget [] (lk_engines l) eng"

definition lock_get :: "lock option \<Rightarrow> string \<Rightarrow> string \<Rightarrow> (pin \<times> bool) go" where
  "lock_get lo eng spec = (case lo of
     None \<Rightarrow> Ret (zero_pin, False)
   | Some l \<Rightarrow> (case map_of (lock_specs l eng) spec of
       None \<Rightarrow> Ret (zero_pin, False)
     | Some None \<Rightarrow> Panic
     | Some (Some p) \<Rightarrow>
         Ret (\<lparr>pin_resolved = lp_resolved p, pin_source = lp_source p, pin_hashes = lp_hashes p\<rparr>, True)))"

definition merge_hash :: "lock_pin \<times> bool \<Rightarrow> string \<times> string \<Rightarrow> lock_pin \<times> bool" where
  "merge_hash pd ts = (if mget [] (lp_hashes (fst pd)) (fst ts) \<noteq> snd ts
     then ((fst pd)\<lparr>lp_hashes := mput (fst ts) (snd ts) (lp_hashes (fst pd))\<rparr>, True) else pd)"

definition fill_source :: "pin \<Rightarrow> lock_pin \<times> bool \<Rightarrow> lock_pin \<times> bool" where
  "fill_source q pd = (if lp_source (fst pd) = [] \<and> pin_source q \<noteq> []
     then ((fst pd)\<lparr>lp_source := pin_source q\<rparr>, True) else pd)"

definition base_pin :: "lock_pin option \<Rightarrow> pin \<Rightarrow> bool \<Rightarrow> lock_pin \<times> bool" where
  "base_pin po q dirty = (case po of
     None \<Rightarrow> (\<lparr>lp_resolved = pin_resolved q, lp_source = pin_source q, lp_hashes = []\<rparr>, True)
   | Some p \<Rightarrow> if lp_resolved p \<noteq> pin_resolved q
       then (\<lparr>lp_resolved = pin_resolved q, lp_source = pin_source q, lp_hashes = []\<rparr>, True)
       else (p, dirty))"

definition merged_pin :: "lock_pin option \<Rightarrow> pin \<Rightarrow> bool \<Rightarrow> lock_pin \<times> bool" where
  "merged_pin po q dirty = foldl merge_hash (fill_source q (base_pin po q dirty)) (pin_hashes q)"

definition record_pin :: "lock \<Rightarrow> string \<Rightarrow> string \<Rightarrow> pin \<Rightarrow> lock" where
  "record_pin l eng spec q =
     (let specs = lock_specs l eng in
      case merged_pin (mget None specs spec) q (lk_dirty l) of (p, dirty) \<Rightarrow>
        l\<lparr>lk_engines := mput eng (mput spec (Some p) specs) (lk_engines l), lk_dirty := dirty\<rparr>)"

definition lock_record :: "lock option \<Rightarrow> string \<Rightarrow> string \<Rightarrow> pin \<Rightarrow> lock option" where
  "lock_record lo eng spec q = map_option (\<lambda>l. record_pin l eng spec q) lo"

definition lock_entries :: "lock option \<Rightarrow> lock_entry list" where
  "lock_entries lo = (case lo of None \<Rightarrow> []
   | Some l \<Rightarrow> concat (map (\<lambda>(eng, specs). concat (map (\<lambda>(spec, po).
       case po of None \<Rightarrow> []
       | Some p \<Rightarrow> [\<lparr>le_engine = eng, le_spec = spec,
           le_pin = \<lparr>pin_resolved = lp_resolved p, pin_source = lp_source p, pin_hashes = lp_hashes p\<rparr>\<rparr>]) specs))
       (lk_engines l)))"

definition lock_resolved :: "lock \<Rightarrow> string \<Rightarrow> string list" where
  "lock_resolved l eng = concat (map (\<lambda>(spec, po). case po of None \<Rightarrow> []
     | Some p \<Rightarrow> if lp_resolved p \<noteq> [] then [lp_resolved p] else []) (lock_specs l eng))"

definition lock_spec_names :: "lock \<Rightarrow> string \<Rightarrow> string list" where
  "lock_spec_names l eng = sort_slice (\<lambda>a b. a < b) (map fst (lock_specs l eng))"

section \<open>Module and download pins\<close>

definition get_module :: "lock option \<Rightarrow> string \<Rightarrow> module_pin \<times> bool" where
  "get_module lo source = (case lo of None \<Rightarrow> (zero_module_pin, False)
   | Some l \<Rightarrow> (case mget None (lk_modules l) source of
       None \<Rightarrow> (zero_module_pin, False)
     | Some p \<Rightarrow> if mp_version p = [] then (zero_module_pin, False) else (p, True)))"

definition same_module_pin :: "module_pin \<Rightarrow> module_pin \<Rightarrow> bool" where
  "same_module_pin p q = (mp_version p = mp_version q \<and> mp_protocol p = mp_protocol q \<and>
     mp_engines p = mp_engines q \<and> maps_equal (mp_hashes p) (mp_hashes q))"

definition record_module :: "lock option \<Rightarrow> string \<Rightarrow> module_pin \<Rightarrow> lock option" where
  "record_module lo source q = (case lo of None \<Rightarrow> None
   | Some l \<Rightarrow>
       if mp_version q = [] then Some l
       else if (case mget None (lk_modules l) source of None \<Rightarrow> False | Some p \<Rightarrow> same_module_pin p q)
       then Some l
       else Some (l\<lparr>lk_modules := mput source (Some q) (lk_modules l), lk_dirty := True\<rparr>))"

definition drop_module :: "lock option \<Rightarrow> string \<Rightarrow> lock option" where
  "drop_module lo source = (case lo of None \<Rightarrow> None
   | Some l \<Rightarrow> if map_of (lk_modules l) source \<noteq> None
       then Some (l\<lparr>lk_modules := mdel source (lk_modules l), lk_dirty := True\<rparr>) else Some l)"

definition get_download :: "lock option \<Rightarrow> string \<Rightarrow> string \<times> bool" where
  "get_download lo url = (case lo of None \<Rightarrow> ([], False)
   | Some l \<Rightarrow> (case map_of (lk_downloads l) url of
       None \<Rightarrow> ([], False)
     | Some None \<Rightarrow> ([], False)
     | Some (Some p) \<Rightarrow> if dp_sha256 p = [] then ([], False) else (dp_sha256 p, True)))"

definition record_download :: "lock option \<Rightarrow> string \<Rightarrow> string \<Rightarrow> lock option" where
  "record_download lo url digest = (case lo of None \<Rightarrow> None
   | Some l \<Rightarrow>
       if digest = [] then Some l
       else if snd (get_download (Some l) url) then Some l
       else Some (l\<lparr>lk_downloads := mput url (Some \<lparr>dp_sha256 = digest\<rparr>) (lk_downloads l), lk_dirty := True\<rparr>))"

section \<open>Saving\<close>

definition file_of :: "lock \<Rightarrow> lock_file" where
  "file_of l = \<lparr>lf_engines = lk_engines l, lf_modules = lk_modules l, lf_downloads = lk_downloads l\<rparr>"

datatype save_error = MarshalFailed string | MkdirFailed string | WriteFailed string

text \<open>The result of \<open>Save\<close>: the error, the lock after, and what was written.\<close>

definition save_lock :: "(lock_file \<Rightarrow> string + 'b) \<Rightarrow> (string \<Rightarrow> string option) \<Rightarrow> (string \<Rightarrow> 'b \<Rightarrow> string option) \<Rightarrow>
    lock option \<Rightarrow> save_error option \<times> lock option \<times> 'b option" where
  "save_lock marshal mkdir wr lo = (case lo of None \<Rightarrow> (None, None, None)
   | Some l \<Rightarrow>
       if \<not> lk_dirty l \<or> lk_path l = [] then (None, Some l, None)
       else (case marshal (file_of l) of
         Inl e \<Rightarrow> (Some (MarshalFailed e), Some l, None)
       | Inr b \<Rightarrow> (case mkdir (dir_of (lk_path l)) of
           Some e \<Rightarrow> (Some (MkdirFailed e), Some l, None)
         | None \<Rightarrow> (case wr (lk_path l) b of
             Some e \<Rightarrow> (Some (WriteFailed e), Some l, None)
           | None \<Rightarrow> (None, Some (l\<lparr>lk_dirty := False\<rparr>), Some b)))))"

section \<open>Recording and getting\<close>

definition hashes_ok :: "lock_pin \<Rightarrow> bool" where
  "hashes_ok p = gomap_ok (lp_hashes p)"

definition specs_ok :: "lock_pin option gomap \<Rightarrow> bool" where
  "specs_ok specs = (gomap_ok specs \<and> list_all (\<lambda>(s, po). case po of None \<Rightarrow> False | Some p \<Rightarrow> hashes_ok p) specs)"

definition lock_ok :: "lock \<Rightarrow> bool" where
  "lock_ok l = (gomap_ok (lk_engines l) \<and> list_all (\<lambda>(e, specs). specs_ok specs) (lk_engines l))"

lemma merge_hashes_fst:
  "lp_resolved (fst (foldl merge_hash pd hs)) = lp_resolved (fst pd) \<and>
   lp_source (fst (foldl merge_hash pd hs)) = lp_source (fst pd)"
  by (induction hs arbitrary: pd) (auto simp: merge_hash_def)

lemma merge_hashes_get:
  assumes "gomap_ok hs"
  shows "mget [] (lp_hashes (fst (foldl merge_hash pd hs))) t =
    (case map_of hs t of Some h \<Rightarrow> h | None \<Rightarrow> mget [] (lp_hashes (fst pd)) t)"
  using assms
proof (induction hs arbitrary: pd)
  case (Cons th hs)
  obtain k h where th: "th = (k, h)" by (cases th)
  have "map_of hs k = None" using Cons.prems th by (simp add: map_of_eq_None_iff)
  then show ?case
    using Cons th by (auto simp: merge_hash_def split: option.splits)
qed simp

lemma merge_hashes_ok: "hashes_ok (fst pd) \<Longrightarrow> hashes_ok (fst (foldl merge_hash pd hs))"
  by (induction hs arbitrary: pd) (auto simp: merge_hash_def hashes_ok_def)

lemma merge_hashes_clean: "\<not> snd (foldl merge_hash pd hs) \<Longrightarrow> foldl merge_hash pd hs = pd"
proof (induction hs rule: rev_induct)
  case (snoc th hs)
  then show ?case by (cases "foldl merge_hash pd hs") (auto simp: merge_hash_def split: if_splits)
qed simp

lemma base_pin_resolved: "lp_resolved (fst (base_pin po q d)) = pin_resolved q"
  by (auto simp: base_pin_def split: option.splits)

lemma fill_source_keeps: "lp_resolved (fst (fill_source q pd)) = lp_resolved (fst pd)"
  "lp_hashes (fst (fill_source q pd)) = lp_hashes (fst pd)"
  by (auto simp: fill_source_def)

lemma merged_pin_resolved: "lp_resolved (fst (merged_pin po q d)) = pin_resolved q"
  by (simp add: merged_pin_def merge_hashes_fst fill_source_keeps base_pin_resolved)

lemma merged_pin_hash:
  assumes "gomap_ok (pin_hashes q)"
  shows "mget [] (lp_hashes (fst (merged_pin po q d))) t =
    (case map_of (pin_hashes q) t of Some h \<Rightarrow> h | None \<Rightarrow> mget [] (lp_hashes (fst (base_pin po q d))) t)"
  by (simp add: merged_pin_def merge_hashes_get[OF assms] fill_source_keeps split: option.split)

lemma merged_pin_ok: "(\<And>p. po = Some p \<Longrightarrow> hashes_ok p) \<Longrightarrow> hashes_ok (fst (merged_pin po q d))"
  unfolding merged_pin_def
  by (rule merge_hashes_ok) (auto simp: fill_source_def base_pin_def hashes_ok_def split: option.splits)

lemma merged_pin_clean:
  assumes "\<not> snd (merged_pin po q d)"
  shows "po = Some (fst (merged_pin po q d)) \<and> \<not> d"
proof -
  have f: "foldl merge_hash (fill_source q (base_pin po q d)) (pin_hashes q) = fill_source q (base_pin po q d)"
    using assms merge_hashes_clean unfolding merged_pin_def by blast
  then have "\<not> snd (fill_source q (base_pin po q d))" using assms by (simp add: merged_pin_def)
  then show ?thesis
    using f by (auto simp: merged_pin_def fill_source_def base_pin_def split: if_splits option.splits)
qed

lemma record_pin_eq:
  "record_pin l eng spec q = l\<lparr>lk_engines := mput eng (mput spec (Some (fst (merged_pin (mget None (lock_specs l eng) spec) q (lk_dirty l))))
      (lock_specs l eng)) (lk_engines l), lk_dirty := snd (merged_pin (mget None (lock_specs l eng) spec) q (lk_dirty l))\<rparr>"
  by (simp add: record_pin_def Let_def case_prod_unfold)

lemma lock_specs_record:
  "lock_specs (record_pin l eng spec q) eng' = (if eng' = eng
     then mput spec (Some (fst (merged_pin (mget None (lock_specs l eng) spec) q (lk_dirty l)))) (lock_specs l eng)
     else lock_specs l eng')"
  by (simp add: record_pin_eq lock_specs_def)

lemma lock_get_record:
  "lock_get (Some (record_pin l eng spec q)) eng' spec' = (if eng' = eng \<and> spec' = spec
     then (let p = fst (merged_pin (mget None (lock_specs l eng) spec) q (lk_dirty l)) in
       Ret (\<lparr>pin_resolved = lp_resolved p, pin_source = lp_source p, pin_hashes = lp_hashes p\<rparr>, True))
     else lock_get (Some l) eng' spec')"
  by (simp add: lock_get_def lock_specs_record Let_def)

lemma specs_ok_mput: "specs_ok specs \<Longrightarrow> hashes_ok p \<Longrightarrow> specs_ok (mput s (Some p) specs)"
  by (simp add: specs_ok_def list_all_mput)

lemma lock_specs_ok: "lock_ok l \<Longrightarrow> specs_ok (lock_specs l eng)"
  unfolding lock_ok_def lock_specs_def
  by (rule list_all_mget[where P = specs_ok]) (simp, simp add: specs_ok_def)

lemma specs_ok_get:
  assumes "specs_ok specs" "map_of specs s = Some po"
  obtains p where "po = Some p" "hashes_ok p"
  using assms map_of_SomeD[OF assms(2)] by (fastforce simp: specs_ok_def list_all_iff split: option.splits)

lemma record_pin_ok:
  assumes "lock_ok l"
  shows "lock_ok (record_pin l eng spec q)"
proof -
  have s: "specs_ok (lock_specs l eng)" by (rule lock_specs_ok[OF assms])
  have "hashes_ok (fst (merged_pin (mget None (lock_specs l eng) spec) q (lk_dirty l)))"
    by (rule merged_pin_ok)
       (use specs_ok_get[OF s] in \<open>force simp: mget_def split: option.splits\<close>)
  then show ?thesis
    using assms specs_ok_mput[OF s] by (simp add: lock_ok_def record_pin_eq list_all_mput)
qed

text \<open>The lock of the binaries package is a \<open>locker\<close>.\<close>

interpretation binlock: merging_locker "\<lambda>l. lock_get (Some l)" record_pin lock_ok "\<lambda>_. True"
proof (unfold_locales, goal_cases)
  case (1 l eng spec)
  then show ?case
    using specs_ok_get[OF lock_specs_ok[OF 1, of eng]] by (fastforce simp: lock_get_def split: option.splits)
next
  case (2 l p eng spec)
  then show ?case by (simp add: record_pin_ok)
next
  case (3 l p eng spec)
  then show ?case
    by (simp add: lock_get_record Let_def merged_pin_resolved merged_pin_hash)
next
  case (4 l eng eng' spec' spec p)
  then show ?case by (auto simp: lock_get_record)
next
  case (5 l p eng spec q t)
  then obtain lp where "map_of (lock_specs l eng) spec = Some (Some lp)"
      "q = \<lparr>pin_resolved = lp_resolved lp, pin_source = lp_source lp, pin_hashes = lp_hashes lp\<rparr>"
    by (auto simp: lock_get_def split: option.splits)
  then show ?case
    using 5 by (simp add: lock_get_record Let_def merged_pin_hash base_pin_def) (simp add: mget_def)
qed

section \<open>Histories of a lock\<close>

text \<open>What a process does with its lock: load it, change it, save it. The state is the lock and
  what is on disk.\<close>

inductive lock_step :: "lock \<Rightarrow> lock \<Rightarrow> bool" where
  step_record: "gomap_ok (pin_hashes q) \<Longrightarrow> lock_step l (record_pin l eng spec q)"
| step_module: "record_module (Some l) source q = Some l' \<Longrightarrow> lock_step l l'"
| step_drop: "drop_module (Some l) source = Some l' \<Longrightarrow> lock_step l l'"
| step_download: "record_download (Some l) url digest = Some l' \<Longrightarrow> lock_step l l'"

inductive lock_run :: "('b \<Rightarrow> string + lock_file) \<Rightarrow> (lock_file \<Rightarrow> string + 'b) \<Rightarrow> string \<Rightarrow> lock \<Rightarrow> 'b read_result \<Rightarrow> bool"
  for unmarshal marshal path where
  run_load: "load_lock unmarshal disk path = Inr l \<Longrightarrow> lock_run unmarshal marshal path l disk"
| run_step: "lock_run unmarshal marshal path l disk \<Longrightarrow> lock_step l l' \<Longrightarrow> lock_run unmarshal marshal path l' disk"
| run_save: "lock_run unmarshal marshal path l disk \<Longrightarrow>
    save_lock marshal mkdir wr (Some l) = (err, Some l', w) \<Longrightarrow>
    lock_run unmarshal marshal path l' (case w of Some b \<Rightarrow> Contents b | None \<Rightarrow> disk)"

inductive_cases lock_stepE: "lock_step l l'"

definition no_dead :: "lock \<Rightarrow> bool" where
  "no_dead l = list_all (\<lambda>sp. \<not> dead_module (snd sp)) (lk_modules l)"

lemma drop_dead_fold:
  "set (lk_modules (foldl drop_dead l ms)) =
     {x \<in> set (lk_modules l). \<forall>sp\<in>set ms. dead_module (snd sp) \<longrightarrow> fst x \<noteq> fst sp} \<and>
   lk_path (foldl drop_dead l ms) = lk_path l \<and> lk_engines (foldl drop_dead l ms) = lk_engines l \<and>
   lk_downloads (foldl drop_dead l ms) = lk_downloads l"
proof (induction ms arbitrary: l)
  case (Cons sp ms)
  have "set (lk_modules (drop_dead l sp)) = {x \<in> set (lk_modules l). dead_module (snd sp) \<longrightarrow> fst x \<noteq> fst sp}"
    by (auto simp: drop_dead_def AList.delete_eq)
  moreover have "lk_path (drop_dead l sp) = lk_path l" "lk_engines (drop_dead l sp) = lk_engines l"
    "lk_downloads (drop_dead l sp) = lk_downloads l"
    by (simp_all add: drop_dead_def)
  ultimately show ?case using Cons.IH[of "drop_dead l sp"] by auto
qed simp

lemma drop_dead_clean:
  "\<not> lk_dirty (foldl drop_dead l ms) \<Longrightarrow> foldl drop_dead l ms = l \<and> list_all (\<lambda>sp. \<not> dead_module (snd sp)) ms"
proof (induction ms rule: rev_induct)
  case (snoc sp ms)
  then show ?case by (cases "dead_module (snd sp)") (auto simp: drop_dead_def)
qed simp

lemma drop_dead_none: "list_all (\<lambda>sp. \<not> dead_module (snd sp)) ms \<Longrightarrow> foldl drop_dead l ms = l"
  by (induction ms) (auto simp: drop_dead_def)

lemma load_no_dead:
  assumes "load_lock unmarshal disk path = Inr l"
  shows "no_dead l \<and> lk_path l = path"
proof (cases disk)
  case (Contents b)
  then obtain f where "unmarshal b = Inr f"
    using assms by (cases "unmarshal b") (auto simp: load_lock_def)
  then have f: "l = foldl drop_dead \<lparr>lk_engines = lf_engines f, lk_modules = lf_modules f,
           lk_downloads = lf_downloads f, lk_path = path, lk_dirty = False\<rparr> (lf_modules f)"
    using assms Contents by (simp add: load_lock_def)
  show ?thesis
    unfolding no_dead_def list_all_iff f using drop_dead_fold[of _ "lf_modules f"] by auto
qed (use assms in \<open>auto simp: load_lock_def no_dead_def\<close>)

text \<open>A step that leaves the flag down changed nothing.\<close>

lemma record_pin_clean:
  assumes "\<not> lk_dirty (record_pin l eng spec q)"
  shows "record_pin l eng spec q = l"
proof -
  let ?m = "merged_pin (mget None (lock_specs l eng) spec) q (lk_dirty l)"
  have "\<not> snd ?m" using assms by (simp add: record_pin_eq)
  then have m: "mget None (lock_specs l eng) spec = Some (fst ?m)" "\<not> lk_dirty l"
    using merged_pin_clean by blast+
  then have s: "map_of (lock_specs l eng) spec = Some (Some (fst ?m))"
    by (auto simp: mget_def split: option.splits)
  then have "map_of (lk_engines l) eng = Some (lock_specs l eng)"
    by (auto simp: lock_specs_def mget_def split: option.splits)
  then show ?thesis
    using s m(2) \<open>\<not> snd ?m\<close> by (simp add: record_pin_eq mput_same)
qed

lemma lock_step_clean: "lock_step l l' \<Longrightarrow> \<not> lk_dirty l' \<Longrightarrow> l' = l"
  by (erule lock_stepE)
     (auto simp: record_pin_clean record_module_def drop_module_def record_download_def split: if_splits)

lemma lock_step_no_dead: "lock_step l l' \<Longrightarrow> no_dead l \<Longrightarrow> no_dead l' \<and> lk_path l' = lk_path l"
  by (erule lock_stepE)
     (auto simp: no_dead_def record_pin_eq record_module_def drop_module_def record_download_def
        dead_module_def intro!: list_all_mput list_all_mdel split: if_splits)

definition in_sync :: "('b \<Rightarrow> string + lock_file) \<Rightarrow> 'b read_result \<Rightarrow> lock \<Rightarrow> bool" where
  "in_sync unmarshal disk l = (case disk of
     NotExist \<Rightarrow> file_of l = \<lparr>lf_engines = [], lf_modules = [], lf_downloads = []\<rparr>
   | ReadError _ \<Rightarrow> False
   | Contents b \<Rightarrow> unmarshal b = Inr (file_of l))"

lemma load_in_sync:
  "load_lock unmarshal disk path = Inr l \<Longrightarrow> \<not> lk_dirty l \<Longrightarrow> in_sync unmarshal disk l"
  by (auto simp: load_lock_def in_sync_def file_of_def dest!: drop_dead_clean split: read_result.splits sum.splits)

lemma in_sync_load:
  assumes "in_sync unmarshal disk l" "no_dead l" "\<not> lk_dirty l"
  shows "load_lock unmarshal disk (lk_path l) = Inr l"
  using assms drop_dead_none[of "lk_modules l"]
  by (auto simp: load_lock_def in_sync_def file_of_def no_dead_def split: read_result.splits)

lemma lock_run_inv:
  assumes "lock_run unmarshal marshal path l disk" "path \<noteq> []"
    and "\<And>f b. marshal f = Inr b \<Longrightarrow> unmarshal b = Inr f"
  shows "no_dead l \<and> lk_path l = path \<and> (\<not> lk_dirty l \<longrightarrow> in_sync unmarshal disk l)"
  using assms(1)
proof (induction rule: lock_run.induct)
  case (run_load disk l)
  then show ?case using load_no_dead[OF run_load] load_in_sync[OF run_load] by simp
next
  case (run_step l disk l')
  then show ?case using lock_step_no_dead lock_step_clean by metis
next
  case (run_save l disk mkdir wr err l' w)
  then show ?case
    using assms(2,3)
    by (auto simp: save_lock_def no_dead_def in_sync_def file_of_def split: if_splits sum.splits option.splits)
qed

lemma record_module_download:
  "record_module (Some l) source q = Some l' \<Longrightarrow> lk_downloads l' = lk_downloads l"
  "drop_module (Some l) source = Some l' \<Longrightarrow> lk_downloads l' = lk_downloads l"
  by (auto simp: record_module_def drop_module_def split: if_splits option.splits)

lemma lock_step_download:
  assumes "lock_step l l'" "get_download (Some l) url = (d, True)"
  shows "get_download (Some l') url = (d, True)"
  using assms(1)
proof cases
  case (step_record q eng spec)
  then show ?thesis using assms(2) by (simp add: get_download_def record_pin_eq)
next
  case (step_module source q)
  then show ?thesis using assms(2) record_module_download(1)[of l source q l'] by (simp add: get_download_def)
next
  case (step_drop source)
  then show ?thesis using assms(2) record_module_download(2)[of l source l'] by (simp add: get_download_def)
next
  case (step_download u digest)
  then show ?thesis using assms(2)
    by (auto simp: record_download_def get_download_def split: if_splits)
qed

section \<open>Properties\<close>

text \<open>C9. The lockfile never forgets an unsaved change: along any history of a lock, as long as the
  dirty flag is down the file on disk loads back as exactly this lock, so a \<open>Save\<close> that returns
  early loses nothing, and one that writes leaves a file with the whole lock. The codec's
  hypothesis is that YAML reads back what it wrote.\<close>

theorem saved_lock_reloads:
  assumes "lock_run unmarshal marshal path l disk" "path \<noteq> []"
    and "\<And>f b. marshal f = Inr b \<Longrightarrow> unmarshal b = Inr f"
    and "\<not> lk_dirty l"
  shows "load_lock unmarshal disk path = Inr l"
  using lock_run_inv[OF assms(1,2,3)] in_sync_load[of unmarshal disk l] assms(4) by simp

definition example_lock :: lock where
  "example_lock = \<lparr>lk_engines = [], lk_modules = [], lk_downloads = [], lk_path = ''doze.lock'', lk_dirty = False\<rparr>"

definition example_pin :: pin where
  "example_pin = \<lparr>pin_resolved = ''16.14.0'', pin_source = ''mirror'', pin_hashes = [(''x'', ''sha256:aa'')]\<rparr>"

definition example_saved :: lock where
  "example_saved = record_pin example_lock ''postgres'' ''16'' example_pin"

theorem saved_lock_reloads_witness:
  "load_lock Inr (Contents (file_of example_saved)) ''doze.lock'' = Inr (example_saved\<lparr>lk_dirty := False\<rparr>)"
proof (rule saved_lock_reloads[where marshal = Inr])
  have "lock_run Inr Inr ''doze.lock'' example_lock NotExist"
    by (rule run_load) (simp add: load_lock_def example_lock_def)
  then have "lock_run Inr Inr ''doze.lock'' example_saved NotExist"
    unfolding example_saved_def by (rule run_step) (simp add: step_record example_pin_def)
  moreover have "save_lock Inr (\<lambda>_. None) (\<lambda>_ _. None) (Some example_saved) =
      (None, Some (example_saved\<lparr>lk_dirty := False\<rparr>), Some (file_of example_saved))"
    by (simp add: save_lock_def example_saved_def example_lock_def record_pin_eq lock_specs_def
        merged_pin_def base_pin_def fill_source_def merge_hash_def example_pin_def)
  ultimately show "lock_run Inr Inr ''doze.lock'' (example_saved\<lparr>lk_dirty := False\<rparr>) (Contents (file_of example_saved))"
    using run_save[of Inr Inr "''doze.lock''" example_saved NotExist] by fastforce
qed simp_all

text \<open>C21. A download's pin is frozen: once the lock pins a URL, no step of the lock changes or drops
  that pin, whatever digests later fetches of the URL report.\<close>

theorem download_pin_frozen:
  assumes "lock_step\<^sup>*\<^sup>* l l'" "get_download (Some l) url = (d, True)"
  shows "get_download (Some l') url = (d, True)"
  using assms by (induction rule: rtranclp_induct) (auto simp: lock_step_download)

theorem download_pin_frozen_witness:
  "\<exists>l'. record_download (Some (example_lock\<lparr>lk_downloads := [(''u'', Some \<lparr>dp_sha256 = ''sha256:aa''\<rparr>)]\<rparr>)) ''u'' ''sha256:bb'' = Some l' \<and>
     get_download (Some l') ''u'' = (''sha256:aa'', True)"
proof -
  let ?l = "example_lock\<lparr>lk_downloads := [(''u'', Some \<lparr>dp_sha256 = ''sha256:aa''\<rparr>)]\<rparr>"
  have g: "get_download (Some ?l) ''u'' = (''sha256:aa'', True)" by (simp add: get_download_def)
  have r: "record_download (Some ?l) ''u'' ''sha256:bb'' = Some ?l" by (simp add: record_download_def g)
  then have "lock_step\<^sup>*\<^sup>* ?l ?l" using step_download by blast
  from download_pin_frozen[OF this g] r show ?thesis by blast
qed

text \<open>C2. What the lock is for: after a first resolve, a second one, on any machine, whatever the
  mirror has become by then and whatever counts as an exact version there, either fails or
  gives the same full version, from a fetch that had to produce the digest of the first; and
  the lock still pins that version and digest. The hypotheses on the two fetchers are the
  contract of \<open>Fetcher.Ensure\<close>: the first reports a digest, and a digest that was asked for is
  the one returned, or none is.\<close>

theorem pinned_resolve_reproduces:
  assumes "lock_ok l"
    and "resolve_via (\<lambda>l. lock_get (Some l)) record_pin rm1 ensure1 l plat eng spec ex1 = Ret (Inr tc1, l1)"
    and "resolve_via (\<lambda>l. lock_get (Some l)) record_pin rm2 ensure2 l1 plat eng spec ex2 = Ret (Inr tc2, l2)"
    and "tc_full tc1 \<noteq> []"
    and "\<And>full sha bin d. ensure1 eng full plat sha = Inr (bin, d) \<Longrightarrow> d \<noteq> []"
    and "\<And>full sha bin d. ensure2 eng full plat sha = Inr (bin, d) \<Longrightarrow> sha \<noteq> [] \<Longrightarrow> d = [] \<or> d = sha"
  shows "\<exists>sha d d2. ensure1 eng (tc_full tc1) plat sha = Inr (tc_bin_dir tc1, d) \<and>
    ensure2 eng (tc_full tc1) plat d = Inr (tc_bin_dir tc2, d2) \<and> (d2 = [] \<or> d2 = d) \<and>
    tc_full tc2 = tc_full tc1 \<and>
    (\<exists>p. lock_get (Some l2) eng spec = Ret (p, True) \<and> pin_resolved p = tc_full tc1 \<and>
      mget [] (pin_hashes p) (pl_triple plat) = d)"
proof -
  obtain sha d where e1: "ensure1 eng (tc_full tc1) plat sha = Inr (tc_bin_dir tc1, d)" "lock_ok l1"
      and pd: "d \<noteq> [] \<longrightarrow> binlock.pinned l1 eng spec (tc_full tc1) (pl_triple plat) d"
    using binlock.resolve_via_first[OF assms(2,1)] by blast
  have d: "d \<noteq> []" using assms(5)[OF e1(1)] .
  then have p1: "binlock.pinned l1 eng spec (tc_full tc1) (pl_triple plat) d" using pd by simp
  have er: "ensure_and_record record_pin ensure2 l1 plat eng spec (tc_full tc1) d = (Inr tc2, l2)"
    using binlock.resolve_via_pinned[OF p1 assms(4), of rm2 ensure2 ex2] assms(3) by simp
  obtain d2 where e2: "ensure2 eng (tc_full tc1) plat d = Inr (tc_bin_dir tc2, d2)" "tc_full tc2 = tc_full tc1"
    using binlock.ensure_and_record_pins[OF er e1(2)] by blast
  have "binlock.pinned l2 eng spec (tc_full tc1) (pl_triple plat) d"
    by (rule binlock.ensure_and_record_keeps[OF er e1(2) p1]) (use assms(6) d in blast)
  then show ?thesis
    using e1(1) e2 assms(6)[OF e2(1) d] unfolding binlock.pinned_def by blast
qed

definition example_ensure :: "string \<Rightarrow> ensure_fn" where
  "example_ensure bin eng full plat sha = Inr (bin, if sha = [] then ''sha256:'' @ full else sha)"

definition example_platform :: platform where
  "example_platform = \<lparr>pl_os = ''linux'', pl_arch = ''amd64'', pl_triple = ''x86_64-unknown-linux-gnu''\<rparr>"

definition example_resolved :: lock where
  "example_resolved = record_pin example_lock ''valkey'' ''8'' \<lparr>pin_resolved = ''8.1.8'', pin_source = ''mirror'',
     pin_hashes = [(''x86_64-unknown-linux-gnu'', ''sha256:8.1.8'')]\<rparr>"

theorem pinned_resolve_reproduces_witness:
  "\<exists>tc2 l2. resolve_via (\<lambda>l. lock_get (Some l)) record_pin (\<lambda>_ _. Inr ''9.0.0'') (example_ensure ''/b'') example_resolved
       example_platform ''valkey'' ''8'' (exact_dots 2) = Ret (Inr tc2, l2) \<and> tc_full tc2 = ''8.1.8''"
proof -
  let ?tc = "\<lambda>b. \<lparr>tc_engine = ''valkey'', tc_full = ''8.1.8'', tc_bin_dir = b, tc_tools = []\<rparr>"
  have ok: "lock_ok example_lock" by (simp add: lock_ok_def example_lock_def)
  have r1: "resolve_via (\<lambda>l. lock_get (Some l)) record_pin (\<lambda>_ _. Inr ''8.1.8'') (example_ensure ''/a'') example_lock
      example_platform ''valkey'' ''8'' (exact_dots 2) = Ret (Inr (?tc ''/a''), example_resolved)"
    by code_simp
  obtain l2 where r2: "resolve_via (\<lambda>l. lock_get (Some l)) record_pin (\<lambda>_ _. Inr ''9.0.0'') (example_ensure ''/b'') example_resolved
      example_platform ''valkey'' ''8'' (exact_dots 2) = Ret (Inr (?tc ''/b''), l2)"
  proof -
    have "resolve_via (\<lambda>l. lock_get (Some l)) record_pin (\<lambda>_ _. Inr ''9.0.0'') (example_ensure ''/b'') example_resolved
      example_platform ''valkey'' ''8'' (exact_dots 2) = Ret (Inr (?tc ''/b''), example_resolved)"
      by code_simp
    then show thesis using that by blast
  qed
  have "tc_full (?tc ''/b'') = ''8.1.8''"
    using pinned_resolve_reproduces[OF ok r1 r2] by (simp add: example_ensure_def split: if_splits)
  then show ?thesis using r2 by blast
qed

text \<open>A pin written as null in \<open>doze.lock\<close> loads without an error and is skipped when the lock is
  listed, but looking it up panics.\<close>

theorem null_pin_panics:
  "\<exists>l. load_lock Inr (Contents \<lparr>lf_engines = [(''postgres'', [(''16'', None)])], lf_modules = [], lf_downloads = []\<rparr>) ''doze.lock'' = Inr l \<and>
     lock_entries (Some l) = [] \<and> lock_resolved l ''postgres'' = [] \<and> lock_get (Some l) ''postgres'' ''16'' = Panic"
  by (simp add: load_lock_def lock_entries_def lock_resolved_def lock_get_def lock_specs_def mget_def)

end
