(* ===== verification/Fetch.thy ===== *)
theory Fetch
  imports Extract Lockfile
begin

text \<open>
  The fetcher: \<open>Manager\<close> of \<open>binaries/binaries.go\<close> and \<open>EnsureDownload\<close> of
  \<open>binaries/download.go\<close>, with the mirror's manifest types of \<open>binaries/manifest.go\<close>. The network,
  the environment, SHA-256, YAML, base64, ed25519 and the archive readers are parameters. The
  file system is the model's. Nothing is unpacked before its digest, and its signature where one
  is required, has been checked; a digest that was asked for is the one reported, or none is.
\<close>

section \<open>Types and parameters\<close>

record manifest_artifact =
  mfa_url :: string
  mfa_sha256 :: string
  mfa_sig :: string

record engine_manifest =
  em_versions :: "string gomap"
  em_artifacts :: "manifest_artifact gomap gomap"

definition zero_engine_manifest :: engine_manifest where
  "zero_engine_manifest = \<lparr>em_versions = [], em_artifacts = []\<rparr>"

record manifest =
  mf_engines :: "engine_manifest gomap"

record 'k manager =
  mg_home :: string
  mg_mirror_root :: string
  mg_signing_key :: "'k option"
  mg_manifests :: "manifest gomap"

definition new_manager :: "string \<Rightarrow> 'k manager" where
  "new_manager home = \<lparr>mg_home = home, mg_mirror_root = [], mg_signing_key = None, mg_manifests = []\<rparr>"

record 'k fetch_env =
  fe_getenv :: "string \<Rightarrow> string"
  fe_read_file :: "string \<Rightarrow> string + string"
  fe_http_get :: "string \<Rightarrow> string + (nat \<times> string)"
  fe_sha :: "string \<Rightarrow> string"
  fe_yaml :: "string \<Rightarrow> string + manifest"
  fe_tar :: "string \<Rightarrow> string + stream"
  fe_zip :: "string \<Rightarrow> string + stream"
  fe_url_path :: "string \<Rightarrow> string option"
  fe_b64 :: "string \<Rightarrow> string option"
  fe_verify :: "'k \<Rightarrow> string \<Rightarrow> string \<Rightarrow> bool"

datatype sig_error = ArtifactUnsigned | MalformedSig | SigMismatch

datatype fetch_error =
    ManifestFailed string
  | NoEngine string
  | NoMajor string string
  | NoArtifact string string string
  | CachedMismatch string string
  | DownloadFailed string
  | LockMismatch string string
  | ManifestMismatch string string
  | NoChecksum
  | SigFailed sig_error
  | ExtractFailed extract_error
  | NoBinDir
  | IoError string
  | NoExecutables

section \<open>Mirrors and manifests\<close>

definition default_mirror_root :: string where
  "default_mirror_root = ''https://github.com/doze-dev/doze-binaries/releases/download''"

definition mirror_base :: "'k fetch_env \<Rightarrow> 'k manager \<Rightarrow> string \<Rightarrow> string" where
  "mirror_base env m eng =
     (if mg_mirror_root m \<noteq> [] then trim_right_char slash (mg_mirror_root m) @ ''/'' @ eng
      else (let v = fe_getenv env (''DOZE_'' @ to_upper eng @ ''_MIRROR'') in
        if v \<noteq> [] then v
        else (let w = fe_getenv env ''DOZE_MIRROR'' in
          if w \<noteq> [] then trim_right_char slash w @ ''/'' @ eng
          else default_mirror_root @ ''/'' @ eng)))"

definition get_url :: "'k fetch_env \<Rightarrow> string \<Rightarrow> string + string" where
  "get_url env url = (case cut_prefix url ''file://'' of
     Some path \<Rightarrow> fe_read_file env path
   | None \<Rightarrow> (case fe_http_get env url of
       Inl e \<Rightarrow> Inl e
     | Inr (status, body) \<Rightarrow> if status \<noteq> 200 then Inl (''GET '' @ url) else Inr body))"

definition fetch_manifest :: "'k fetch_env \<Rightarrow> 'k manager \<Rightarrow> string \<Rightarrow> (fetch_error + manifest) \<times> 'k manager" where
  "fetch_manifest env m eng = (case map_of (mg_manifests m) eng of
     Some man \<Rightarrow> (Inr man, m)
   | None \<Rightarrow> (case get_url env (trim_right_char slash (mirror_base env m eng) @ ''/index.yaml'') of
       Inl e \<Rightarrow> (Inl (ManifestFailed e), m)
     | Inr body \<Rightarrow> (case fe_yaml env body of
         Inl e \<Rightarrow> (Inl (ManifestFailed e), m)
       | Inr man \<Rightarrow> (Inr man, m\<lparr>mg_manifests := mput eng man (mg_manifests m)\<rparr>))))"

definition manager_resolve_major :: "'k fetch_env \<Rightarrow> 'k manager \<Rightarrow> string \<Rightarrow> string \<Rightarrow> (fetch_error + string) \<times> 'k manager" where
  "manager_resolve_major env m eng major = (case fetch_manifest env m eng of
     (Inl e, m') \<Rightarrow> (Inl e, m')
   | (Inr man, m') \<Rightarrow> (case map_of (mf_engines man) eng of
       None \<Rightarrow> (Inl (NoEngine eng), m')
     | Some em \<Rightarrow> (case map_of (em_versions em) major of
         None \<Rightarrow> (Inl (NoMajor eng major), m')
       | Some full \<Rightarrow> (Inr full, m'))))"

section \<open>The cache\<close>

definition sha_meta_file :: string where
  "sha_meta_file = ''.doze-archive-sha''"

definition read_sha_meta :: "fs \<Rightarrow> string \<Rightarrow> string" where
  "read_sha_meta fs dir = (case read_at fs (comps (join_path [dir, sha_meta_file])) of
     None \<Rightarrow> [] | Some data \<Rightarrow> trim_space data)"

text \<open>Its error is ignored.\<close>

definition write_sha_meta :: "fs \<Rightarrow> string \<Rightarrow> string \<Rightarrow> fs" where
  "write_sha_meta fs dir digest =
     (case write_at fs (comps (join_path [dir, sha_meta_file])) 420 (digest @ [CHR 0x0A]) of
        Inl e \<Rightarrow> fs | Inr fs' \<Rightarrow> fs')"

definition dir_has_files :: "fs \<Rightarrow> string \<Rightarrow> bool" where
  "dir_has_files fs dir = (case read_dir fs (comps dir) of None \<Rightarrow> False | Some es \<Rightarrow> es \<noteq> [])"

definition content_dir :: "'k manager \<Rightarrow> string \<Rightarrow> string \<Rightarrow> string \<Rightarrow> string" where
  "content_dir m eng full triple = join_path [mg_home m, eng, full @ ''-'' @ triple]"

definition cached :: "fs \<Rightarrow> string \<Rightarrow> string \<Rightarrow> string \<Rightarrow> fetch_error + (string \<times> string)" where
  "cached fs contentDir binDir expectedSHA =
     (let digest = read_sha_meta fs contentDir in
      if expectedSHA \<noteq> [] \<and> digest \<noteq> [] \<and> digest \<noteq> expectedSHA then Inl (CachedMismatch digest expectedSHA)
      else Inr (binDir, digest))"

section \<open>Verifying and installing an archive\<close>

definition verify_sig :: "'k fetch_env \<Rightarrow> 'k \<Rightarrow> string \<Rightarrow> string \<Rightarrow> sig_error option" where
  "verify_sig env key shaHex sigB64 =
     (if sigB64 = [] then Some ArtifactUnsigned
      else (case fe_b64 env sigB64 of
        None \<Rightarrow> Some MalformedSig
      | Some sig \<Rightarrow> if \<not> fe_verify env key shaHex sig then Some SigMismatch else None))"

definition digest_of :: "'k fetch_env \<Rightarrow> string \<Rightarrow> string" where
  "digest_of env archive = ''sha256:'' @ fe_sha env archive"

definition check_archive :: "'k fetch_env \<Rightarrow> 'k manager \<Rightarrow> string \<Rightarrow> string \<Rightarrow> string \<Rightarrow> string \<Rightarrow> fetch_error option" where
  "check_archive env m archive wantSHA sig expectedSHA =
     (let gotSum = fe_sha env archive; digest = ''sha256:'' @ gotSum;
          sumErr = (if expectedSHA \<noteq> [] then
              (if digest \<noteq> expectedSHA then Some (LockMismatch expectedSHA digest) else None)
            else if wantSHA \<noteq> [] then
              (if \<not> equal_fold gotSum wantSHA then Some (ManifestMismatch wantSHA gotSum) else None)
            else Some NoChecksum) in
      case sumErr of Some e \<Rightarrow> Some e
      | None \<Rightarrow> (case mg_signing_key m of
          None \<Rightarrow> None
        | Some key \<Rightarrow> map_option SigFailed (verify_sig env key gotSum sig)))"

datatype key_error = KeyNotBase64 | KeyLength nat

text \<open>\<open>ParsePublicKey\<close>; the caller makes it the manager's signing key.\<close>

definition parse_public_key :: "(string \<Rightarrow> string option) \<Rightarrow> string \<Rightarrow> key_error + string" where
  "parse_public_key b64_decode b64 = (case b64_decode (trim_space b64) of
     None \<Rightarrow> Inl KeyNotBase64
   | Some raw \<Rightarrow> if length raw \<noteq> 32 then Inl (KeyLength (length raw)) else Inr raw)"

text \<open>\<open>WalkDir\<close> visits a tree in the lexicographic order of the component lists; links are not
  followed. The first directory named \<open>bin\<close>.\<close>

definition locate_bin_dir :: "fs \<Rightarrow> string list \<Rightarrow> string list option" where
  "locate_bin_dir fs root =
     (case sort_slice (\<lambda>a b. a < b)
        (map fst (filter (\<lambda>(k, n). prefix root k \<and> n = FDir \<and> k \<noteq> [] \<and> last k = ''bin'') fs)) of
        [] \<Rightarrow> None | p # _ \<Rightarrow> Some p)"

fun rename_each :: "fs \<Rightarrow> string list \<Rightarrow> string list \<Rightarrow> string list \<Rightarrow> fs" where
  "rename_each fs inner tmp [] = fs"
| "rename_each fs inner tmp (n # ns) =
     rename_each (case rename_at fs (inner @ [n]) (tmp @ [n]) of Inl e \<Rightarrow> fs | Inr fs' \<Rightarrow> fs') inner tmp ns"

text \<open>From \<open>tmp := contentDir + ".tmp"\<close> to the check of the bin directory.\<close>

definition install_archive :: "'k fetch_env \<Rightarrow> string \<Rightarrow> string \<Rightarrow> string \<Rightarrow> string \<Rightarrow> fs \<Rightarrow> fetch_error option \<times> fs" where
  "install_archive env contentDir binDir digest archive fs0 =
     (let tmp = contentDir @ ''.tmp'';
          fs1 = remove_all fs0 (comps tmp) in
      case extract_tar_gz (fe_tar env) archive tmp fs1 of
        (Some e, fs2) \<Rightarrow> (Some (ExtractFailed e), fs2)
      | (None, fs2) \<Rightarrow> (case locate_bin_dir fs2 (comps tmp) of
          None \<Rightarrow> (Some NoBinDir, fs2)
        | Some found \<Rightarrow>
            (let inner = butlast found;
                 fs3 = (if inner \<noteq> comps tmp
                   then rename_each fs2 inner (comps tmp) (case read_dir fs2 inner of None \<Rightarrow> [] | Some es \<Rightarrow> es)
                   else fs2);
                 fs4 = write_sha_meta fs3 tmp digest;
                 fs5 = remove_all fs4 (comps contentDir) in
             case mkdir_all fs5 (comps (dir_of contentDir)) of
               Inl e \<Rightarrow> (Some (IoError e), fs5)
             | Inr fs6 \<Rightarrow> (case rename_at fs6 (comps tmp) (comps contentDir) of
                 Inl e \<Rightarrow> (Some (IoError e), fs6)
               | Inr fs7 \<Rightarrow> if \<not> dir_has_files fs7 binDir then (Some NoExecutables, fs7) else (None, fs7)))))"

definition ensure_download ::
  "'k fetch_env \<Rightarrow> 'k manager \<Rightarrow> string \<Rightarrow> string \<Rightarrow> platform \<Rightarrow> string \<Rightarrow> string \<Rightarrow> string \<Rightarrow> string \<Rightarrow> fs \<Rightarrow>
   (fetch_error + (string \<times> string)) \<times> fs" where
  "ensure_download env m eng full plat url wantSHA sig expectedSHA fs =
     (let contentDir = content_dir m eng full (pl_triple plat); binDir = join_path [contentDir, ''bin''] in
      case get_url env url of
        Inl e \<Rightarrow> (Inl (DownloadFailed e), fs)
      | Inr archive \<Rightarrow> (case check_archive env m archive wantSHA sig expectedSHA of
          Some e \<Rightarrow> (Inl e, fs)
        | None \<Rightarrow> (case install_archive env contentDir binDir (digest_of env archive) archive fs of
            (Some e, fs') \<Rightarrow> (Inl e, fs')
          | (None, fs') \<Rightarrow> (Inr (binDir, digest_of env archive), fs'))))"

definition ensure_artifact ::
  "'k fetch_env \<Rightarrow> 'k manager \<Rightarrow> string \<Rightarrow> string \<Rightarrow> platform \<Rightarrow> string \<Rightarrow> string \<Rightarrow> string \<Rightarrow> string \<Rightarrow> fs \<Rightarrow>
   (fetch_error + (string \<times> string)) \<times> fs" where
  "ensure_artifact env m name full plat url sha256Hex sig expectedSHA fs =
     (let contentDir = content_dir m name full (pl_triple plat); binDir = join_path [contentDir, ''bin''] in
      if dir_has_files fs binDir then (cached fs contentDir binDir expectedSHA, fs)
      else ensure_download env m name full plat url sha256Hex sig expectedSHA fs)"

definition trim_left_slash :: "string \<Rightarrow> string" where
  "trim_left_slash s = trim_left_char slash s"

definition artifact_url :: "'k fetch_env \<Rightarrow> 'k manager \<Rightarrow> string \<Rightarrow> string \<Rightarrow> string" where
  "artifact_url env m eng url = (if \<not> contains_sub url ''://''
     then trim_right_char slash (mirror_base env m eng) @ ''/'' @ trim_left_slash url else url)"

definition ensure_toolchain ::
  "'k fetch_env \<Rightarrow> 'k manager \<Rightarrow> string \<Rightarrow> string \<Rightarrow> platform \<Rightarrow> string \<Rightarrow> fs \<Rightarrow>
   (fetch_error + (string \<times> string)) \<times> 'k manager \<times> fs" where
  "ensure_toolchain env m eng full plat expectedSHA fs =
     (let contentDir = content_dir m eng full (pl_triple plat); binDir = join_path [contentDir, ''bin''] in
      if dir_has_files fs binDir then (cached fs contentDir binDir expectedSHA, m, fs)
      else (case fetch_manifest env m eng of
          (Inl e, m') \<Rightarrow> (Inl e, m', fs)
        | (Inr man, m') \<Rightarrow>
            (case map_of (mget [] (em_artifacts (mget zero_engine_manifest (mf_engines man) eng)) full) (pl_triple plat) of
               None \<Rightarrow> (Inl (NoArtifact eng full (pl_triple plat)), m', fs)
             | Some art \<Rightarrow>
                 (case ensure_download env m' eng full plat (artifact_url env m' eng (mfa_url art))
                     (mfa_sha256 art) (mfa_sig art) expectedSHA fs of
                   (r, fs') \<Rightarrow> (r, m', fs')))))"

section \<open>EnsureDownload\<close>

definition archive_root :: "fs \<Rightarrow> string \<Rightarrow> string" where
  "archive_root fs contentDir =
     (let body = join_path [contentDir, ''root''] in
      case read_dir fs (comps body) of
        Some [n] \<Rightarrow> if fs_at fs (the (locate fs (comps body)) @ [n]) = Some FDir then join_path [body, n] else body
      | _ \<Rightarrow> body)"

text \<open>\<open>streamTo\<close>: the bytes end up in the file; the digest is of the bytes.\<close>

definition stream_to :: "'k fetch_env \<Rightarrow> string \<Rightarrow> string \<Rightarrow> fs \<Rightarrow> (string + string) \<times> fs" where
  "stream_to env rawURL file fs = (case get_url env rawURL of
     Inl e \<Rightarrow> (Inl e, fs)
   | Inr data \<Rightarrow> (case write_at fs (comps file) 438 data of
       Inl e \<Rightarrow> (Inl e, fs)
     | Inr fs' \<Rightarrow> (Inr (digest_of env data), fs')))"

definition download_dir :: "'k fetch_env \<Rightarrow> 'k manager \<Rightarrow> string \<Rightarrow> string" where
  "download_dir env m rawURL = join_path [mg_home m, ''downloads'', take 16 (fe_sha env rawURL)]"

text \<open>The steps in \<open>tmp\<close>, which is removed again when the function returns.\<close>

definition download_steps ::
  "'k fetch_env \<Rightarrow> string \<Rightarrow> string \<Rightarrow> string \<Rightarrow> string \<Rightarrow> fs \<Rightarrow> (fetch_error + (string \<times> string)) \<times> fs" where
  "download_steps env contentDir tmp rawURL expectedSHA fs2 =
     (let file = join_path [tmp, ''.download''] in
      case stream_to env rawURL file fs2 of
        (Inl e, fs3) \<Rightarrow> (Inl (DownloadFailed e), fs3)
      | (Inr digest, fs3) \<Rightarrow>
          if expectedSHA \<noteq> [] \<and> digest \<noteq> expectedSHA then (Inl (LockMismatch expectedSHA digest), fs3)
          else (let body = join_path [tmp, ''root''] in
            case mkdir_all fs3 (comps body) of
              Inl e \<Rightarrow> (Inl (IoError e), fs3)
            | Inr fs4 \<Rightarrow> (case unpack (fe_tar env) (fe_zip env) (fe_url_path env) file body rawURL fs4 of
                (Some e, fs5) \<Rightarrow> (Inl (ExtractFailed e), fs5)
              | (None, fs5) \<Rightarrow>
                  (let fs6 = write_sha_meta (remove_all fs5 (comps file)) tmp digest;
                       fs7 = remove_all fs6 (comps contentDir) in
                   case rename_at fs7 (comps tmp) (comps contentDir) of
                     Inl e \<Rightarrow> (Inl (IoError e), fs7)
                   | Inr fs8 \<Rightarrow> (Inr (archive_root fs8 contentDir, digest), fs8)))))"

definition ensure_url ::
  "'k fetch_env \<Rightarrow> 'k manager \<Rightarrow> string \<Rightarrow> string \<Rightarrow> fs \<Rightarrow> (fetch_error + (string \<times> string)) \<times> fs" where
  "ensure_url env m rawURL expectedSHA fs =
     (let contentDir = download_dir env m rawURL; have = read_sha_meta fs contentDir in
      if have \<noteq> [] then
        (if expectedSHA \<noteq> [] \<and> have \<noteq> expectedSHA then (Inl (CachedMismatch have expectedSHA), fs)
         else (Inr (archive_root fs contentDir, have), fs))
      else (case mkdir_all fs (comps (dir_of contentDir)) of
          Inl e \<Rightarrow> (Inl (IoError e), fs)
        | Inr fs1 \<Rightarrow>
            (let tmp = contentDir @ ''.tmp'' in
             case mkdir_all (remove_all fs1 (comps tmp)) (comps tmp) of
               Inl e \<Rightarrow> (Inl (IoError e), remove_all fs1 (comps tmp))
             | Inr fs2 \<Rightarrow> (case download_steps env contentDir tmp rawURL expectedSHA fs2 of
                 (r, fs3) \<Rightarrow> (r, remove_all fs3 (comps tmp))))))"

section \<open>What has been checked\<close>

text \<open>The specification of the gate: the lock's digest when there is one, else the manifest's
  checksum, which must be there; and under a signing key a valid signature of the checksum.\<close>

definition archive_verified :: "'k fetch_env \<Rightarrow> 'k manager \<Rightarrow> string \<Rightarrow> string \<Rightarrow> string \<Rightarrow> string \<Rightarrow> bool" where
  "archive_verified env m archive wantSHA sig expectedSHA \<longleftrightarrow>
     (if expectedSHA \<noteq> [] then digest_of env archive = expectedSHA
      else wantSHA \<noteq> [] \<and> equal_fold (fe_sha env archive) wantSHA) \<and>
     (\<forall>key. mg_signing_key m = Some key \<longrightarrow>
        (\<exists>s. fe_b64 env sig = Some s \<and> sig \<noteq> [] \<and> fe_verify env key (fe_sha env archive) s))"

lemma verify_sig_None:
  "verify_sig env key sha sig = None \<longleftrightarrow> (\<exists>s. fe_b64 env sig = Some s \<and> sig \<noteq> [] \<and> fe_verify env key sha s)"
  by (auto simp: verify_sig_def split: option.splits)

lemma check_archive_None: "check_archive env m a want sig expected = None \<longleftrightarrow> archive_verified env m a want sig expected"
  by (auto simp: check_archive_def archive_verified_def Let_def digest_of_def verify_sig_None split: option.splits)

lemma ensure_download_cases:
  assumes "ensure_download env m eng full plat url want sig expected fs = (r, fs')"
  obtains (fetched) a where "get_url env url = Inr a" "archive_verified env m a want sig expected"
      "\<And>bin d. r = Inr (bin, d) \<Longrightarrow> d = digest_of env a \<and> bin = join_path [content_dir m eng full (pl_triple plat), ''bin'']"
    | (refused) e where "r = Inl e" "fs' = fs"
proof (cases "get_url env url")
  case (Inl e)
  then show thesis using assms by (auto simp: ensure_download_def Let_def intro: that(2))
next
  case (Inr a)
  show thesis
  proof (cases "check_archive env m a want sig expected")
    case None
    then have v: "archive_verified env m a want sig expected" by (simp add: check_archive_None)
    show thesis
    proof (rule that(1)[OF Inr v])
      fix bin d assume "r = Inr (bin, d)"
      then show "d = digest_of env a \<and> bin = join_path [content_dir m eng full (pl_triple plat), ''bin'']"
        using assms Inr None
        by (cases "install_archive env (content_dir m eng full (pl_triple plat))
              (join_path [content_dir m eng full (pl_triple plat), ''bin'']) (digest_of env a) a fs")
           (auto simp: ensure_download_def Let_def split: option.splits)
    qed
  next
    case (Some e)
    then show thesis using assms Inr by (auto simp: ensure_download_def Let_def intro: that(2))
  qed
qed

lemma archive_verified_digest:
  "archive_verified env m a want sig expected \<Longrightarrow> expected \<noteq> [] \<Longrightarrow> digest_of env a = expected"
  by (simp add: archive_verified_def)

lemma ensure_toolchain_digest:
  assumes "ensure_toolchain env m eng full plat expected fs = (Inr (bin, d), m', fs')" "expected \<noteq> []"
  shows "d = [] \<or> d = expected"
proof (cases "dir_has_files fs (join_path [content_dir m eng full (pl_triple plat), ''bin''])")
  case True
  then show ?thesis using assms by (auto simp: ensure_toolchain_def Let_def cached_def split: if_splits)
next
  case False
  obtain m2 url want sig where e: "ensure_download env m2 eng full plat url want sig expected fs = (Inr (bin, d), fs')"
    using assms(1) False
    by (auto simp: ensure_toolchain_def Let_def split: prod.splits sum.splits option.splits)
  show ?thesis
    by (rule ensure_download_cases[OF e]) (auto dest: archive_verified_digest[OF _ assms(2)])
qed

lemma ensure_toolchain_fetched:
  assumes "ensure_toolchain env m eng full plat expected fs = (Inr (bin, d), m', fs')"
    "\<not> dir_has_files fs (join_path [content_dir m eng full (pl_triple plat), ''bin''])"
  shows "\<exists>url a. get_url env url = Inr a \<and> d = digest_of env a \<and> (expected \<noteq> [] \<longrightarrow> d = expected)"
proof -
  obtain m2 url want sig where e: "ensure_download env m2 eng full plat url want sig expected fs = (Inr (bin, d), fs')"
    using assms
    by (auto simp: ensure_toolchain_def Let_def split: prod.splits sum.splits option.splits)
  show ?thesis
    by (rule ensure_download_cases[OF e]) (auto intro!: exI dest: archive_verified_digest)
qed

lemma ensure_url_digest:
  assumes "ensure_url env m url expected fs = (Inr (dir, d), fs')" "expected \<noteq> []"
  shows "d = expected"
proof (cases "read_sha_meta fs (download_dir env m url) = []")
  case True
  obtain fs2 fs3 where s: "download_steps env (download_dir env m url) (download_dir env m url @ ''.tmp'') url expected fs2 =
      (Inr (dir, d), fs3)"
    using assms(1) True by (auto simp: ensure_url_def Let_def split: sum.splits prod.splits)
  then show ?thesis
    using assms(2) by (auto simp: download_steps_def Let_def split: sum.splits prod.splits option.splits if_splits)
next
  case False
  then show ?thesis using assms by (auto simp: ensure_url_def Let_def split: if_splits)
qed

section \<open>The store is a file system\<close>

lemma fs_ok_rename_each: "fs_ok fs \<Longrightarrow> fs_ok (rename_each fs inner tmp ns)"
  by (induction ns arbitrary: fs) (auto split: sum.split dest: fs_ok_rename_at)

lemma fs_ok_write_sha: "fs_ok fs \<Longrightarrow> fs_ok (write_sha_meta fs dir digest)"
  by (auto simp: write_sha_meta_def split: sum.split dest: fs_ok_write_at)

lemma fs_ok_swap_in:
  assumes "fs_ok fs"
  shows "fs_ok (snd (case mkdir_all (remove_all fs q) up of
      Inl e \<Rightarrow> (Some (IoError e), remove_all fs q)
    | Inr fs6 \<Rightarrow> (case rename_at fs6 p q of
        Inl e \<Rightarrow> (Some (IoError e), fs6)
      | Inr fs7 \<Rightarrow> if \<not> dir_has_files fs7 binDir then (Some NoExecutables, fs7) else (None, fs7))))"
  using fs_ok_remove_all[OF assms, of q]
  by (auto split: sum.split dest: fs_ok_mkdir_all fs_ok_rename_at)

lemma fs_ok_install:
  assumes "fs_ok fs"
  shows "fs_ok (snd (install_archive env contentDir binDir digest archive fs))"
proof -
  let ?tmp = "contentDir @ ''.tmp''"
  obtain r fs2 where e: "extract_tar_gz (fe_tar env) archive ?tmp (remove_all fs (comps ?tmp)) = (r, fs2)" by fastforce
  have ok: "fs_ok fs2"
    using fs_ok_extract(1)[OF fs_ok_remove_all[OF assms], of "fe_tar env" archive ?tmp "comps ?tmp"] e by simp
  have "fs_ok (write_sha_meta (if inner \<noteq> comps ?tmp then rename_each fs2 inner (comps ?tmp) ns else fs2) ?tmp digest)" for inner ns
    using ok by (simp add: fs_ok_write_sha fs_ok_rename_each)
  note swap = fs_ok_swap_in[OF this]
  show ?thesis using ok swap by (auto simp: install_archive_def e Let_def split: option.split)
qed

lemma fs_ok_download: "fs_ok fs \<Longrightarrow> fs_ok (snd (ensure_download env m eng full plat url want sig expected fs))"
  using fs_ok_install[of fs env]
  by (auto simp: ensure_download_def Let_def split: sum.split option.split prod.split) (metis snd_conv)+

lemma fs_ok_download_steps:
  assumes "fs_ok fs"
  shows "fs_ok (snd (download_steps env contentDir tmp rawURL expected fs))"
proof -
  let ?file = "join_path [tmp, ''.download'']" and ?body = "join_path [tmp, ''root'']"
  obtain r fs3 where s: "stream_to env rawURL ?file fs = (r, fs3)" by fastforce
  then have 3: "fs_ok fs3" using assms by (auto simp: stream_to_def split: sum.splits dest: fs_ok_write_at)
  have 4: "fs_ok fs4" if "mkdir_all fs3 (comps ?body) = Inr fs4" for fs4 using that 3 by (rule fs_ok_mkdir_all)
  have 5: "fs_ok (snd (unpack (fe_tar env) (fe_zip env) (fe_url_path env) ?file ?body rawURL fs4))"
    if "mkdir_all fs3 (comps ?body) = Inr fs4" for fs4 using fs_ok_extract(2)[OF 4[OF that]] .
  have 7: "fs_ok (remove_all (write_sha_meta (remove_all fs5 p) tmp d) q)" if "fs_ok fs5" for fs5 p d q
    using that by (intro fs_ok_remove_all fs_ok_write_sha)
  show ?thesis using 3 4 5 7
    by (auto simp: download_steps_def s Let_def split: sum.split option.split prod.split)
      (metis fs_ok_rename_at snd_conv)+
qed

lemma fs_ok_ensure_url:
  assumes "fs_ok fs"
  shows "fs_ok (snd (ensure_url env m rawURL expected fs))"
proof -
  let ?tmp = "download_dir env m rawURL @ ''.tmp''"
  have "fs_ok (remove_all fs1 (comps ?tmp))" if "mkdir_all fs p = Inr fs1" for fs1 p
    by (rule fs_ok_remove_all, rule fs_ok_mkdir_all[OF that assms])
  moreover have "fs_ok (remove_all (snd (download_steps env c ?tmp rawURL expected fs2)) (comps ?tmp))"
    if "mkdir_all fs p = Inr fs1" "mkdir_all (remove_all fs1 (comps ?tmp)) (comps ?tmp) = Inr fs2" for fs1 fs2 p c
    by (rule fs_ok_remove_all, rule fs_ok_download_steps, rule fs_ok_mkdir_all[OF that(2)]) (rule calculation[OF that(1)])
  ultimately show ?thesis using assms
    by (auto simp: ensure_url_def Let_def split: sum.split prod.split) (metis snd_conv)+
qed

section \<open>Properties\<close>

text \<open>C10. Nothing unverified is unpacked or returned. Whatever \<open>ensureDownload\<close> does, if it touched the
  file system or returned a directory, the bytes the URL served passed the whole gate: the
  lock's digest, or without one the manifest's checksum, and the publisher's signature when a
  signing key is set; and the digest it returns is that of those bytes.\<close>

theorem only_verified_archives:
  assumes "ensure_download env m eng full plat url want sig expected fs = (r, fs')"
    and "fs' \<noteq> fs \<or> r = Inr (bin, d)"
  shows "\<exists>a. get_url env url = Inr a \<and> archive_verified env m a want sig expected \<and>
    (r = Inr (bin, d) \<longrightarrow> d = digest_of env a)"
  by (rule ensure_download_cases[OF assms(1)]) (use assms(2) in auto)

definition example_env2 :: "string fetch_env" where
  "example_env2 = \<lparr>fe_getenv = (\<lambda>_. []), fe_read_file = Inl, fe_http_get = (\<lambda>u. Inr (200, u)), fe_sha = (\<lambda>b. b),
     fe_yaml = Inl, fe_tar = (\<lambda>_. Inr (take 2 example_entries, None)), fe_zip = Inl, fe_url_path = (\<lambda>_. None),
     fe_b64 = Some, fe_verify = (\<lambda>k m s. s = k @ m)\<rparr>"

definition example_manager :: "string manager" where
  "example_manager = (new_manager ''/home'')\<lparr>mg_signing_key := Some ''k''\<rparr>"

theorem only_verified_archives_witness:
  "fst (ensure_download example_env2 example_manager ''pg'' ''16'' example_platform ''http://x'' ''HTTP://X'' ''khttp://x'' [] example_fs) =
     Inr (''/home/pg/16-x86_64-unknown-linux-gnu/bin'', ''sha256:http://x'') \<and>
   archive_verified example_env2 example_manager ''http://x'' ''HTTP://X'' ''khttp://x'' []"
proof -
  let ?run = "ensure_download example_env2 example_manager ''pg'' ''16'' example_platform ''http://x'' ''HTTP://X'' ''khttp://x'' [] example_fs"
  have r: "fst ?run = Inr (''/home/pg/16-x86_64-unknown-linux-gnu/bin'', ''sha256:http://x'')" by code_simp
  have g: "get_url example_env2 ''http://x'' = Inr ''http://x''" by code_simp
  have "?run = (fst ?run, snd ?run)" by simp
  from only_verified_archives[OF this disjI2[OF r]] r g show ?thesis by auto
qed

text \<open>Whatever a mirror serves, links in the archive included, and wherever a call fails on the way, the
  file system it leaves is a well-formed one: every path names one thing, and everything that exists is in a
  directory that exists, for \<open>Ensure\<close>, \<open>EnsureArtifact\<close> and \<open>EnsureDownload\<close> alike.\<close>

theorem store_stays_well_formed:
  assumes "fs_ok fs"
  shows "fs_ok (snd (snd (ensure_toolchain env m eng full plat expected fs)))
    \<and> fs_ok (snd (ensure_artifact env m name full plat url want sig expected fs))
    \<and> fs_ok (snd (ensure_url env m rawURL expected fs))"
proof (intro conjI)
  show "fs_ok (snd (snd (ensure_toolchain env m eng full plat expected fs)))"
    using assms fs_ok_download[OF assms, of env]
    by (auto simp: ensure_toolchain_def Let_def split: sum.split option.split prod.split) (metis snd_conv)+
  show "fs_ok (snd (ensure_artifact env m name full plat url want sig expected fs))"
    using assms fs_ok_download[OF assms, of env] by (simp add: ensure_artifact_def Let_def)
  show "fs_ok (snd (ensure_url env m rawURL expected fs))" using assms by (rule fs_ok_ensure_url)
qed

theorem store_stays_well_formed_witness:
  "fs_ok (snd (ensure_artifact example_env2 example_manager ''pg'' ''16'' example_platform ''u'' [] [] [] [([''home''], FDir)]))"
proof -
  have "fs_ok [([''home''], FDir)]" by (simp add: fs_ok_def)
  from store_stays_well_formed[OF this] show ?thesis by blast
qed

text \<open>A download is trusted on first use and then held to it: once the lock pins the digest a
  first \<open>EnsureDownload\<close> reported, whatever the lock has been through since, a later call that is
  given the lock's pin either fails or reports that very digest.\<close>

theorem download_held_to_first_use:
  assumes "ensure_url env1 m1 url e1 fs1 = (Inr (dir1, d1), fs1')" "d1 \<noteq> []"
    and "record_download (Some l) url d1 = Some l1" "\<not> snd (get_download (Some l) url)" "lock_step\<^sup>*\<^sup>* l1 l2"
    and "ensure_url env2 m2 url (fst (get_download (Some l2) url)) fs2 = (Inr (dir2, d2), fs2')"
  shows "d2 = d1"
proof -
  have g: "get_download (Some l1) url = (d1, True)"
    using assms(2,3,4) by (auto simp: record_download_def get_download_def split: if_splits)
  from assms(5) have "get_download (Some l2) url = (d1, True)"
    using g by (induction rule: rtranclp_induct) (auto simp: lock_step_download)
  then show ?thesis using ensure_url_digest[OF assms(6)] assms(2) by simp
qed

definition example_root :: fs where
  "example_root = [([], FDir)]"

end
