(* ===== verification/Conv.thy ===== *)
theory Conv
  imports Lockfile "HOL-Library.Word"
begin

text \<open>
  What crosses the plugin wire: the protocol messages of \<open>plugin/proto/engine.pb.go\<close> as records
  (a message pointer that may be nil is an option, an int32 field a 32-bit word) and the
  conversions of \<open>plugin/conv.go\<close>. Go's int is 64 bits wide, so an int32 field truncates; every
  conversion is a round trip as long as those fields fit. The gob codec of a driver's own spec
  is a parameter.
\<close>

section \<open>Messages\<close>

record pb_platform =
  pbpl_os :: string
  pbpl_arch :: string
  pbpl_triple :: string

record pb_toolchain =
  pbtc_engine :: string
  pbtc_full :: string
  pbtc_bin_dir :: string
  pbtc_tools :: "string gomap"

record pb_pin =
  pbpin_resolved :: string
  pbpin_source :: string
  pbpin_hashes :: "string gomap"

record pb_lock_entry =
  pble_engine :: string
  pble_spec :: string
  pble_pin :: "pb_pin option"

record pb_endpoint =
  pbep_unix_socket :: string
  pbep_tcp_addr :: string
  pbep_backend :: string

record pb_dep =
  pbdep_name :: string
  pbdep_engine :: string
  pbdep_socket_dir :: string
  pbdep_backend :: string
  pbdep_url :: string

record pb_granted_listener =
  pbgl_addr :: string
  pbgl_url :: string
  pbgl_hosts :: "string list"
  pbgl_backend :: string

record pb_grant =
  pbgr_host :: string
  pbgr_listeners :: "pb_granted_listener gomap"

record pb_instance =
  pbin_name :: string
  pbin_type :: string
  pbin_version :: string
  pbin_data_dir :: string
  pbin_socket_dir :: string
  pbin_port :: "32 word"
  pbin_endpoint :: "pb_endpoint option"
  pbin_spec :: string
  pbin_deps :: "pb_dep gomap"
  pbin_toolchain :: "pb_toolchain option"
  pbin_grant :: "pb_grant option"

record pb_ready =
  pbrd_kind :: string
  pbrd_target :: string
  pbrd_interval_ns :: int
  pbrd_timeout_ns :: int
  pbrd_retries :: "32 word"

record pb_spawn_spec =
  pbss_name :: string
  pbss_dir :: string
  pbss_bin :: string
  pbss_args :: "string list"
  pbss_env :: "string list"
  pbss_tree :: bool
  pbss_after :: "string list"
  pbss_ready :: "pb_ready option"
  pbss_hooks :: "string list"

record pb_spawn_plan =
  pbsp_specs :: "pb_spawn_spec list"

record pb_restart_spec =
  pbrs_policy :: string
  pbrs_backoff_ns :: int
  pbrs_max_retries :: "32 word"

record pb_object =
  pbob_kind :: string
  pbob_name :: string
  pbob_hash :: string

record pb_resource =
  pbre_kind :: string
  pbre_name :: string
  pbre_status :: string
  pbre_info :: "string gomap"

record pb_action =
  pbac_id :: string
  pbac_label :: string
  pbac_kind :: string
  pbac_destructive :: bool
  pbac_input_hint :: string

record pb_listener =
  pbls_name :: string
  pbls_port :: "32 word"
  pbls_protocol :: string
  pbls_routes :: "string list"

record pb_network_response =
  pbnw_listeners :: "pb_listener list"

record pb_console_column =
  pbcc_key :: string
  pbcc_title :: string
  pbcc_align :: string
  pbcc_role :: string

record pb_console_panel =
  pbcp_id :: string
  pbcp_title :: string
  pbcp_kind :: string
  pbcp_source :: string
  pbcp_columns :: "pb_console_column list"
  pbcp_select :: string

datatype pb_console_node =
  PbNode (pbcn_kind: string) (pbcn_id: string) (pbcn_title: string) (pbcn_weight: "32 word")
    (pbcn_panel: string) (pbcn_from: string) (pbcn_text: string) (pbcn_actions: "string list")
    (pbcn_children: "pb_console_node list")

record pb_console_tab =
  pbct_id :: string
  pbct_title :: string
  pbct_body :: "pb_console_node option"

record pb_console_extension =
  pbce_after :: string
  pbce_node :: "pb_console_node option"

record pb_console_spec =
  pbcs_front :: string
  pbcs_web_url :: string
  pbcs_panels :: "pb_console_panel list"
  pbcs_tabs :: "pb_console_tab list"
  pbcs_extend :: "pb_console_extension list"

section \<open>Driver-side types that cross\<close>

text \<open>\<open>engine/spawn.go\<close>, \<open>engine/admin.go\<close> and \<open>engine/console.go\<close>.\<close>

record ready =
  rd_kind :: string
  rd_target :: string
  rd_interval :: int
  rd_timeout :: int
  rd_retries :: int

record spawn_spec =
  ss_name :: string
  ss_dir :: string
  ss_bin :: string
  ss_args :: "string list"
  ss_env :: "string list"
  ss_tree :: bool
  ss_after :: "string list"
  ss_ready :: "ready option"
  ss_hooks :: "string list"

record spawn_plan =
  sp_specs :: "spawn_spec list"

record resource =
  re_kind :: string
  re_name :: string
  re_status :: string
  re_info :: "string gomap"

record action =
  ac_id :: string
  ac_label :: string
  ac_kind :: string
  ac_destructive :: bool
  ac_input_hint :: string

record column =
  co_key :: string
  co_title :: string
  co_align :: string
  co_role :: string

record panel =
  pa_id :: string
  pa_title :: string
  pa_kind :: string
  pa_source :: string
  pa_columns :: "column list"
  pa_select :: string

datatype node =
  Node (nd_kind: string) (nd_id: string) (nd_title: string) (nd_weight: int)
    (nd_panel: string) (nd_from: string) (nd_text: string) (nd_actions: "string list")
    (nd_children: "node list")

definition zero_node :: node where
  "zero_node = Node [] [] [] 0 [] [] [] [] []"

record tab =
  tb_id :: string
  tb_title :: string
  tb_body :: node

record extension =
  ex_after :: string
  ex_node :: node

record console_spec =
  cs_front :: string
  cs_web_url :: string
  cs_panels :: "panel list"
  cs_tabs :: "tab list"
  cs_extend :: "extension list"

definition zero_console :: console_spec where
  "zero_console = \<lparr>cs_front = [], cs_web_url = [], cs_panels = [], cs_tabs = [], cs_extend = []\<rparr>"

text \<open>\<open>int32(x)\<close> and back.\<close>

definition to_int32 :: "int \<Rightarrow> 32 word" where
  "to_int32 i = word_of_int i"

definition of_int32 :: "32 word \<Rightarrow> int" where
  "of_int32 w = sint w"

definition int32_ok :: "int \<Rightarrow> bool" where
  "int32_ok i = (- (2 ^ 31) \<le> i \<and> i < 2 ^ 31)"

section \<open>Specs\<close>

text \<open>A driver's spec: nil, bytes a module already serialized (\<open>RawSpec\<close>), or a value of the
  driver's own type.\<close>

datatype 'v spec_val = NilSpec | RawSpec string | SpecValue 'v

text \<open>\<open>encodeSpec\<close>. Encoding an interface value, gob refuses a concrete type nobody registered, and
  nobody registers \<open>RawSpec\<close>.\<close>

definition encode_spec :: "('v \<Rightarrow> string + string) \<Rightarrow> 'v spec_val \<Rightarrow> string + string" where
  "encode_spec gob_enc spec = (case spec of
     NilSpec \<Rightarrow> Inr []
   | RawSpec b \<Rightarrow> Inl ''gob: type not registered for interface: plugin.RawSpec''
   | SpecValue v \<Rightarrow> gob_enc v)"

text \<open>An instance's spec: what is serialized already is shipped verbatim.\<close>

definition instance_spec :: "('v \<Rightarrow> string + string) \<Rightarrow> 'v spec_val \<Rightarrow> string + string" where
  "instance_spec gob_enc spec = (case spec of RawSpec b \<Rightarrow> Inr b | _ \<Rightarrow> encode_spec gob_enc spec)"

definition decode_spec :: "(string \<Rightarrow> string + 'v) \<Rightarrow> string \<Rightarrow> string + 'v spec_val" where
  "decode_spec gob_dec b = (if b = [] then Inr NilSpec
     else (case gob_dec b of Inl e \<Rightarrow> Inl e | Inr v \<Rightarrow> Inr (SpecValue v)))"

section \<open>Conversions\<close>

definition platform_to_proto :: "platform \<Rightarrow> pb_platform option" where
  "platform_to_proto p = Some \<lparr>pbpl_os = pl_os p, pbpl_arch = pl_arch p, pbpl_triple = pl_triple p\<rparr>"

definition platform_from_proto :: "pb_platform option \<Rightarrow> platform" where
  "platform_from_proto po = (case po of
     None \<Rightarrow> \<lparr>pl_os = [], pl_arch = [], pl_triple = []\<rparr>
   | Some p \<Rightarrow> \<lparr>pl_os = pbpl_os p, pl_arch = pbpl_arch p, pl_triple = pbpl_triple p\<rparr>)"

definition toolchain_to_proto :: "toolchain \<Rightarrow> pb_toolchain option" where
  "toolchain_to_proto t = Some \<lparr>pbtc_engine = tc_engine t, pbtc_full = tc_full t,
     pbtc_bin_dir = tc_bin_dir t, pbtc_tools = tc_tools t\<rparr>"

definition toolchain_from_proto :: "pb_toolchain option \<Rightarrow> toolchain" where
  "toolchain_from_proto t0 = (case t0 of
     None \<Rightarrow> zero_toolchain
   | Some t \<Rightarrow> \<lparr>tc_engine = pbtc_engine t, tc_full = pbtc_full t, tc_bin_dir = pbtc_bin_dir t, tc_tools = pbtc_tools t\<rparr>)"

definition pin_to_proto :: "pin \<Rightarrow> pb_pin option" where
  "pin_to_proto p = Some \<lparr>pbpin_resolved = pin_resolved p, pbpin_source = pin_source p, pbpin_hashes = pin_hashes p\<rparr>"

definition pin_from_proto :: "pb_pin option \<Rightarrow> pin" where
  "pin_from_proto po = (case po of
     None \<Rightarrow> zero_pin
   | Some p \<Rightarrow> \<lparr>pin_resolved = pbpin_resolved p, pin_source = pbpin_source p, pin_hashes = pbpin_hashes p\<rparr>)"

definition lock_entries_to_proto :: "lock_entry list \<Rightarrow> pb_lock_entry list" where
  "lock_entries_to_proto es =
     map (\<lambda>e. \<lparr>pble_engine = le_engine e, pble_spec = le_spec e, pble_pin = pin_to_proto (le_pin e)\<rparr>) es"

definition lock_entries_from_proto :: "pb_lock_entry list \<Rightarrow> lock_entry list" where
  "lock_entries_from_proto es =
     map (\<lambda>e. \<lparr>le_engine = pble_engine e, le_spec = pble_spec e, le_pin = pin_from_proto (pble_pin e)\<rparr>) es"

definition endpoint_to_proto :: "endpoint \<Rightarrow> pb_endpoint option" where
  "endpoint_to_proto e = Some \<lparr>pbep_unix_socket = ep_unix_socket e, pbep_tcp_addr = ep_tcp_addr e, pbep_backend = ep_backend e\<rparr>"

definition zero_endpoint :: endpoint where
  "zero_endpoint = \<lparr>ep_unix_socket = [], ep_tcp_addr = [], ep_backend = []\<rparr>"

definition endpoint_from_proto :: "pb_endpoint option \<Rightarrow> endpoint" where
  "endpoint_from_proto eo = (case eo of
     None \<Rightarrow> zero_endpoint
   | Some e \<Rightarrow> \<lparr>ep_unix_socket = pbep_unix_socket e, ep_tcp_addr = pbep_tcp_addr e, ep_backend = pbep_backend e\<rparr>)"

definition network_to_proto :: "network \<Rightarrow> pb_network_response" where
  "network_to_proto n = \<lparr>pbnw_listeners = map (\<lambda>l. \<lparr>pbls_name = ls_name l, pbls_port = to_int32 (ls_port l),
     pbls_protocol = ls_protocol l, pbls_routes = ls_routes l\<rparr>) (net_listeners n)\<rparr>"

definition network_from_proto :: "pb_network_response option \<Rightarrow> network" where
  "network_from_proto po = \<lparr>net_listeners = (case po of None \<Rightarrow> [] | Some p \<Rightarrow>
     map (\<lambda>l. \<lparr>ls_name = pbls_name l, ls_port = of_int32 (pbls_port l),
       ls_protocol = pbls_protocol l, ls_routes = pbls_routes l\<rparr>) (pbnw_listeners p))\<rparr>"

definition grant_to_proto :: "grant \<Rightarrow> pb_grant option" where
  "grant_to_proto g = (if \<not> grant_named g \<and> gr_listeners g = [] then None
     else Some \<lparr>pbgr_host = gr_host g, pbgr_listeners = map (\<lambda>(k, l). (k, \<lparr>pbgl_addr = gl_addr l,
       pbgl_url = gl_url l, pbgl_hosts = gl_hosts l, pbgl_backend = gl_backend l\<rparr>)) (gr_listeners g)\<rparr>)"

definition grant_from_proto :: "pb_grant option \<Rightarrow> grant" where
  "grant_from_proto po = (case po of
     None \<Rightarrow> zero_grant
   | Some p \<Rightarrow> \<lparr>gr_host = pbgr_host p, gr_listeners = map (\<lambda>(k, l). (k, \<lparr>gl_addr = pbgl_addr l,
       gl_url = pbgl_url l, gl_hosts = pbgl_hosts l, gl_backend = pbgl_backend l\<rparr>)) (pbgr_listeners p)\<rparr>)"

definition dep_to_proto :: "dep \<Rightarrow> pb_dep" where
  "dep_to_proto d = \<lparr>pbdep_name = dep_name d, pbdep_engine = dep_engine d,
     pbdep_socket_dir = dep_socket_dir d, pbdep_backend = dep_backend d, pbdep_url = dep_url d\<rparr>"

definition dep_from_proto :: "pb_dep \<Rightarrow> dep" where
  "dep_from_proto d = \<lparr>dep_name = pbdep_name d, dep_engine = pbdep_engine d,
     dep_socket_dir = pbdep_socket_dir d, dep_backend = pbdep_backend d, dep_url = pbdep_url d\<rparr>"

definition instance_to_proto ::
  "('v \<Rightarrow> string + string) \<Rightarrow> 'v spec_val instance_rec \<Rightarrow> string + pb_instance" where
  "instance_to_proto gob_enc inst = (case instance_spec gob_enc (in_spec inst) of
     Inl e \<Rightarrow> Inl e
   | Inr spec \<Rightarrow> Inr
      \<lparr>pbin_name = in_name inst, pbin_type = in_type inst, pbin_version = in_version inst,
       pbin_data_dir = in_data_dir inst, pbin_socket_dir = in_socket_dir inst,
       pbin_port = to_int32 (in_port inst), pbin_endpoint = endpoint_to_proto (in_endpoint inst),
       pbin_spec = spec, pbin_deps = map (\<lambda>(k, d). (k, dep_to_proto d)) (in_deps inst),
       pbin_toolchain = toolchain_to_proto (in_toolchain inst), pbin_grant = grant_to_proto (in_grant inst)\<rparr>)"

definition zero_instance :: "'v spec_val instance_rec" where
  "zero_instance = \<lparr>in_name = [], in_type = [], in_version = [], in_data_dir = [], in_socket_dir = [],
     in_port = 0, in_endpoint = zero_endpoint, in_spec = NilSpec, in_deps = [],
     in_toolchain = zero_toolchain, in_grant = zero_grant\<rparr>"

definition instance_from_proto ::
  "(string \<Rightarrow> string + 'v) \<Rightarrow> pb_instance option \<Rightarrow> string + 'v spec_val instance_rec" where
  "instance_from_proto gob_dec po = (case po of
     None \<Rightarrow> Inr zero_instance
   | Some p \<Rightarrow> (case decode_spec gob_dec (pbin_spec p) of
       Inl e \<Rightarrow> Inl e
     | Inr spec \<Rightarrow> Inr
        \<lparr>in_name = pbin_name p, in_type = pbin_type p, in_version = pbin_version p,
         in_data_dir = pbin_data_dir p, in_socket_dir = pbin_socket_dir p, in_port = of_int32 (pbin_port p),
         in_endpoint = endpoint_from_proto (pbin_endpoint p), in_spec = spec,
         in_deps = map (\<lambda>(k, d). (k, dep_from_proto d)) (pbin_deps p),
         in_toolchain = toolchain_from_proto (pbin_toolchain p), in_grant = grant_from_proto (pbin_grant p)\<rparr>))"

definition ready_to_proto :: "ready option \<Rightarrow> pb_ready option" where
  "ready_to_proto ro = (case ro of None \<Rightarrow> None
   | Some r \<Rightarrow> Some \<lparr>pbrd_kind = rd_kind r, pbrd_target = rd_target r, pbrd_interval_ns = rd_interval r,
       pbrd_timeout_ns = rd_timeout r, pbrd_retries = to_int32 (rd_retries r)\<rparr>)"

definition ready_from_proto :: "pb_ready option \<Rightarrow> ready option" where
  "ready_from_proto ro = (case ro of None \<Rightarrow> None
   | Some r \<Rightarrow> Some \<lparr>rd_kind = pbrd_kind r, rd_target = pbrd_target r, rd_interval = pbrd_interval_ns r,
       rd_timeout = pbrd_timeout_ns r, rd_retries = of_int32 (pbrd_retries r)\<rparr>)"

definition plan_to_proto :: "spawn_plan \<Rightarrow> pb_spawn_plan" where
  "plan_to_proto plan = \<lparr>pbsp_specs = map (\<lambda>s. \<lparr>pbss_name = ss_name s, pbss_dir = ss_dir s, pbss_bin = ss_bin s,
     pbss_args = ss_args s, pbss_env = ss_env s, pbss_tree = ss_tree s, pbss_after = ss_after s,
     pbss_ready = ready_to_proto (ss_ready s), pbss_hooks = ss_hooks s\<rparr>) (sp_specs plan)\<rparr>"

definition plan_from_proto :: "pb_spawn_plan option \<Rightarrow> spawn_plan" where
  "plan_from_proto po = \<lparr>sp_specs = (case po of None \<Rightarrow> [] | Some p \<Rightarrow>
     map (\<lambda>s. \<lparr>ss_name = pbss_name s, ss_dir = pbss_dir s, ss_bin = pbss_bin s,
       ss_args = pbss_args s, ss_env = pbss_env s, ss_tree = pbss_tree s, ss_after = pbss_after s,
       ss_ready = ready_from_proto (pbss_ready s), ss_hooks = pbss_hooks s\<rparr>) (pbsp_specs p))\<rparr>"

definition objects_to_proto :: "object_rec list \<Rightarrow> pb_object list" where
  "objects_to_proto objs = map (\<lambda>o'. \<lparr>pbob_kind = obj_kind o', pbob_name = obj_name o', pbob_hash = obj_hash o'\<rparr>) objs"

definition objects_from_proto :: "pb_object list \<Rightarrow> object_rec list" where
  "objects_from_proto ps = map (\<lambda>p. \<lparr>obj_kind = pbob_kind p, obj_name = pbob_name p, obj_hash = pbob_hash p\<rparr>) ps"

definition restart_to_proto :: "restart_spec \<Rightarrow> pb_restart_spec option" where
  "restart_to_proto r = Some \<lparr>pbrs_policy = rs_policy r, pbrs_backoff_ns = rs_backoff r, pbrs_max_retries = to_int32 (rs_max_retries r)\<rparr>"

definition restart_from_proto :: "pb_restart_spec option \<Rightarrow> restart_spec" where
  "restart_from_proto ro = (case ro of
     None \<Rightarrow> \<lparr>rs_policy = restart_no, rs_backoff = 0, rs_max_retries = 0\<rparr>
   | Some r \<Rightarrow> \<lparr>rs_policy = pbrs_policy r, rs_backoff = pbrs_backoff_ns r, rs_max_retries = of_int32 (pbrs_max_retries r)\<rparr>)"

definition actions_to_proto :: "action list \<Rightarrow> pb_action list" where
  "actions_to_proto as = map (\<lambda>a. \<lparr>pbac_id = ac_id a, pbac_label = ac_label a, pbac_kind = ac_kind a,
     pbac_destructive = ac_destructive a, pbac_input_hint = ac_input_hint a\<rparr>) as"

definition actions_from_proto :: "pb_action list \<Rightarrow> action list" where
  "actions_from_proto ps = map (\<lambda>p. \<lparr>ac_id = pbac_id p, ac_label = pbac_label p, ac_kind = pbac_kind p,
     ac_destructive = pbac_destructive p, ac_input_hint = pbac_input_hint p\<rparr>) ps"

definition resources_to_proto :: "resource list \<Rightarrow> pb_resource list" where
  "resources_to_proto rs = map (\<lambda>r. \<lparr>pbre_kind = re_kind r, pbre_name = re_name r, pbre_status = re_status r, pbre_info = re_info r\<rparr>) rs"

definition resources_from_proto :: "pb_resource list \<Rightarrow> resource list" where
  "resources_from_proto ps = map (\<lambda>p. \<lparr>re_kind = pbre_kind p, re_name = pbre_name p, re_status = pbre_status p, re_info = pbre_info p\<rparr>) ps"

section \<open>Consoles\<close>

primrec node_to_proto :: "node \<Rightarrow> pb_console_node" where
  "node_to_proto (Node k i t w p f x acts cs) =
     PbNode k i t (to_int32 w) p f x acts (map node_to_proto cs)"

primrec node_from_some :: "pb_console_node \<Rightarrow> node" where
  "node_from_some (PbNode k i t w p f x acts cs) =
     Node k i t (of_int32 w) p f x acts (map node_from_some cs)"

definition node_from_proto :: "pb_console_node option \<Rightarrow> node" where
  "node_from_proto no = (case no of None \<Rightarrow> zero_node | Some n \<Rightarrow> node_from_some n)"

definition columns_to_proto :: "column list \<Rightarrow> pb_console_column list" where
  "columns_to_proto cs = map (\<lambda>c. \<lparr>pbcc_key = co_key c, pbcc_title = co_title c, pbcc_align = co_align c, pbcc_role = co_role c\<rparr>) cs"

definition columns_from_proto :: "pb_console_column list \<Rightarrow> column list" where
  "columns_from_proto cs = map (\<lambda>c. \<lparr>co_key = pbcc_key c, co_title = pbcc_title c, co_align = pbcc_align c, co_role = pbcc_role c\<rparr>) cs"

definition console_spec_to_proto :: "console_spec \<Rightarrow> pb_console_spec" where
  "console_spec_to_proto s = \<lparr>pbcs_front = cs_front s, pbcs_web_url = cs_web_url s,
     pbcs_panels = map (\<lambda>p. \<lparr>pbcp_id = pa_id p, pbcp_title = pa_title p, pbcp_kind = pa_kind p,
       pbcp_source = pa_source p, pbcp_columns = columns_to_proto (pa_columns p), pbcp_select = pa_select p\<rparr>) (cs_panels s),
     pbcs_tabs = map (\<lambda>t. \<lparr>pbct_id = tb_id t, pbct_title = tb_title t, pbct_body = Some (node_to_proto (tb_body t))\<rparr>) (cs_tabs s),
     pbcs_extend = map (\<lambda>e. \<lparr>pbce_after = ex_after e, pbce_node = Some (node_to_proto (ex_node e))\<rparr>) (cs_extend s)\<rparr>"

definition console_spec_from_proto :: "pb_console_spec option \<Rightarrow> console_spec" where
  "console_spec_from_proto so = (case so of None \<Rightarrow> zero_console
   | Some s \<Rightarrow> \<lparr>cs_front = pbcs_front s, cs_web_url = pbcs_web_url s,
       cs_panels = map (\<lambda>p. \<lparr>pa_id = pbcp_id p, pa_title = pbcp_title p, pa_kind = pbcp_kind p,
         pa_source = pbcp_source p, pa_columns = columns_from_proto (pbcp_columns p), pa_select = pbcp_select p\<rparr>) (pbcs_panels s),
       cs_tabs = map (\<lambda>t. \<lparr>tb_id = pbct_id t, tb_title = pbct_title t, tb_body = node_from_proto (pbct_body t)\<rparr>) (pbcs_tabs s),
       cs_extend = map (\<lambda>e. \<lparr>ex_after = pbce_after e, ex_node = node_from_proto (pbce_node e)\<rparr>) (pbcs_extend s)\<rparr>)"

section \<open>Round trips\<close>

named_theorems wire_trip

lemma int32_trip [wire_trip]: "of_int32 (to_int32 i) = i \<longleftrightarrow> int32_ok i"
proof -
  have r: "- (2 ^ 31) \<le> sint (w :: 32 word) \<and> sint w < 2 ^ 31" for w
    using sint_greater_eq[of w] sint_less[of w] by simp
  show ?thesis
  proof
    assume "of_int32 (to_int32 i) = i"
    then show "int32_ok i" using r[of "to_int32 i"] by (simp add: of_int32_def int32_ok_def)
  next
    assume "int32_ok i"
    then show "of_int32 (to_int32 i) = i"
      by (simp add: of_int32_def to_int32_def int32_ok_def signed_of_int signed_take_bit_int_eq_self)
  qed
qed

lemma platform_trip [wire_trip]: "platform_from_proto (platform_to_proto p) = p"
  by (simp add: platform_to_proto_def platform_from_proto_def)

lemma toolchain_trip [wire_trip]: "toolchain_from_proto (toolchain_to_proto t) = t"
  by (simp add: toolchain_to_proto_def toolchain_from_proto_def)

lemma pin_trip [wire_trip]: "pin_from_proto (pin_to_proto p) = p"
  by (simp add: pin_to_proto_def pin_from_proto_def)

lemma lock_entries_trip [wire_trip]: "lock_entries_from_proto (lock_entries_to_proto es) = es"
  by (induction es) (simp_all add: lock_entries_to_proto_def lock_entries_from_proto_def wire_trip)

lemma endpoint_trip [wire_trip]: "endpoint_from_proto (endpoint_to_proto e) = e"
  by (simp add: endpoint_to_proto_def endpoint_from_proto_def)

lemma map_values_trip:
  "(\<And>x. g (f x) = x) \<Longrightarrow> map (\<lambda>(k, y). (k, g y)) (map (\<lambda>(k, x). (k, f x)) m) = m"
  by (induction m) auto

lemma grant_trip [wire_trip]: "grant_from_proto (grant_to_proto g) = g"
proof (cases "\<not> grant_named g \<and> gr_listeners g = []")
  case True
  then show ?thesis
    by (simp add: grant_to_proto_def grant_from_proto_def zero_grant_def grant_named_def)
next
  case False
  have "map (\<lambda>(k, l). (k, \<lparr>gl_addr = pbgl_addr l, gl_url = pbgl_url l, gl_hosts = pbgl_hosts l, gl_backend = pbgl_backend l\<rparr>))
      (map (\<lambda>(k, l). (k, \<lparr>pbgl_addr = gl_addr l, pbgl_url = gl_url l, pbgl_hosts = gl_hosts l, pbgl_backend = gl_backend l\<rparr>)) m) = m"
    for m by (rule map_values_trip) simp
  from this[of "gr_listeners g"] False show ?thesis
    by (cases g) (auto simp add: grant_to_proto_def grant_from_proto_def simp del: map_map)
qed

lemma deps_trip [wire_trip]: "map (\<lambda>(k, d). (k, dep_from_proto d)) (map (\<lambda>(k, d). (k, dep_to_proto d)) m) = m"
  by (rule map_values_trip) (simp add: dep_from_proto_def dep_to_proto_def)

lemma objects_trip [wire_trip]: "objects_from_proto (objects_to_proto os) = os"
  by (induction os) (simp_all add: objects_to_proto_def objects_from_proto_def)

lemma actions_trip [wire_trip]: "actions_from_proto (actions_to_proto as) = as"
  by (induction as) (simp_all add: actions_to_proto_def actions_from_proto_def)

lemma resources_trip [wire_trip]: "resources_from_proto (resources_to_proto rs) = rs"
  by (induction rs) (simp_all add: resources_to_proto_def resources_from_proto_def)

lemma columns_trip [wire_trip]: "columns_from_proto (columns_to_proto cs) = cs"
  by (induction cs) (simp_all add: columns_to_proto_def columns_from_proto_def)

definition ready_fits :: "ready option \<Rightarrow> bool" where
  "ready_fits ro = (case ro of None \<Rightarrow> True | Some r \<Rightarrow> int32_ok (rd_retries r))"

lemma ready_trip: "ready_from_proto (ready_to_proto r) = r \<longleftrightarrow> ready_fits r"
  by (cases r) (auto simp: ready_to_proto_def ready_from_proto_def ready_fits_def wire_trip
      intro!: ready.equality dest: arg_cong[where f = rd_retries])

lemma map_id_iff: "map f xs = xs \<longleftrightarrow> (\<forall>x\<in>set xs. f x = x)"
  by (induction xs) auto

lemma plan_trip: "plan_from_proto (Some (plan_to_proto p)) = p \<longleftrightarrow> (\<forall>s\<in>set (sp_specs p). ready_fits (ss_ready s))"
proof -
  let ?f = "\<lambda>s :: spawn_spec. s\<lparr>ss_ready := ready_from_proto (ready_to_proto (ss_ready s))\<rparr>"
  have "plan_from_proto (Some (plan_to_proto p)) = p\<lparr>sp_specs := map ?f (sp_specs p)\<rparr>"
    by (simp add: plan_from_proto_def plan_to_proto_def comp_def)
  moreover have "?f s = s \<longleftrightarrow> ready_fits (ss_ready s)" for s
    by (cases s) (simp add: ready_trip)
  ultimately show ?thesis by (cases p) (simp add: map_id_iff)
qed

lemma network_trip: "network_from_proto (Some (network_to_proto n)) = n \<longleftrightarrow> (\<forall>l\<in>set (net_listeners n). int32_ok (ls_port l))"
proof -
  let ?f = "\<lambda>l :: listener. l\<lparr>ls_port := of_int32 (to_int32 (ls_port l))\<rparr>"
  have "network_from_proto (Some (network_to_proto n)) = n\<lparr>net_listeners := map ?f (net_listeners n)\<rparr>"
    by (simp add: network_from_proto_def network_to_proto_def comp_def)
  moreover have "?f l = l \<longleftrightarrow> int32_ok (ls_port l)" for l
    by (cases l) (simp add: wire_trip)
  ultimately show ?thesis by (cases n) (simp add: map_id_iff)
qed

lemma restart_trip: "restart_from_proto (restart_to_proto r) = r \<longleftrightarrow> int32_ok (rs_max_retries r)"
  by (cases r) (simp add: restart_from_proto_def restart_to_proto_def wire_trip)

primrec node_fits :: "node \<Rightarrow> bool" where
  "node_fits (Node k i t w p f x acts cs) = (int32_ok w \<and> list_all id (map node_fits cs))"

lemma node_trip: "node_from_some (node_to_proto n) = n \<longleftrightarrow> node_fits n"
  by (induction n) (auto simp: wire_trip map_id_iff list_all_iff)

definition console_fits :: "console_spec \<Rightarrow> bool" where
  "console_fits s = (list_all (\<lambda>t. node_fits (tb_body t)) (cs_tabs s) \<and> list_all (\<lambda>e. node_fits (ex_node e)) (cs_extend s))"

lemma console_trip: "console_spec_from_proto (Some (console_spec_to_proto s)) = s \<longleftrightarrow> console_fits s"
proof -
  let ?t = "\<lambda>t. \<lparr>tb_id = tb_id t, tb_title = tb_title t, tb_body = node_from_some (node_to_proto (tb_body t))\<rparr>"
  let ?e = "\<lambda>e. \<lparr>ex_after = ex_after e, ex_node = node_from_some (node_to_proto (ex_node e))\<rparr>"
  have eta: "\<lparr>pa_id = pa_id q, pa_title = pa_title q, pa_kind = pa_kind q, pa_source = pa_source q,
      pa_columns = pa_columns q, pa_select = pa_select q\<rparr> = q" for q :: panel
    by (cases q) simp
  have "console_spec_from_proto (Some (console_spec_to_proto s)) =
      \<lparr>cs_front = cs_front s, cs_web_url = cs_web_url s, cs_panels = cs_panels s,
       cs_tabs = map ?t (cs_tabs s), cs_extend = map ?e (cs_extend s)\<rparr>"
    by (simp add: console_spec_from_proto_def console_spec_to_proto_def comp_def wire_trip node_from_proto_def eta)
  moreover have "?t t = t \<longleftrightarrow> node_fits (tb_body t)" for t :: tab
    by (cases t) (simp add: node_trip)
  moreover have "?e e = e \<longleftrightarrow> node_fits (ex_node e)" for e :: extension
    by (cases e) (simp add: node_trip)
  ultimately show ?thesis by (cases s) (simp add: map_id_iff console_fits_def list_all_iff)
qed

text \<open>What the module's side sees of an instance: the same instance, except that bytes the module
  serialized before are decoded.\<close>

definition opened_spec :: "(string \<Rightarrow> string + 'v) \<Rightarrow> 'v spec_val \<Rightarrow> string + 'v spec_val" where
  "opened_spec gob_dec spec = (case spec of RawSpec b \<Rightarrow> decode_spec gob_dec b | _ \<Rightarrow> Inr spec)"

lemma instance_wire:
  assumes "\<And>v b. gob_enc v = Inr b \<Longrightarrow> b \<noteq> [] \<and> gob_dec b = Inr v" "int32_ok (in_port inst)"
    and "instance_to_proto gob_enc inst = Inr p"
  shows "instance_from_proto gob_dec (Some p) =
    (case opened_spec gob_dec (in_spec inst) of Inl e \<Rightarrow> Inl e | Inr spec \<Rightarrow> Inr (inst\<lparr>in_spec := spec\<rparr>))"
proof -
  obtain spec where s: "instance_spec gob_enc (in_spec inst) = Inr spec"
    using assms(3) by (auto simp: instance_to_proto_def split: sum.splits)
  have d: "decode_spec gob_dec spec = opened_spec gob_dec (in_spec inst)"
    using s assms(1) by (auto simp: instance_spec_def encode_spec_def opened_spec_def decode_spec_def split: spec_val.splits)
  have p: "of_int32 (to_int32 (in_port inst)) = in_port inst"
    using assms(2) by (simp add: wire_trip)
  show ?thesis
    using assms(3) s d p wire_trip
    by (cases "opened_spec gob_dec (in_spec inst)"; cases inst)
       (auto simp: instance_to_proto_def instance_from_proto_def simp del: map_map)
qed

section \<open>Properties\<close>

text \<open>C22. An instance crosses the wire whole. With a gob codec that reads back what it wrote, never
  as no bytes, the module gets exactly the host's instance, names, ports, dependencies,
  toolchain and grant, with its spec decoded, as long as the port fits 32 bits; if the spec
  cannot be encoded or decoded, the error of the codec is all that comes of it.\<close>

theorem instance_crosses_wire:
  assumes "\<And>v b. gob_enc v = Inr b \<Longrightarrow> b \<noteq> [] \<and> gob_dec b = Inr v" "int32_ok (in_port inst)"
    and "instance_to_proto gob_enc inst = Inr p"
  shows "instance_from_proto gob_dec (Some p) =
    (case opened_spec gob_dec (in_spec inst) of Inl e \<Rightarrow> Inl e | Inr spec \<Rightarrow> Inr (inst\<lparr>in_spec := spec\<rparr>))"
  using assms by (rule instance_wire)

definition example_instance :: "int spec_val instance_rec" where
  "example_instance = \<lparr>in_name = ''db'', in_type = ''postgres'', in_version = ''16'', in_data_dir = ''/d'',
     in_socket_dir = ''/s'', in_port = 5432, in_endpoint = zero_endpoint, in_spec = SpecValue 7,
     in_deps = [(''cache'', \<lparr>dep_name = ''cache'', dep_engine = ''valkey'', dep_socket_dir = ''/c'', dep_backend = ''/c/s'', dep_url = []\<rparr>)],
     in_toolchain = zero_toolchain, in_grant = \<lparr>gr_host = ''db.shop.doze'', gr_listeners = []\<rparr>\<rparr>"

theorem instance_crosses_wire_witness:
  "\<exists>p. instance_to_proto (\<lambda>v :: int. Inr (dec_int v @ ''.'')) example_instance = Inr p \<and>
     instance_from_proto (\<lambda>b. case atoi (butlast b) of Some v \<Rightarrow> Inr v | None \<Rightarrow> Inl b) (Some p) = Inr example_instance"
proof -
  let ?enc = "\<lambda>v :: int. if int64_ok v then Inr (dec_int v @ ''.'') else Inl []"
  let ?dec = "\<lambda>b. case atoi (butlast b) of Some v \<Rightarrow> Inr v | None \<Rightarrow> Inl b"
  have c: "?enc v = Inr b \<Longrightarrow> b \<noteq> [] \<and> ?dec b = Inr v" for v b
    by (auto simp: atoi_dec_int split: if_splits)
  have i: "int32_ok (in_port example_instance)" by (simp add: example_instance_def int32_ok_def)
  have e: "int64_ok 7" by (simp add: int64_ok_def)
  obtain p where p: "instance_to_proto ?enc example_instance = Inr p"
      "instance_to_proto (\<lambda>v :: int. Inr (dec_int v @ ''.'')) example_instance = Inr p"
    using e by (simp add: instance_to_proto_def instance_spec_def encode_spec_def example_instance_def)
  show ?thesis
    using instance_crosses_wire[of ?enc ?dec, OF c i p(1)] p(2)
    by (simp add: opened_spec_def example_instance_def)
qed


end
