(* ===== verification/Driver.thy ===== *)
theory Driver
  imports Conv
begin

text \<open>
  The contract between doze and an engine module: \<open>engine.Driver\<close> and the optional capability
  interfaces of \<open>engine/driver.go\<close>, \<open>engine/spawn.go\<close>, \<open>engine/admin.go\<close>, \<open>engine/console.go\<close> and
  \<open>engine/network.go\<close>, as a record. A driver is somebody else's code: each method is a function of
  its arguments and of a world it may change, and an interface a driver does not implement is
  \<open>None\<close>. Beside it, errors and what gRPC makes of them.
\<close>

section \<open>Errors\<close>

datatype code = Unknown | Unimplemented | InvalidArgument | OtherCode string

definition code_text :: "code \<Rightarrow> string" where
  "code_text c = (case c of Unknown \<Rightarrow> ''Unknown'' | Unimplemented \<Rightarrow> ''Unimplemented''
     | InvalidArgument \<Rightarrow> ''InvalidArgument'' | OtherCode s \<Rightarrow> s)"

text \<open>An error is a plain one, by its text, or a gRPC status.\<close>

datatype go_error = Plain string | Status code string

definition error_text :: "go_error \<Rightarrow> string" where
  "error_text e = (case e of Plain m \<Rightarrow> m
     | Status c m \<Rightarrow> ''rpc error: code = '' @ code_text c @ '' desc = '' @ m)"

text \<open>What a handler's error is on the other side of a call: a status is itself, and anything else
  is a status of an unknown code with the error's text.\<close>

definition on_wire :: "go_error \<Rightarrow> go_error" where
  "on_wire e = (case e of Plain m \<Rightarrow> Status Unknown m | Status c m \<Rightarrow> Status c m)"

definition user_error :: "go_error option \<Rightarrow> go_error option" where
  "user_error err = (case err of
     None \<Rightarrow> None
   | Some e \<Rightarrow> (case e of
       Status c m \<Rightarrow> if m \<noteq> [] then Some (Plain m) else Some e
     | Plain m \<Rightarrow> Some e))"

text \<open>The error a driver returned, as the host hands it on.\<close>

definition told :: "go_error \<Rightarrow> go_error" where
  "told e = the (user_error (Some (on_wire e)))"

lemma user_error_simps [simp]:
  "user_error None = None" "user_error (Some (on_wire e)) = Some (told e)"
  by (cases e; simp add: user_error_def told_def on_wire_def)+

lemma told_plain: "m \<noteq> [] \<Longrightarrow> told (Plain m) = Plain m"
  by (simp add: told_def on_wire_def user_error_def)

section \<open>Calls\<close>

type_synonym ('w, 'a) act = "'w \<Rightarrow> 'a \<times> 'w"

type_synonym 'v inst = "'v spec_val instance_rec"

record row =
  rw_cells :: "string gomap"
  rw_tone :: string

record ('v, 'w) hooks =
  hk_pre_start :: "'v inst \<Rightarrow> ('w, go_error option) act"
  hk_post_start :: "'v inst \<Rightarrow> ('w, go_error option) act"
  hk_pre_stop :: "'v inst \<Rightarrow> ('w, go_error option) act"

record 'w templater =
  tm_ensure :: "toolchain \<Rightarrow> string \<Rightarrow> ('w, go_error option) act"
  tm_clone :: "string \<Rightarrow> string \<Rightarrow> ('w, go_error option) act"

record ('v, 'w) admin =
  ad_resources :: "'v inst \<Rightarrow> endpoint \<Rightarrow> ('w, go_error + resource list) act"
  ad_actions :: "('w, action list) act"
  ad_run :: "'v inst \<Rightarrow> endpoint \<Rightarrow> string \<Rightarrow> string \<Rightarrow> string \<Rightarrow> ('w, go_error + string) act"

text \<open>\<open>Tail\<close> gives the rows it writes until it returns, and what it returns.\<close>

record ('v, 'w) console =
  cn_describe :: "('w, console_spec) act"
  cn_tail :: "'v inst \<Rightarrow> endpoint \<Rightarrow> string \<Rightarrow> string \<Rightarrow> nat option \<Rightarrow> ('w, row list \<times> go_error option) act"

text \<open>The interfaces of one method. \<open>Versionless\<close> says what it says by being implemented; \<open>'c\<close> is a cty value.\<close>

type_synonym ('v, 'w) converger = "'v inst \<Rightarrow> toolchain \<Rightarrow> endpoint \<Rightarrow> ('w, go_error option) act"
type_synonym ('v, 'w) inventory = "'v inst \<Rightarrow> ('w, object_rec list) act"
type_synonym ('v, 'w) pruner = "'v inst \<Rightarrow> toolchain \<Rightarrow> endpoint \<Rightarrow> object_rec list \<Rightarrow> ('w, go_error option) act"
type_synonym ('v, 'c, 'w) attributer = "'v inst \<Rightarrow> endpoint \<Rightarrow> ('w, 'c gomap) act"
type_synonym ('v, 'w) backend_provider = "'v inst \<Rightarrow> ('w, string) act"
type_synonym ('v, 'w) lifecycle = "'v inst \<Rightarrow> ('w, bool) act"
type_synonym ('v, 'w) health_checker = "'v inst \<Rightarrow> ('w, go_error option) act"
type_synonym ('v, 'w) restartable = "'v inst \<Rightarrow> ('w, restart_spec) act"
type_synonym ('v, 'w) port_binder = "'v inst \<Rightarrow> ('w, string \<times> bool) act"
type_synonym ('v, 'w) spawner = "'v inst \<Rightarrow> toolchain \<Rightarrow> ('w, go_error + spawn_plan) act"
type_synonym ('v, 'w) networked = "'v inst \<Rightarrow> ('w, network) act"
type_synonym versionless = bool
type_synonym slow_booter = int

text \<open>The proxy filter has a theory of its own, as \<open>Resolve\<close> and \<open>DecodeConfig\<close> have. \<open>'v\<close> is the driver's
  config, \<open>'w\<close> its world.\<close>

record ('v, 'c, 'w) driver =
  dr_type :: string
  dr_provision :: "'v inst \<Rightarrow> toolchain \<Rightarrow> ('w, go_error option) act"
  dr_provisioned :: "string \<Rightarrow> ('w, bool) act"
  dr_backend_socket :: "string \<Rightarrow> int \<Rightarrow> ('w, string) act"
  dr_conn_string :: "'v inst \<Rightarrow> endpoint \<Rightarrow> ('w, string \<times> string) act"
  dr_converge :: "('v, 'w) converger option"
  dr_objects :: "('v, 'w) inventory option"
  dr_prune :: "('v, 'w) pruner option"
  dr_attributes :: "('v, 'c, 'w) attributer option"
  dr_backend_url :: "('v, 'w) backend_provider option"
  dr_supervised :: "('v, 'w) lifecycle option"
  dr_hooked :: "('v, 'w) hooks option"
  dr_health :: "('v, 'w) health_checker option"
  dr_restart :: "('v, 'w) restartable option"
  dr_advertised :: "('v, 'w) port_binder option"
  dr_plan :: "('v, 'w) spawner option"
  dr_versionless :: versionless
  dr_templater :: "'w templater option"
  dr_proxy_filter :: bool
  dr_admin :: "('v, 'w) admin option"
  dr_console :: "('v, 'w) console option"
  dr_network :: "('v, 'w) networked option"
  dr_boot_budget :: "slow_booter option"

text \<open>An instance the host can send and the module can read, and what the module reads.\<close>

definition crosses :: "('v \<Rightarrow> string + string) \<Rightarrow> (string \<Rightarrow> string + 'v) \<Rightarrow> 'v inst \<Rightarrow> 'v inst \<Rightarrow> bool" where
  "crosses enc dec inst inst' \<longleftrightarrow> (\<exists>p. instance_to_proto enc inst = Inr p \<and> instance_from_proto dec (Some p) = Inr inst')"

lemma crossesI:
  assumes "\<And>v b. gob_enc v = Inr b \<Longrightarrow> b \<noteq> [] \<and> gob_dec b = Inr v" "int32_ok (in_port inst)"
    and "instance_spec gob_enc (in_spec inst) = Inr b" "opened_spec gob_dec (in_spec inst) = Inr spec"
  shows "crosses gob_enc gob_dec inst (inst\<lparr>in_spec := spec\<rparr>)"
proof -
  obtain p where p: "instance_to_proto gob_enc inst = Inr p"
    using assms(3) by (simp add: instance_to_proto_def)
  show ?thesis using instance_wire[OF assms(1,2) p] assms(4) p by (auto simp: crosses_def)
qed

section \<open>cty values\<close>

text \<open>\<open>varsToJSON\<close> and \<open>varsFromJSON\<close>. The JSON codec of cty is a parameter.\<close>

fun vars_to_json :: "('c \<Rightarrow> string + string) \<Rightarrow> 'c gomap \<Rightarrow> string + string gomap" where
  "vars_to_json enc [] = Inr []"
| "vars_to_json enc ((k, v) # vs) = (case enc v of
     Inl e \<Rightarrow> Inl e
   | Inr b \<Rightarrow> (case vars_to_json enc vs of Inl e \<Rightarrow> Inl e | Inr out \<Rightarrow> Inr ((k, b) # out)))"

fun vars_from_json :: "(string \<Rightarrow> string + 't) \<Rightarrow> ('t \<Rightarrow> string \<Rightarrow> string + 'c) \<Rightarrow> string gomap \<Rightarrow> string + 'c gomap" where
  "vars_from_json implied dec [] = Inr []"
| "vars_from_json implied dec ((k, b) # bs) = (case implied b of
     Inl e \<Rightarrow> Inl e
   | Inr t \<Rightarrow> (case dec t b of
       Inl e \<Rightarrow> Inl e
     | Inr v \<Rightarrow> (case vars_from_json implied dec bs of Inl e \<Rightarrow> Inl e | Inr out \<Rightarrow> Inr ((k, v) # out))))"

lemma vars_trip:
  assumes "\<And>v b. enc v = Inr b \<Longrightarrow> \<exists>t. implied b = Inr t \<and> dec t b = Inr v"
  shows "vars_to_json enc vs = Inr js \<Longrightarrow> vars_from_json implied dec js = Inr vs"
proof (induction vs arbitrary: js)
  case (Cons kv vs)
  obtain k v where "kv = (k, v)" by (cases kv)
  with Cons show ?case by (auto split: sum.splits dest: assms)
qed simp

end
