(* ===== verification/Server.thy ===== *)
theory Server
  imports Driver
begin

text \<open>
  The module's side of the plugin protocol: \<open>engineServer\<close> of \<open>plugin/server.go\<close>, one definition per
  handler, and the client the host gets for it. A handler takes the fields of its request, asks
  the driver, and answers with the fields of its response or an error; what gRPC adds is the
  conversion of errors and the chance that the call does not get through.
\<close>

section \<open>Capabilities\<close>

definition cap_converger :: string where "cap_converger = ''converger''"
definition cap_inventory :: string where "cap_inventory = ''inventory''"
definition cap_pruner :: string where "cap_pruner = ''pruner''"
definition cap_attributer :: string where "cap_attributer = ''attributer''"
definition cap_backend_url :: string where "cap_backend_url = ''backend_url''"
definition cap_lifecycle :: string where "cap_lifecycle = ''lifecycle''"
definition cap_hooked :: string where "cap_hooked = ''hooked''"
definition cap_health :: string where "cap_health = ''health''"
definition cap_restartable :: string where "cap_restartable = ''restartable''"
definition cap_port_binder :: string where "cap_port_binder = ''port_binder''"
definition cap_spawner :: string where "cap_spawner = ''spawner''"
definition cap_versionless :: string where "cap_versionless = ''versionless''"
definition cap_templater :: string where "cap_templater = ''templater''"
definition cap_proxy_filter :: string where "cap_proxy_filter = ''proxy_filter''"
definition cap_admin :: string where "cap_admin = ''admin''"
definition cap_console :: string where "cap_console = ''console''"
definition cap_networked :: string where "cap_networked = ''networked''"

lemmas cap_defs = cap_converger_def cap_inventory_def cap_pruner_def cap_attributer_def cap_backend_url_def
  cap_lifecycle_def cap_hooked_def cap_health_def cap_restartable_def cap_port_binder_def cap_spawner_def
  cap_versionless_def cap_templater_def cap_proxy_filter_def cap_admin_def cap_console_def cap_networked_def

definition add_cap :: "bool \<Rightarrow> string \<Rightarrow> string list \<Rightarrow> string list" where
  "add_cap ok name caps = (if ok then caps @ [name] else caps)"

text \<open>\<open>Duration.Milliseconds\<close>: nanoseconds divided, toward zero.\<close>

definition milliseconds :: "int \<Rightarrow> int" where
  "milliseconds d = (if d < 0 then - ((- d) div 1000000) else d div 1000000)"

definition server_capabilities :: "('v, 'c, 'w) driver \<Rightarrow> string list \<times> int" where
  "server_capabilities drv =
     (let caps = [];
          caps = add_cap (dr_converge drv \<noteq> None) cap_converger caps;
          caps = add_cap (dr_objects drv \<noteq> None) cap_inventory caps;
          caps = add_cap (dr_prune drv \<noteq> None) cap_pruner caps;
          caps = add_cap (dr_attributes drv \<noteq> None) cap_attributer caps;
          caps = add_cap (dr_backend_url drv \<noteq> None) cap_backend_url caps;
          caps = add_cap (dr_supervised drv \<noteq> None) cap_lifecycle caps;
          caps = add_cap (dr_hooked drv \<noteq> None) cap_hooked caps;
          caps = add_cap (dr_health drv \<noteq> None) cap_health caps;
          caps = add_cap (dr_restart drv \<noteq> None) cap_restartable caps;
          caps = add_cap (dr_advertised drv \<noteq> None) cap_port_binder caps;
          caps = add_cap (dr_plan drv \<noteq> None) cap_spawner caps;
          caps = add_cap (dr_versionless drv) cap_versionless caps;
          caps = add_cap (dr_templater drv \<noteq> None) cap_templater caps;
          caps = add_cap (dr_proxy_filter drv) cap_proxy_filter caps;
          caps = add_cap (dr_admin drv \<noteq> None) cap_admin caps;
          caps = add_cap (dr_console drv \<noteq> None) cap_console caps;
          caps = add_cap (dr_network drv \<noteq> None) cap_networked caps
      in (caps, case dr_boot_budget drv of None \<Rightarrow> 0 | Some b \<Rightarrow> milliseconds b))"

section \<open>Handlers\<close>

definition err_result :: "go_error option \<Rightarrow> go_error + unit" where
  "err_result e = (case e of None \<Rightarrow> Inr () | Some e \<Rightarrow> Inl e)"

definition not_implemented :: "string \<Rightarrow> ('w, go_error + 'a) act" where
  "not_implemented msg w = (Inl (Status Unimplemented msg), w)"

definition on_instance ::
  "(string \<Rightarrow> string + 'v) \<Rightarrow> pb_instance option \<Rightarrow> ('v inst \<Rightarrow> ('w, go_error + 'a) act) \<Rightarrow> ('w, go_error + 'a) act" where
  "on_instance dec pi k w = (case instance_from_proto dec pi of
     Inl e \<Rightarrow> (Inl (Plain e), w)
   | Inr inst \<Rightarrow> k inst w)"

definition gives :: "('a \<Rightarrow> 'b) \<Rightarrow> ('w, 'a) act \<Rightarrow> ('w, go_error + 'b) act" where
  "gives f m w = map_prod (\<lambda>a. Inr (f a)) id (m w)"

definition gives_result :: "('a \<Rightarrow> 'b) \<Rightarrow> ('w, go_error + 'a) act \<Rightarrow> ('w, go_error + 'b) act" where
  "gives_result f m w = map_prod (map_sum id f) id (m w)"

definition gives_error :: "('w, go_error option) act \<Rightarrow> ('w, go_error + unit) act" where
  "gives_error m w = map_prod err_result id (m w)"

lemmas server_steps = on_instance_def gives_def gives_result_def gives_error_def not_implemented_def

definition server_type :: "('v, 'c, 'w) driver \<Rightarrow> ('w, go_error + string) act" where
  "server_type drv =
     (\<lambda>w. (Inr (dr_type drv), w))"

definition server_provision :: "(string \<Rightarrow> string + 'v) \<Rightarrow> ('v, 'c, 'w) driver \<Rightarrow> pb_instance option \<Rightarrow> pb_toolchain option \<Rightarrow> ('w, go_error + unit) act" where
  "server_provision dec drv pi tc =
     on_instance dec pi (\<lambda>inst. gives_error (dr_provision drv inst (toolchain_from_proto tc)))"

definition server_provisioned :: "('v, 'c, 'w) driver \<Rightarrow> string \<Rightarrow> ('w, go_error + bool) act" where
  "server_provisioned drv dataDir =
     gives id (dr_provisioned drv dataDir)"

definition server_backend_socket :: "('v, 'c, 'w) driver \<Rightarrow> string \<Rightarrow> 32 word \<Rightarrow> ('w, go_error + string) act" where
  "server_backend_socket drv socketDir port =
     gives id (dr_backend_socket drv socketDir (of_int32 port))"

definition server_conn_string :: "(string \<Rightarrow> string + 'v) \<Rightarrow> ('v, 'c, 'w) driver \<Rightarrow> pb_instance option \<Rightarrow> pb_endpoint option \<Rightarrow> ('w, go_error + (string \<times> string)) act" where
  "server_conn_string dec drv pi ep =
     on_instance dec pi (\<lambda>inst. gives id (dr_conn_string drv inst (endpoint_from_proto ep)))"

definition server_plan :: "(string \<Rightarrow> string + 'v) \<Rightarrow> ('v, 'c, 'w) driver \<Rightarrow> pb_instance option \<Rightarrow> pb_toolchain option \<Rightarrow> ('w, go_error + pb_spawn_plan) act" where
  "server_plan dec drv pi tc =
     (case dr_plan drv of
     None \<Rightarrow> not_implemented ''engine is not a Spawner''
   | Some plan \<Rightarrow> on_instance dec pi (\<lambda>inst. gives_result plan_to_proto (plan inst (toolchain_from_proto tc))))"

definition server_ensure_template :: "('v, 'c, 'w) driver \<Rightarrow> pb_toolchain option \<Rightarrow> string \<Rightarrow> ('w, go_error + unit) act" where
  "server_ensure_template drv tc dir =
     (case dr_templater drv of
     None \<Rightarrow> not_implemented ''not a Templater''
   | Some t \<Rightarrow> gives_error (tm_ensure t (toolchain_from_proto tc) dir))"

definition server_clone_template :: "('v, 'c, 'w) driver \<Rightarrow> string \<Rightarrow> string \<Rightarrow> ('w, go_error + unit) act" where
  "server_clone_template drv dir dest =
     (case dr_templater drv of
     None \<Rightarrow> not_implemented ''not a Templater''
   | Some t \<Rightarrow> gives_error (tm_clone t dir dest))"

definition server_attributes :: "('c \<Rightarrow> string + string) \<Rightarrow> (string \<Rightarrow> string + 'v) \<Rightarrow> ('v, 'c, 'w) driver \<Rightarrow> pb_instance option \<Rightarrow> pb_endpoint option \<Rightarrow> ('w, go_error + string gomap) act" where
  "server_attributes enc dec drv pi ep =
     (case dr_attributes drv of
     None \<Rightarrow> (\<lambda>w. (Inr [], w))
   | Some a \<Rightarrow> on_instance dec pi (\<lambda>inst w. case a inst (endpoint_from_proto ep) w of
       (attrs, w') \<Rightarrow> (map_sum Plain id (vars_to_json enc attrs), w')))"

definition server_converge :: "(string \<Rightarrow> string + 'v) \<Rightarrow> ('v, 'c, 'w) driver \<Rightarrow> pb_instance option \<Rightarrow> pb_toolchain option \<Rightarrow> pb_endpoint option \<Rightarrow> ('w, go_error + unit) act" where
  "server_converge dec drv pi tc ep =
     (case dr_converge drv of
     None \<Rightarrow> not_implemented ''not a Converger''
   | Some c \<Rightarrow> on_instance dec pi (\<lambda>inst. gives_error (c inst (toolchain_from_proto tc) (endpoint_from_proto ep))))"

definition server_objects :: "(string \<Rightarrow> string + 'v) \<Rightarrow> ('v, 'c, 'w) driver \<Rightarrow> pb_instance option \<Rightarrow> ('w, go_error + pb_object list) act" where
  "server_objects dec drv pi =
     (case dr_objects drv of
     None \<Rightarrow> not_implemented ''not an Inventory''
   | Some objs \<Rightarrow> on_instance dec pi (\<lambda>inst. gives objects_to_proto (objs inst)))"

definition server_prune :: "(string \<Rightarrow> string + 'v) \<Rightarrow> ('v, 'c, 'w) driver \<Rightarrow> pb_instance option \<Rightarrow> pb_toolchain option \<Rightarrow> pb_endpoint option \<Rightarrow> pb_object list \<Rightarrow> ('w, go_error + unit) act" where
  "server_prune dec drv pi tc ep removed =
     (case dr_prune drv of
     None \<Rightarrow> not_implemented ''not a Pruner''
   | Some pr \<Rightarrow> on_instance dec pi (\<lambda>inst.
       gives_error (pr inst (toolchain_from_proto tc) (endpoint_from_proto ep) (objects_from_proto removed))))"

definition server_backend_url :: "(string \<Rightarrow> string + 'v) \<Rightarrow> ('v, 'c, 'w) driver \<Rightarrow> pb_instance option \<Rightarrow> ('w, go_error + string) act" where
  "server_backend_url dec drv pi =
     (case dr_backend_url drv of
     None \<Rightarrow> not_implemented ''not a BackendProvider''
   | Some bp \<Rightarrow> on_instance dec pi (\<lambda>inst. gives id (bp inst)))"

definition server_supervised :: "(string \<Rightarrow> string + 'v) \<Rightarrow> ('v, 'c, 'w) driver \<Rightarrow> pb_instance option \<Rightarrow> ('w, go_error + bool) act" where
  "server_supervised dec drv pi =
     (case dr_supervised drv of
     None \<Rightarrow> (\<lambda>w. (Inr False, w))
   | Some lc \<Rightarrow> on_instance dec pi (\<lambda>inst. gives id (lc inst)))"

definition server_hook :: "(string \<Rightarrow> string + 'v) \<Rightarrow> ('v, 'c, 'w) driver \<Rightarrow> pb_instance option \<Rightarrow> string \<Rightarrow> ('w, go_error + unit) act" where
  "server_hook dec drv pi phase =
     (case dr_hooked drv of
     None \<Rightarrow> not_implemented ''not Hooked''
   | Some hk \<Rightarrow> on_instance dec pi (\<lambda>inst.
       if phase = ''pre_start'' then gives_error (hk_pre_start hk inst)
       else if phase = ''post_start'' then gives_error (hk_post_start hk inst)
       else if phase = ''pre_stop'' then gives_error (hk_pre_stop hk inst)
       else (\<lambda>w. (Inl (Status InvalidArgument (''unknown hook phase '' @ phase)), w))))"

definition server_check_health :: "(string \<Rightarrow> string + 'v) \<Rightarrow> ('v, 'c, 'w) driver \<Rightarrow> pb_instance option \<Rightarrow> ('w, go_error + unit) act" where
  "server_check_health dec drv pi =
     (case dr_health drv of
     None \<Rightarrow> not_implemented ''not a HealthChecker''
   | Some hc \<Rightarrow> on_instance dec pi (\<lambda>inst. gives_error (hc inst)))"

definition server_restart_policy :: "(string \<Rightarrow> string + 'v) \<Rightarrow> ('v, 'c, 'w) driver \<Rightarrow> pb_instance option \<Rightarrow> ('w, go_error + pb_restart_spec option) act" where
  "server_restart_policy dec drv pi =
     (case dr_restart drv of
     None \<Rightarrow> (\<lambda>w. (Inr (restart_to_proto \<lparr>rs_policy = restart_no, rs_backoff = 0, rs_max_retries = 0\<rparr>), w))
   | Some rs \<Rightarrow> on_instance dec pi (\<lambda>inst. gives restart_to_proto (rs inst)))"

definition server_advertised_addr :: "(string \<Rightarrow> string + 'v) \<Rightarrow> ('v, 'c, 'w) driver \<Rightarrow> pb_instance option \<Rightarrow> ('w, go_error + (string \<times> bool)) act" where
  "server_advertised_addr dec drv pi =
     (case dr_advertised drv of
     None \<Rightarrow> (\<lambda>w. (Inr ([], False), w))
   | Some pb \<Rightarrow> on_instance dec pi (\<lambda>inst. gives id (pb inst)))"

definition server_network :: "(string \<Rightarrow> string + 'v) \<Rightarrow> ('v, 'c, 'w) driver \<Rightarrow> pb_instance option \<Rightarrow> ('w, go_error + pb_network_response) act" where
  "server_network dec drv pi =
     (case dr_network drv of
     None \<Rightarrow> (\<lambda>w. (Inr \<lparr>pbnw_listeners = []\<rparr>, w))
   | Some nw \<Rightarrow> on_instance dec pi (\<lambda>inst. gives network_to_proto (nw inst)))"

definition server_actions :: "('v, 'c, 'w) driver \<Rightarrow> ('w, go_error + pb_action list) act" where
  "server_actions drv =
     (case dr_admin drv of
     None \<Rightarrow> not_implemented ''not an Admin''
   | Some a \<Rightarrow> gives actions_to_proto (ad_actions a))"

definition server_resources :: "(string \<Rightarrow> string + 'v) \<Rightarrow> ('v, 'c, 'w) driver \<Rightarrow> pb_instance option \<Rightarrow> pb_endpoint option \<Rightarrow> ('w, go_error + pb_resource list) act" where
  "server_resources dec drv pi ep =
     (case dr_admin drv of
     None \<Rightarrow> not_implemented ''not an Admin''
   | Some a \<Rightarrow> on_instance dec pi (\<lambda>inst. gives_result resources_to_proto (ad_resources a inst (endpoint_from_proto ep))))"

definition server_run_action :: "(string \<Rightarrow> string + 'v) \<Rightarrow> ('v, 'c, 'w) driver \<Rightarrow> pb_instance option \<Rightarrow> pb_endpoint option \<Rightarrow> string \<Rightarrow> string \<Rightarrow> string \<Rightarrow> ('w, go_error + string) act" where
  "server_run_action dec drv pi ep action resource input =
     (case dr_admin drv of
     None \<Rightarrow> not_implemented ''not an Admin''
   | Some a \<Rightarrow> on_instance dec pi (\<lambda>inst. gives_result id (ad_run a inst (endpoint_from_proto ep) action resource input)))"

definition server_describe_console :: "('v, 'c, 'w) driver \<Rightarrow> ('w, go_error + pb_console_spec) act" where
  "server_describe_console drv =
     (case dr_console drv of
     None \<Rightarrow> not_implemented ''not a Console''
   | Some c \<Rightarrow> gives console_spec_to_proto (cn_describe c))"

text \<open>\<open>Tail\<close>. The module writes rows into a channel, each is sent to the host; when the host has hung
  up, which it does after \<open>hang\<close> rows or never, the next send fails, the rest is drained and the
  send's error is the answer.\<close>

record pb_row =
  pbrw_cells :: "string gomap"
  pbrw_tone :: string

definition row_to_proto :: "row \<Rightarrow> pb_row" where
  "row_to_proto r = \<lparr>pbrw_cells = rw_cells r, pbrw_tone = rw_tone r\<rparr>"

definition send_error :: go_error where
  "send_error = Status (OtherCode ''Canceled'') ''context canceled''"

definition send_rows :: "nat option \<Rightarrow> row list \<Rightarrow> go_error option \<Rightarrow> pb_row list \<times> go_error option" where
  "send_rows hang rows err = (case hang of
     None \<Rightarrow> (map row_to_proto rows, err)
   | Some n \<Rightarrow> if n < length rows then (map row_to_proto (take n rows), Some send_error)
               else (map row_to_proto rows, err))"

definition server_tail ::
  "(string \<Rightarrow> string + 'v) \<Rightarrow> ('v, 'c, 'w) driver \<Rightarrow> pb_instance option \<Rightarrow> pb_endpoint option \<Rightarrow> string \<Rightarrow> string \<Rightarrow>
   nat option \<Rightarrow> ('w, pb_row list \<times> go_error option) act" where
  "server_tail dec drv pi ep panel selector hang w =
     (case dr_console drv of
        None \<Rightarrow> (([], Some (Status Unimplemented ''not a Console'')), w)
      | Some c \<Rightarrow> (case instance_from_proto dec pi of
          Inl e \<Rightarrow> (([], Some (Plain e)), w)
        | Inr inst \<Rightarrow> (case cn_tail c inst (endpoint_from_proto ep) panel selector hang w of
            ((rows, err), w') \<Rightarrow> (send_rows hang rows err, w'))))"

section \<open>The client\<close>

text \<open>\<open>proto.EngineClient\<close>: the calls as the host sees them.\<close>

record 'w engine_client =
  cl_type :: "('w, go_error + string) act"
  cl_capabilities :: "('w, go_error + (string list \<times> int)) act"
  cl_provision :: "pb_instance option \<Rightarrow> pb_toolchain option \<Rightarrow> ('w, go_error + unit) act"
  cl_provisioned :: "string \<Rightarrow> ('w, go_error + bool) act"
  cl_backend_socket :: "string \<Rightarrow> 32 word \<Rightarrow> ('w, go_error + string) act"
  cl_conn_string :: "pb_instance option \<Rightarrow> pb_endpoint option \<Rightarrow> ('w, go_error + (string \<times> string)) act"
  cl_plan :: "pb_instance option \<Rightarrow> pb_toolchain option \<Rightarrow> ('w, go_error + pb_spawn_plan) act"
  cl_ensure_template :: "pb_toolchain option \<Rightarrow> string \<Rightarrow> ('w, go_error + unit) act"
  cl_clone_template :: "string \<Rightarrow> string \<Rightarrow> ('w, go_error + unit) act"
  cl_attributes :: "pb_instance option \<Rightarrow> pb_endpoint option \<Rightarrow> ('w, go_error + string gomap) act"
  cl_converge :: "pb_instance option \<Rightarrow> pb_toolchain option \<Rightarrow> pb_endpoint option \<Rightarrow> ('w, go_error + unit) act"
  cl_objects :: "pb_instance option \<Rightarrow> ('w, go_error + pb_object list) act"
  cl_prune :: "pb_instance option \<Rightarrow> pb_toolchain option \<Rightarrow> pb_endpoint option \<Rightarrow> pb_object list \<Rightarrow> ('w, go_error + unit) act"
  cl_backend_url :: "pb_instance option \<Rightarrow> ('w, go_error + string) act"
  cl_supervised :: "pb_instance option \<Rightarrow> ('w, go_error + bool) act"
  cl_hook :: "pb_instance option \<Rightarrow> string \<Rightarrow> ('w, go_error + unit) act"
  cl_check_health :: "pb_instance option \<Rightarrow> ('w, go_error + unit) act"
  cl_restart_policy :: "pb_instance option \<Rightarrow> ('w, go_error + pb_restart_spec option) act"
  cl_advertised_addr :: "pb_instance option \<Rightarrow> ('w, go_error + (string \<times> bool)) act"
  cl_network :: "pb_instance option \<Rightarrow> ('w, go_error + pb_network_response) act"
  cl_actions :: "('w, go_error + pb_action list) act"
  cl_resources :: "pb_instance option \<Rightarrow> pb_endpoint option \<Rightarrow> ('w, go_error + pb_resource list) act"
  cl_run_action :: "pb_instance option \<Rightarrow> pb_endpoint option \<Rightarrow> string \<Rightarrow> string \<Rightarrow> string \<Rightarrow> ('w, go_error + string) act"
  cl_describe_console :: "('w, go_error + pb_console_spec) act"
  cl_tail :: "pb_instance option \<Rightarrow> pb_endpoint option \<Rightarrow> string \<Rightarrow> string \<Rightarrow> nat option \<Rightarrow> ('w, pb_row list \<times> go_error option) act"

text \<open>A call that gets through runs the handler; one that does not, on a lost connection, fails with
  the transport's error.\<close>

definition rpc :: "go_error option \<Rightarrow> ('w, go_error + 'a) act \<Rightarrow> ('w, go_error + 'a) act" where
  "rpc lost h w = (case lost of
     Some e \<Rightarrow> (Inl e, w)
   | None \<Rightarrow> map_prod (map_sum on_wire id) id (h w))"

definition server_client ::
  "go_error option \<Rightarrow> ('c \<Rightarrow> string + string) \<Rightarrow> (string \<Rightarrow> string + 'v) \<Rightarrow> ('v, 'c, 'w) driver \<Rightarrow> 'w engine_client" where
  "server_client lost enc dec drv =
     \<lparr>cl_type = rpc lost (server_type drv),
      cl_capabilities = rpc lost ((\<lambda>w. (Inr (server_capabilities drv), w))),
      cl_provision = (\<lambda>pi tc. rpc lost (server_provision dec drv pi tc)),
      cl_provisioned = (\<lambda>dataDir. rpc lost (server_provisioned drv dataDir)),
      cl_backend_socket = (\<lambda>socketDir port. rpc lost (server_backend_socket drv socketDir port)),
      cl_conn_string = (\<lambda>pi ep. rpc lost (server_conn_string dec drv pi ep)),
      cl_plan = (\<lambda>pi tc. rpc lost (server_plan dec drv pi tc)),
      cl_ensure_template = (\<lambda>tc dir. rpc lost (server_ensure_template drv tc dir)),
      cl_clone_template = (\<lambda>dir dest. rpc lost (server_clone_template drv dir dest)),
      cl_attributes = (\<lambda>pi ep. rpc lost (server_attributes enc dec drv pi ep)),
      cl_converge = (\<lambda>pi tc ep. rpc lost (server_converge dec drv pi tc ep)),
      cl_objects = (\<lambda>pi. rpc lost (server_objects dec drv pi)),
      cl_prune = (\<lambda>pi tc ep removed. rpc lost (server_prune dec drv pi tc ep removed)),
      cl_backend_url = (\<lambda>pi. rpc lost (server_backend_url dec drv pi)),
      cl_supervised = (\<lambda>pi. rpc lost (server_supervised dec drv pi)),
      cl_hook = (\<lambda>pi phase. rpc lost (server_hook dec drv pi phase)),
      cl_check_health = (\<lambda>pi. rpc lost (server_check_health dec drv pi)),
      cl_restart_policy = (\<lambda>pi. rpc lost (server_restart_policy dec drv pi)),
      cl_advertised_addr = (\<lambda>pi. rpc lost (server_advertised_addr dec drv pi)),
      cl_network = (\<lambda>pi. rpc lost (server_network dec drv pi)),
      cl_actions = rpc lost (server_actions drv),
      cl_resources = (\<lambda>pi ep. rpc lost (server_resources dec drv pi ep)),
      cl_run_action = (\<lambda>pi ep action resource input. rpc lost (server_run_action dec drv pi ep action resource input)),
      cl_describe_console = rpc lost (server_describe_console drv),
      cl_tail = (\<lambda>pi ep panel selector hang w. case lost of Some e \<Rightarrow> (([], Some e), w)
         | None \<Rightarrow> map_prod (map_prod id (map_option on_wire)) id (server_tail dec drv pi ep panel selector hang w))\<rparr>"

lemma rpc_up [simp]: "rpc None h w = map_prod (map_sum on_wire id) id (h w)"
  by (simp add: rpc_def)

lemma rpc_lost [simp]: "rpc (Some e) h w = (Inl e, w)"
  by (simp add: rpc_def)

lemmas handler_defs = server_type_def server_provision_def server_provisioned_def server_backend_socket_def
  server_conn_string_def server_plan_def server_ensure_template_def server_clone_template_def
  server_attributes_def server_converge_def server_objects_def server_prune_def server_backend_url_def
  server_supervised_def server_hook_def server_check_health_def server_restart_policy_def
  server_advertised_addr_def server_network_def server_actions_def server_resources_def
  server_run_action_def server_describe_console_def

section \<open>What a module says it is\<close>

lemma server_caps:
  "set (fst (server_capabilities drv)) =
     {id. (id = cap_converger \<and> dr_converge drv \<noteq> None) \<or> (id = cap_inventory \<and> dr_objects drv \<noteq> None) \<or>
       (id = cap_pruner \<and> dr_prune drv \<noteq> None) \<or> (id = cap_attributer \<and> dr_attributes drv \<noteq> None) \<or>
       (id = cap_backend_url \<and> dr_backend_url drv \<noteq> None) \<or> (id = cap_lifecycle \<and> dr_supervised drv \<noteq> None) \<or>
       (id = cap_hooked \<and> dr_hooked drv \<noteq> None) \<or> (id = cap_health \<and> dr_health drv \<noteq> None) \<or>
       (id = cap_restartable \<and> dr_restart drv \<noteq> None) \<or> (id = cap_port_binder \<and> dr_advertised drv \<noteq> None) \<or>
       (id = cap_spawner \<and> dr_plan drv \<noteq> None) \<or> (id = cap_versionless \<and> dr_versionless drv) \<or>
       (id = cap_templater \<and> dr_templater drv \<noteq> None) \<or> (id = cap_proxy_filter \<and> dr_proxy_filter drv) \<or>
       (id = cap_admin \<and> dr_admin drv \<noteq> None) \<or> (id = cap_console \<and> dr_console drv \<noteq> None) \<or>
       (id = cap_networked \<and> dr_network drv \<noteq> None)}"
proof -
  have add: "set (add_cap ok name caps) = {x. x \<in> set caps \<or> (x = name \<and> ok)}" for ok name and caps :: "string list"
    by (auto simp: add_cap_def)
  show ?thesis unfolding server_capabilities_def Let_def by (auto simp only: add fst_conv set_simps mem_Collect_eq)
qed

end
