(* ===== verification/Adapter.thy ===== *)
theory Adapter
  imports Server
begin

text \<open>
  The host's side of the plugin protocol: \<open>pluginDriver\<close> of \<open>plugin/adapter.go\<close>, which makes a
  module look like a driver compiled in, and the \<open>Reporter\<close> of \<open>plugin/report.go\<close>. Every method is
  here with its guard and its fallback; \<open>Resolve\<close>, \<open>DecodeRemote\<close> and \<open>Handoff\<close> are in theories of
  their own. The wrappers that add an interface by its presence are modelled with Go's rule for
  promoted methods.
\<close>

section \<open>The driver and its host\<close>

record plugin_driver =
  pd_type :: string
  pd_caps :: "string list"
  pd_boot_budget :: int

text \<open>What a call may change: the module's world, what the Reporter has heard, if there is one, and
  the console once it has been asked for.\<close>

record 'w host =
  ho_world :: 'w
  ho_reporter :: bool
  ho_reports :: "(string \<times> string \<times> go_error) list"
  ho_console :: "console_spec option"

definition report :: "plugin_driver \<Rightarrow> string \<Rightarrow> go_error \<Rightarrow> 'w host \<Rightarrow> 'w host" where
  "report d call err st = (if ho_reporter st then st\<lparr>ho_reports := ho_reports st @ [(pd_type d, call, err)]\<rparr> else st)"

text \<open>\<open>SetReporter\<close>: one for the process, or nil for none.\<close>

definition set_reporter :: "bool \<Rightarrow> 'w host \<Rightarrow> 'w host" where
  "set_reporter present st = st\<lparr>ho_reporter := present\<rparr>"

lemma report_set [simp]:
  "report d call err (set_reporter False st) = set_reporter False st"
  "ho_reports (report d call err (set_reporter True st)) = ho_reports st @ [(pd_type d, call, err)]"
  by (simp_all add: report_def set_reporter_def)

definition has_cap :: "plugin_driver \<Rightarrow> string \<Rightarrow> bool" where
  "has_cap d cap = (cap \<in> set (pd_caps d))"

text \<open>Running something of the module's in the host's state.\<close>

definition on_host :: "('w, 'a) act \<Rightarrow> ('w host, 'a) act" where
  "on_host m st = (case m (ho_world st) of (a, w) \<Rightarrow> (a, st\<lparr>ho_world := w\<rparr>))"

section \<open>Launching\<close>

definition wrap_int64 :: "int \<Rightarrow> int" where
  "wrap_int64 i = sint (word_of_int i :: 64 word)"

definition max_boot_budget :: int where
  "max_boot_budget = 3600 * 1000000000"

definition boot_budget :: "int \<Rightarrow> int" where
  "boot_budget ms = min (wrap_int64 (ms * 1000000)) max_boot_budget"

definition new_plugin_driver :: "'w engine_client \<Rightarrow> ('w host, go_error + plugin_driver) act" where
  "new_plugin_driver c st = (case on_host (cl_type c) st of
     (Inl e, st1) \<Rightarrow> (Inl (Plain (''asking the module its type: '' @ error_text (the (user_error (Some e))))), st1)
   | (Inr ty, st1) \<Rightarrow> (case on_host (cl_capabilities c) st1 of
       (Inl e, st2) \<Rightarrow> (Inl (Plain (''asking the '' @ ty @ '' module what it can do: '' @ error_text (the (user_error (Some e))))), st2)
     | (Inr (caps, ms), st2) \<Rightarrow> (Inr \<lparr>pd_type = ty, pd_caps = caps, pd_boot_budget = boot_budget ms\<rparr>, st2)))"

section \<open>Wrappers\<close>

datatype wrapper =
    PluginDriver | Structural
  | AdminDriver | VersionlessAdminDriver | TemplaterAdminDriver | VersionlessTemplaterAdminDriver
  | VersionlessDriver | TemplaterDriver | VersionlessTemplaterDriver
  | StructuralDriver | VersionlessStructuralDriver | TemplaterStructuralDriver | AdminStructuralDriver
  | VersionlessTemplaterStructuralDriver | VersionlessAdminStructuralDriver
  | TemplaterAdminStructuralDriver | VersionlessTemplaterAdminStructuralDriver

definition wrap_caps :: "plugin_driver \<Rightarrow> wrapper" where
  "wrap_caps d =
     (let v = has_cap d cap_versionless; t = has_cap d cap_templater; a = has_cap d cap_admin;
          s = has_cap d cap_converger in
      if \<not> s then
        (if v \<and> t \<and> a then VersionlessTemplaterAdminDriver
         else if v \<and> t then VersionlessTemplaterDriver
         else if v \<and> a then VersionlessAdminDriver
         else if t \<and> a then TemplaterAdminDriver
         else if v then VersionlessDriver
         else if t then TemplaterDriver
         else if a then AdminDriver
         else PluginDriver)
      else
        (if v \<and> t \<and> a then VersionlessTemplaterAdminStructuralDriver
         else if v \<and> t then VersionlessTemplaterStructuralDriver
         else if v \<and> a then VersionlessAdminStructuralDriver
         else if t \<and> a then TemplaterAdminStructuralDriver
         else if v then VersionlessStructuralDriver
         else if t then TemplaterStructuralDriver
         else if a then AdminStructuralDriver
         else StructuralDriver))"

text \<open>The structs the declarations embed, in order.\<close>

fun embeds :: "wrapper \<Rightarrow> wrapper list" where
  "embeds PluginDriver = []"
| "embeds Structural = []"
| "embeds AdminDriver = [PluginDriver]"
| "embeds VersionlessAdminDriver = [AdminDriver]"
| "embeds TemplaterAdminDriver = [AdminDriver]"
| "embeds VersionlessTemplaterAdminDriver = [TemplaterAdminDriver]"
| "embeds VersionlessDriver = [PluginDriver]"
| "embeds TemplaterDriver = [PluginDriver]"
| "embeds VersionlessTemplaterDriver = [PluginDriver]"
| "embeds StructuralDriver = [PluginDriver, Structural]"
| "embeds VersionlessStructuralDriver = [VersionlessDriver, Structural]"
| "embeds TemplaterStructuralDriver = [TemplaterDriver, Structural]"
| "embeds AdminStructuralDriver = [AdminDriver, Structural]"
| "embeds VersionlessTemplaterStructuralDriver = [VersionlessTemplaterDriver, Structural]"
| "embeds VersionlessAdminStructuralDriver = [VersionlessAdminDriver, Structural]"
| "embeds TemplaterAdminStructuralDriver = [TemplaterAdminDriver, Structural]"
| "embeds VersionlessTemplaterAdminStructuralDriver = [VersionlessTemplaterAdminDriver, Structural]"

text \<open>The names of the exported methods, and the ones each struct declares itself.\<close>

datatype meth =
    MBootBudget | MType | MResolve | MProvision | MProvisioned | MBackendSocket | MConnString
     | MDecodeRemote | MPlan | MAttributes | MBackendURL | MSupervised | MPreStart
     | MPostStart | MPreStop | MCheckHealth | MRestartPolicy | MAdvertisedAddr | MNetwork
     | MHandoff | MConverge | MObjects | MPrune | MActions | MResources | MRun
     | MDescribeConsole | MTail | MVersionless | MEnsureTemplate | MCloneTemplate

fun own_methods :: "wrapper \<Rightarrow> meth list" where
  "own_methods PluginDriver = [MBootBudget, MType, MResolve, MProvision, MProvisioned, MBackendSocket,
     MConnString, MDecodeRemote, MPlan, MAttributes, MBackendURL, MSupervised, MPreStart,
     MPostStart, MPreStop, MCheckHealth, MRestartPolicy, MAdvertisedAddr, MNetwork, MHandoff]"
| "own_methods Structural = [MConverge, MObjects, MPrune]"
| "own_methods AdminDriver = [MActions, MResources, MRun, MDescribeConsole, MTail]"
| "own_methods VersionlessAdminDriver = [MVersionless]"
| "own_methods TemplaterAdminDriver = [MEnsureTemplate, MCloneTemplate]"
| "own_methods VersionlessTemplaterAdminDriver = [MVersionless]"
| "own_methods VersionlessDriver = [MVersionless]"
| "own_methods TemplaterDriver = [MEnsureTemplate, MCloneTemplate]"
| "own_methods VersionlessTemplaterDriver = [MVersionless, MEnsureTemplate, MCloneTemplate]"
| "own_methods _ = []"

text \<open>Go promotes the method at the shallowest depth, if there is only one there. No struct here
  embeds deeper than four.\<close>

fun methods_at :: "nat \<Rightarrow> wrapper \<Rightarrow> meth list" where
  "methods_at 0 w = own_methods w"
| "methods_at (Suc n) w = concat (map (methods_at n) (embeds w))"

definition promoted :: "wrapper \<Rightarrow> meth \<Rightarrow> bool" where
  "promoted w m = (case filter (\<lambda>n. m \<in> set (methods_at n w)) [0, 1, 2, 3, 4] of
     [] \<Rightarrow> False
   | n # _ \<Rightarrow> count_list (methods_at n w) m = 1)"

text \<open>A type assertion holds when every method of the interface is there.\<close>

definition implements :: "wrapper \<Rightarrow> meth list \<Rightarrow> bool" where
  "implements w iface = list_all (promoted w) iface"

definition iface_driver :: "meth list" where
  "iface_driver = [MType, MResolve, MProvision, MProvisioned, MBackendSocket, MConnString]"
definition iface_spawner :: "meth list" where "iface_spawner = [MPlan]"
definition iface_slow_booter :: "meth list" where "iface_slow_booter = [MBootBudget]"
definition iface_versionless :: "meth list" where "iface_versionless = [MVersionless]"
definition iface_templater :: "meth list" where "iface_templater = [MEnsureTemplate, MCloneTemplate]"
definition iface_admin :: "meth list" where "iface_admin = [MResources, MActions, MRun]"
definition iface_converger :: "meth list" where "iface_converger = [MConverge]"
definition iface_inventory :: "meth list" where "iface_inventory = [MObjects]"
definition iface_pruner :: "meth list" where "iface_pruner = [MPrune]"
definition iface_console :: "meth list" where "iface_console = [MDescribeConsole, MTail]"

lemmas iface_defs = iface_driver_def iface_spawner_def iface_slow_booter_def iface_versionless_def
  iface_templater_def iface_admin_def iface_converger_def iface_inventory_def iface_pruner_def iface_console_def

section \<open>Calls\<close>

definition err_of :: "go_error + 'a \<Rightarrow> go_error option" where
  "err_of r = (case r of Inl e \<Rightarrow> Some e | Inr _ \<Rightarrow> None)"

text \<open>The three shapes of a method: one that returns only an error, one that returns a value or an
  error, and one that has no error to return and falls back.\<close>

definition call_err :: "('w, go_error + 'a) act \<Rightarrow> ('w host, go_error option) act" where
  "call_err m st = map_prod (\<lambda>r. user_error (err_of r)) id (on_host m st)"

definition call_result :: "('a \<Rightarrow> 'b) \<Rightarrow> ('w, go_error + 'a) act \<Rightarrow> ('w host, go_error + 'b) act" where
  "call_result f m st = (case on_host m st of
     (Inl e, st') \<Rightarrow> (Inl (the (user_error (Some e))), st')
   | (Inr a, st') \<Rightarrow> (Inr (f a), st'))"

definition call_or :: "plugin_driver \<Rightarrow> string \<Rightarrow> 'b \<Rightarrow> ('a \<Rightarrow> 'b) \<Rightarrow> ('w, go_error + 'a) act \<Rightarrow> ('w host, 'b) act" where
  "call_or d call fallback f m st = (case on_host m st of
     (Inl e, st') \<Rightarrow> (fallback, report d call e st')
   | (Inr a, st') \<Rightarrow> (f a, st'))"

definition with_instance ::
  "('v \<Rightarrow> string + string) \<Rightarrow> 'v inst \<Rightarrow> (string \<Rightarrow> ('w host, 'b) act) \<Rightarrow> (pb_instance option \<Rightarrow> ('w host, 'b) act) \<Rightarrow> ('w host, 'b) act" where
  "with_instance enc inst fail k st = (case instance_to_proto enc inst of
     Inl e \<Rightarrow> fail e st
   | Inr pi \<Rightarrow> k (Some pi) st)"

definition returns :: "'b \<Rightarrow> ('w host, 'b) act" where
  "returns b st = (b, st)"

definition returns_err :: "string \<Rightarrow> ('w host, go_error option) act" where
  "returns_err e = returns (Some (Plain e))"

lemmas call_defs = call_err_def call_result_def call_or_def with_instance_def returns_def returns_err_def

section \<open>The methods\<close>

definition pd_provision :: "('v \<Rightarrow> string + string) \<Rightarrow> 'w engine_client \<Rightarrow> 'v inst \<Rightarrow> toolchain \<Rightarrow> ('w host, go_error option) act" where
  "pd_provision enc c inst tc =
     with_instance enc inst returns_err (\<lambda>pi. call_err (cl_provision c pi (toolchain_to_proto tc)))"

definition pd_provisioned :: "plugin_driver \<Rightarrow> 'w engine_client \<Rightarrow> string \<Rightarrow> ('w host, bool) act" where
  "pd_provisioned d c dataDir =
     call_or d ''Provisioned'' False id (cl_provisioned c dataDir)"

definition pd_backend_socket :: "plugin_driver \<Rightarrow> 'w engine_client \<Rightarrow> string \<Rightarrow> int \<Rightarrow> ('w host, string) act" where
  "pd_backend_socket d c socketDir port =
     call_or d ''BackendSocket'' [] id (cl_backend_socket c socketDir (to_int32 port))"

definition pd_conn_string :: "('v \<Rightarrow> string + string) \<Rightarrow> plugin_driver \<Rightarrow> 'w engine_client \<Rightarrow> 'v inst \<Rightarrow> endpoint \<Rightarrow> ('w host, string \<times> string) act" where
  "pd_conn_string enc d c inst ep =
     with_instance enc inst (\<lambda>e st. (([], []), report d ''ConnString'' (Plain e) st))
       (\<lambda>pi. call_or d ''ConnString'' ([], []) id (cl_conn_string c pi (endpoint_to_proto ep)))"

definition pd_plan :: "('v \<Rightarrow> string + string) \<Rightarrow> 'w engine_client \<Rightarrow> 'v inst \<Rightarrow> toolchain \<Rightarrow> ('w host, go_error + spawn_plan) act" where
  "pd_plan enc c inst tc =
     with_instance enc inst (\<lambda>e. returns (Inl (Plain e)))
       (\<lambda>pi. call_result (\<lambda>p. plan_from_proto (Some p)) (cl_plan c pi (toolchain_to_proto tc)))"

definition pd_ensure_template :: "'w engine_client \<Rightarrow> toolchain \<Rightarrow> string \<Rightarrow> ('w host, go_error option) act" where
  "pd_ensure_template c tc dir =
     call_err (cl_ensure_template c (toolchain_to_proto tc) dir)"

definition pd_clone_template :: "'w engine_client \<Rightarrow> string \<Rightarrow> string \<Rightarrow> ('w host, go_error option) act" where
  "pd_clone_template c dir dest =
     call_err (cl_clone_template c dir dest)"

definition pd_converge :: "('v \<Rightarrow> string + string) \<Rightarrow> 'w engine_client \<Rightarrow> 'v inst \<Rightarrow> toolchain \<Rightarrow> endpoint \<Rightarrow> ('w host, go_error option) act" where
  "pd_converge enc c inst tc ep =
     with_instance enc inst returns_err (\<lambda>pi. call_err (cl_converge c pi (toolchain_to_proto tc) (endpoint_to_proto ep)))"

definition pd_actions :: "plugin_driver \<Rightarrow> 'w engine_client \<Rightarrow> ('w host, action list) act" where
  "pd_actions d c =
     call_or d ''Actions'' [] actions_from_proto (cl_actions c)"

definition pd_resources :: "('v \<Rightarrow> string + string) \<Rightarrow> 'w engine_client \<Rightarrow> 'v inst \<Rightarrow> endpoint \<Rightarrow> ('w host, go_error + resource list) act" where
  "pd_resources enc c inst ep =
     with_instance enc inst (\<lambda>e. returns (Inl (Plain e)))
       (\<lambda>pi. call_result resources_from_proto (cl_resources c pi (endpoint_to_proto ep)))"

definition pd_run_action :: "('v \<Rightarrow> string + string) \<Rightarrow> 'w engine_client \<Rightarrow> 'v inst \<Rightarrow> endpoint \<Rightarrow> string \<Rightarrow> string \<Rightarrow> string \<Rightarrow> ('w host, go_error + string) act" where
  "pd_run_action enc c inst ep action resource input =
     with_instance enc inst (\<lambda>e. returns (Inl (Plain e)))
       (\<lambda>pi. call_result id (cl_run_action c pi (endpoint_to_proto ep) action resource input))"

definition pd_attributes :: "(string \<Rightarrow> string + 't) \<Rightarrow> ('t \<Rightarrow> string \<Rightarrow> string + 'c) \<Rightarrow> ('v \<Rightarrow> string + string) \<Rightarrow> plugin_driver \<Rightarrow> 'w engine_client \<Rightarrow> 'v inst \<Rightarrow> endpoint \<Rightarrow> ('w host, 'c gomap option) act" where
  "pd_attributes implied ctydec enc d c inst ep =
     (if \<not> has_cap d cap_attributer then returns None
      else with_instance enc inst (\<lambda>e st. (None, report d ''Attributes'' (Plain e) st))
        (\<lambda>pi st. case on_host (cl_attributes c pi (endpoint_to_proto ep)) st of
           (Inl e, st') \<Rightarrow> (None, report d ''Attributes'' e st')
         | (Inr js, st') \<Rightarrow> (case vars_from_json implied ctydec js of
             Inl e \<Rightarrow> (None, report d ''Attributes'' (Plain e) st')
           | Inr attrs \<Rightarrow> (Some attrs, st'))))"

definition pd_objects :: "('v \<Rightarrow> string + string) \<Rightarrow> plugin_driver \<Rightarrow> 'w engine_client \<Rightarrow> 'v inst \<Rightarrow> ('w host, object_rec list) act" where
  "pd_objects enc d c inst =
     with_instance enc inst (\<lambda>e. returns []) (\<lambda>pi. call_or d ''Objects'' [] objects_from_proto (cl_objects c pi))"

definition pd_prune :: "('v \<Rightarrow> string + string) \<Rightarrow> 'w engine_client \<Rightarrow> 'v inst \<Rightarrow> toolchain \<Rightarrow> endpoint \<Rightarrow> object_rec list \<Rightarrow> ('w host, go_error option) act" where
  "pd_prune enc c inst tc ep removed =
     with_instance enc inst returns_err (\<lambda>pi. call_err (cl_prune c pi (toolchain_to_proto tc) (endpoint_to_proto ep) (objects_to_proto removed)))"

definition pd_backend_url :: "('v \<Rightarrow> string + string) \<Rightarrow> plugin_driver \<Rightarrow> 'w engine_client \<Rightarrow> 'v inst \<Rightarrow> ('w host, string) act" where
  "pd_backend_url enc d c inst =
     (if \<not> has_cap d cap_backend_url then returns []
      else with_instance enc inst (\<lambda>e. returns []) (\<lambda>pi. call_or d ''BackendURL'' [] id (cl_backend_url c pi)))"

definition pd_supervised :: "('v \<Rightarrow> string + string) \<Rightarrow> plugin_driver \<Rightarrow> 'w engine_client \<Rightarrow> 'v inst \<Rightarrow> ('w host, bool) act" where
  "pd_supervised enc d c inst =
     (if \<not> has_cap d cap_lifecycle then returns False
      else with_instance enc inst (\<lambda>e. returns False) (\<lambda>pi. call_or d ''Supervised'' False id (cl_supervised c pi)))"

definition pd_hook :: "('v \<Rightarrow> string + string) \<Rightarrow> plugin_driver \<Rightarrow> 'w engine_client \<Rightarrow> 'v inst \<Rightarrow> string \<Rightarrow> ('w host, go_error option) act" where
  "pd_hook enc d c inst phase =
     (if \<not> has_cap d cap_hooked then returns None
      else with_instance enc inst returns_err (\<lambda>pi. call_err (cl_hook c pi phase)))"

definition pd_pre_start :: "('v \<Rightarrow> string + string) \<Rightarrow> plugin_driver \<Rightarrow> 'w engine_client \<Rightarrow> 'v inst \<Rightarrow> ('w host, go_error option) act" where
  "pd_pre_start enc d c inst =
     pd_hook enc d c inst ''pre_start''"

definition pd_post_start :: "('v \<Rightarrow> string + string) \<Rightarrow> plugin_driver \<Rightarrow> 'w engine_client \<Rightarrow> 'v inst \<Rightarrow> ('w host, go_error option) act" where
  "pd_post_start enc d c inst =
     pd_hook enc d c inst ''post_start''"

definition pd_pre_stop :: "('v \<Rightarrow> string + string) \<Rightarrow> plugin_driver \<Rightarrow> 'w engine_client \<Rightarrow> 'v inst \<Rightarrow> ('w host, go_error option) act" where
  "pd_pre_stop enc d c inst =
     pd_hook enc d c inst ''pre_stop''"

definition pd_check_health :: "('v \<Rightarrow> string + string) \<Rightarrow> plugin_driver \<Rightarrow> 'w engine_client \<Rightarrow> 'v inst \<Rightarrow> ('w host, go_error option) act" where
  "pd_check_health enc d c inst =
     (if \<not> has_cap d cap_health then returns None
      else with_instance enc inst returns_err (\<lambda>pi. call_err (cl_check_health c pi)))"

definition no_restart :: restart_spec where
  "no_restart = \<lparr>rs_policy = restart_no, rs_backoff = 0, rs_max_retries = 0\<rparr>"

definition pd_restart_policy :: "('v \<Rightarrow> string + string) \<Rightarrow> plugin_driver \<Rightarrow> 'w engine_client \<Rightarrow> 'v inst \<Rightarrow> ('w host, restart_spec) act" where
  "pd_restart_policy enc d c inst =
     (if \<not> has_cap d cap_restartable then returns no_restart
      else with_instance enc inst (\<lambda>e. returns no_restart) (\<lambda>pi. call_or d ''RestartPolicy'' no_restart restart_from_proto (cl_restart_policy c pi)))"

definition pd_advertised_addr :: "('v \<Rightarrow> string + string) \<Rightarrow> plugin_driver \<Rightarrow> 'w engine_client \<Rightarrow> 'v inst \<Rightarrow> ('w host, string \<times> bool) act" where
  "pd_advertised_addr enc d c inst =
     (if \<not> has_cap d cap_port_binder then returns ([], False)
      else with_instance enc inst (\<lambda>e. returns ([], False)) (\<lambda>pi. call_or d ''AdvertisedAddr'' ([], False) id (cl_advertised_addr c pi)))"

definition pd_network :: "('v \<Rightarrow> string + string) \<Rightarrow> plugin_driver \<Rightarrow> 'w engine_client \<Rightarrow> 'v inst \<Rightarrow> ('w host, network) act" where
  "pd_network enc d c inst =
     (if \<not> has_cap d cap_networked then returns \<lparr>net_listeners = []\<rparr>
      else with_instance enc inst (\<lambda>e. returns \<lparr>net_listeners = []\<rparr>) (\<lambda>pi. call_or d ''Network'' \<lparr>net_listeners = []\<rparr> (\<lambda>n. network_from_proto (Some n)) (cl_network c pi)))"

text \<open>\<open>describeConsole\<close> asks once; what \<open>sync.Once\<close> has run it does not run again, whatever came of it.\<close>

definition pd_describe_console :: "plugin_driver \<Rightarrow> 'w engine_client \<Rightarrow> ('w host, console_spec) act" where
  "pd_describe_console d c st = (case ho_console st of
     Some s \<Rightarrow> (s, st)
   | None \<Rightarrow>
       (case (if \<not> has_cap d cap_console then returns zero_console st
              else call_or d ''DescribeConsole'' zero_console (\<lambda>s. console_spec_from_proto (Some s)) (cl_describe_console c) st) of
          (s, st') \<Rightarrow> (s, st'\<lparr>ho_console := Some s\<rparr>)))"

text \<open>\<open>tail\<close>: the loop hands on each row it receives, until the stream ends or fails, or the context
  is done: \<open>stop\<close> counts the rows handed on before that. A failure after it is no error.\<close>

definition row_from_proto :: "pb_row \<Rightarrow> row" where
  "row_from_proto r = \<lparr>rw_cells = pbrw_cells r, rw_tone = pbrw_tone r\<rparr>"

fun tail_loop :: "nat option \<Rightarrow> pb_row list \<Rightarrow> go_error option \<Rightarrow> row list \<times> go_error option" where
  "tail_loop stop [] fin = ([], if stop = Some 0 then None else user_error fin)"
| "tail_loop stop (r # rs) fin = (if stop = Some 0 then ([], None)
     else (case tail_loop (map_option (\<lambda>n. n - 1) stop) rs fin of (out, e) \<Rightarrow> (row_from_proto r # out, e)))"

definition pd_tail ::
  "('v \<Rightarrow> string + string) \<Rightarrow> plugin_driver \<Rightarrow> 'w engine_client \<Rightarrow> 'v inst \<Rightarrow> endpoint \<Rightarrow> string \<Rightarrow> string \<Rightarrow> nat option \<Rightarrow>
   ('w host, row list \<times> go_error option) act" where
  "pd_tail enc d c inst ep panel selector stop =
     (if \<not> has_cap d cap_console then returns ([], Some (Plain (pd_type d @ '' has no console to tail'')))
      else with_instance enc inst (\<lambda>e. returns ([], Some (Plain e)))
        (\<lambda>pi st. case on_host (cl_tail c pi (endpoint_to_proto ep) panel selector stop) st of
           ((rows, fin), st') \<Rightarrow> (tail_loop stop rows fin, st')))"

lemmas method_defs = pd_provision_def pd_provisioned_def pd_backend_socket_def pd_conn_string_def pd_plan_def
  pd_ensure_template_def pd_clone_template_def pd_converge_def pd_actions_def pd_resources_def
  pd_run_action_def pd_attributes_def pd_objects_def pd_prune_def pd_backend_url_def pd_supervised_def
  pd_hook_def pd_pre_start_def pd_post_start_def pd_pre_stop_def pd_check_health_def
  pd_restart_policy_def pd_advertised_addr_def pd_network_def

section \<open>What is there by its presence\<close>

lemma implements_presence:
  "implements w iface_versionless \<longleftrightarrow> w \<in> {VersionlessAdminDriver, VersionlessTemplaterAdminDriver, VersionlessDriver,
     VersionlessTemplaterDriver, VersionlessStructuralDriver, VersionlessTemplaterStructuralDriver,
     VersionlessAdminStructuralDriver, VersionlessTemplaterAdminStructuralDriver}"
  "implements w iface_templater \<longleftrightarrow> w \<in> {TemplaterAdminDriver, VersionlessTemplaterAdminDriver, TemplaterDriver,
     VersionlessTemplaterDriver, TemplaterStructuralDriver, VersionlessTemplaterStructuralDriver,
     TemplaterAdminStructuralDriver, VersionlessTemplaterAdminStructuralDriver}"
  "implements w iface_admin \<longleftrightarrow> w \<in> {AdminDriver, VersionlessAdminDriver, TemplaterAdminDriver,
     VersionlessTemplaterAdminDriver, AdminStructuralDriver, VersionlessAdminStructuralDriver,
     TemplaterAdminStructuralDriver, VersionlessTemplaterAdminStructuralDriver}"
  "implements w iface_console \<longleftrightarrow> implements w iface_admin"
  by (induct w; code_simp)+

lemma implements_trio:
  "implements w iface_converger \<longleftrightarrow> w \<in> {Structural, StructuralDriver, VersionlessStructuralDriver, TemplaterStructuralDriver,
     AdminStructuralDriver, VersionlessTemplaterStructuralDriver, VersionlessAdminStructuralDriver,
     TemplaterAdminStructuralDriver, VersionlessTemplaterAdminStructuralDriver}"
  "implements w iface_inventory \<longleftrightarrow> implements w iface_converger"
  "implements w iface_pruner \<longleftrightarrow> implements w iface_converger"
  by (induct w; code_simp)+

lemma implements_always:
  "w = Structural \<or> implements w iface_driver \<and> implements w iface_spawner \<and> implements w iface_slow_booter"
  by (induct w; code_simp)

lemma wrap_presence:
  "implements (wrap_caps d) iface_versionless = has_cap d cap_versionless"
  "implements (wrap_caps d) iface_templater = has_cap d cap_templater"
  "implements (wrap_caps d) iface_admin = has_cap d cap_admin"
  "implements (wrap_caps d) iface_converger = has_cap d cap_converger"
  "wrap_caps d \<noteq> Structural"
  by (simp_all add: implements_presence implements_trio wrap_caps_def Let_def)

section \<open>Through the wire\<close>

text \<open>What a driver's answer is to the host: its value, or its error as the host hands it on.\<close>

definition heard :: "('w, go_error option) act \<Rightarrow> ('w, go_error option) act" where
  "heard m w = map_prod (map_option told) id (m w)"

definition heard_result :: "('w, go_error + 'a) act \<Rightarrow> ('w, go_error + 'a) act" where
  "heard_result m w = map_prod (map_sum told id) id (m w)"

text \<open>Drivers whose answers fit the 32-bit fields of the wire.\<close>

definition driver_fits :: "('v, 'c, 'w) driver \<Rightarrow> bool" where
  "driver_fits drv \<longleftrightarrow>
     (\<forall>f inst w. dr_network drv = Some f \<longrightarrow> list_all (\<lambda>l. int32_ok (ls_port l)) (net_listeners (fst (f inst w)))) \<and>
     (\<forall>f inst w. dr_restart drv = Some f \<longrightarrow> int32_ok (rs_max_retries (fst (f inst w)))) \<and>
     (\<forall>f inst tc w p. dr_plan drv = Some f \<longrightarrow> fst (f inst tc w) = Inr p \<longrightarrow> list_all (\<lambda>s. ready_fits (ss_ready s)) (sp_specs p)) \<and>
     (\<forall>c w. dr_console drv = Some c \<longrightarrow> console_fits (fst (cn_describe c w)))"

lemma with_instance_crosses:
  assumes "instance_to_proto enc inst = Inr p"
  shows "with_instance enc inst fail k = k (Some p)"
  using assms by (simp add: with_instance_def fun_eq_iff)

lemma on_instance_crosses:
  assumes "instance_from_proto dec (Some p) = Inr inst'"
  shows "on_instance dec (Some p) k = k inst'"
  using assms by (simp add: on_instance_def fun_eq_iff)

lemma call_err_up: "call_err (rpc None (gives_error m)) = on_host (heard m)"
proof
  fix st
  show "call_err (rpc None (gives_error m)) st = on_host (heard m) st"
    by (cases "m (ho_world st)"; cases "fst (m (ho_world st))")
       (auto simp: call_err_def on_host_def gives_error_def heard_def err_result_def err_of_def)
qed

lemma call_result_up:
  assumes "\<And>w a. fst (m w) = Inr a \<Longrightarrow> f (g a) = a"
  shows "call_result f (rpc None (gives_result g m)) = on_host (heard_result m)"
proof
  fix st
  show "call_result f (rpc None (gives_result g m)) st = on_host (heard_result m) st"
    using assms[of "ho_world st"]
    by (cases "m (ho_world st)"; cases "fst (m (ho_world st))")
       (auto simp: call_result_def on_host_def gives_result_def heard_result_def)
qed

lemma call_or_up:
  assumes "\<And>w. f (g (fst (m w))) = fst (m w)"
  shows "call_or d call fb f (rpc None (gives g m)) = on_host m"
proof
  fix st
  show "call_or d call fb f (rpc None (gives g m)) st = on_host m st"
    using assms[of "ho_world st"] by (cases "m (ho_world st)") (auto simp: call_or_def on_host_def gives_def)
qed

lemma call_err_lost: "call_err (rpc (Some e) h) st = (user_error (Some e), st)"
  by (simp add: call_err_def on_host_def err_of_def)

lemma call_result_lost: "call_result f (rpc (Some e) h) st = (Inl (the (user_error (Some e))), st)"
  by (simp add: call_result_def on_host_def)

lemma call_or_lost: "call_or d call fb f (rpc (Some e) h) st = (fb, report d call e st)"
  by (simp add: call_or_def on_host_def)

lemma call_lost_unused: "call_err (\<lambda>w. (Inl (on_wire e), w)) st = (Some (told e), st)"
  by (simp add: call_err_def on_host_def err_of_def)

lemmas calls_up = call_err_up call_result_up call_or_up
lemmas calls_lost = call_err_lost call_result_lost call_or_lost

text \<open>The host's driver for a module, as \<open>new_plugin_driver\<close> makes it.\<close>

definition host_driver :: "('v, 'c, 'w) driver \<Rightarrow> plugin_driver" where
  "host_driver drv = \<lparr>pd_type = dr_type drv, pd_caps = fst (server_capabilities drv),
     pd_boot_budget = boot_budget (snd (server_capabilities drv))\<rparr>"

lemma new_plugin_driver_up: "new_plugin_driver (server_client None ce dec drv) st = (Inr (host_driver drv), st)"
  by (cases "server_capabilities drv")
     (simp add: new_plugin_driver_def on_host_def server_client_def server_type_def host_driver_def)

lemma host_driver_caps:
  "has_cap (host_driver drv) cap_converger \<longleftrightarrow> dr_converge drv \<noteq> None"
  "has_cap (host_driver drv) cap_attributer \<longleftrightarrow> dr_attributes drv \<noteq> None"
  "has_cap (host_driver drv) cap_backend_url \<longleftrightarrow> dr_backend_url drv \<noteq> None"
  "has_cap (host_driver drv) cap_lifecycle \<longleftrightarrow> dr_supervised drv \<noteq> None"
  "has_cap (host_driver drv) cap_hooked \<longleftrightarrow> dr_hooked drv \<noteq> None"
  "has_cap (host_driver drv) cap_health \<longleftrightarrow> dr_health drv \<noteq> None"
  "has_cap (host_driver drv) cap_restartable \<longleftrightarrow> dr_restart drv \<noteq> None"
  "has_cap (host_driver drv) cap_port_binder \<longleftrightarrow> dr_advertised drv \<noteq> None"
  "has_cap (host_driver drv) cap_versionless \<longleftrightarrow> dr_versionless drv"
  "has_cap (host_driver drv) cap_templater \<longleftrightarrow> dr_templater drv \<noteq> None"
  "has_cap (host_driver drv) cap_proxy_filter \<longleftrightarrow> dr_proxy_filter drv"
  "has_cap (host_driver drv) cap_admin \<longleftrightarrow> dr_admin drv \<noteq> None"
  "has_cap (host_driver drv) cap_console \<longleftrightarrow> dr_console drv \<noteq> None"
  "has_cap (host_driver drv) cap_networked \<longleftrightarrow> dr_network drv \<noteq> None"
  unfolding has_cap_def host_driver_def plugin_driver.simps server_caps mem_Collect_eq cap_defs
  by simp_all

lemma int32_back: "int32_ok i \<Longrightarrow> of_int32 (to_int32 i) = i"
  by (simp add: wire_trip)

lemma driver_fits_network:
  "driver_fits drv \<Longrightarrow> dr_network drv = Some f \<Longrightarrow> network_from_proto (Some (network_to_proto (fst (f inst w)))) = fst (f inst w)"
  by (simp add: driver_fits_def network_trip list_all_iff)

lemma driver_fits_restart:
  "driver_fits drv \<Longrightarrow> dr_restart drv = Some f \<Longrightarrow> restart_from_proto (restart_to_proto (fst (f inst w))) = fst (f inst w)"
  by (simp add: driver_fits_def restart_trip)

lemma driver_fits_plan:
  "driver_fits drv \<Longrightarrow> dr_plan drv = Some f \<Longrightarrow> fst (f inst tc w) = Inr p \<Longrightarrow>
   plan_from_proto (Some (plan_to_proto p)) = p"
  by (simp add: driver_fits_def plan_trip list_all_iff)

lemma driver_fits_console:
  "driver_fits drv \<Longrightarrow> dr_console drv = Some c \<Longrightarrow>
   console_spec_from_proto (Some (console_spec_to_proto (fst (cn_describe c w)))) = fst (cn_describe c w)"
  by (simp add: driver_fits_def console_trip)

lemmas through_the_wire = server_client_def handler_defs method_defs wire_trip

section \<open>An example\<close>

text \<open>A module whose world is the list of the calls made on it and whose config is a number; its
  values are encoded in unary.\<close>

definition example_enc :: "nat \<Rightarrow> string + string" where
  "example_enc n = Inr (replicate (Suc n) CHR ''x'')"

definition example_dec :: "string \<Rightarrow> string + nat" where
  "example_dec b = Inr (length b - 1)"

definition example_host :: "string list host" where
  "example_host = \<lparr>ho_world = [], ho_reporter = True, ho_reports = [], ho_console = None\<rparr>"

definition example_inst :: "nat inst" where
  "example_inst = zero_instance\<lparr>in_name := ''db'', in_port := 5432, in_spec := SpecValue 3\<rparr>"

definition logs :: "string \<Rightarrow> 'a \<Rightarrow> (string list, 'a) act" where
  "logs call a w = (a, w @ [call])"

definition example_driver :: "(nat, nat, string list) driver" where
  "example_driver = \<lparr>dr_type = ''q'', dr_provision = (\<lambda>i tc. logs (in_name i) (Some (Plain ''disk full''))),
     dr_provisioned = (\<lambda>dir. logs dir True), dr_backend_socket = (\<lambda>dir port. logs dir (dir @ dec_int port)),
     dr_conn_string = (\<lambda>i ep. logs ''conn'' (''URL'', in_name i)),
     dr_converge = Some (\<lambda>i tc ep. logs ''converge'' None), dr_objects = None, dr_prune = None,
     dr_attributes = Some (\<lambda>i ep. logs ''attrs'' [(''port'', nat (in_port i))]), dr_backend_url = None,
     dr_supervised = None, dr_hooked = None, dr_health = Some (\<lambda>i. logs ''health'' (Some (Plain ''down''))),
     dr_restart = None, dr_advertised = None, dr_plan = None, dr_versionless = True, dr_templater = None,
     dr_proxy_filter = False, dr_admin = None,
     dr_console = Some \<lparr>cn_describe = logs ''describe'' zero_console,
       cn_tail = (\<lambda>i ep p s stop. logs ''tail'' ([\<lparr>rw_cells = [(''m'', p)], rw_tone = []\<rparr>, \<lparr>rw_cells = [(''m'', s)], rw_tone = []\<rparr>],
         Some (Plain ''broker gone'')))\<rparr>,
     dr_network = Some (\<lambda>i. logs ''network'' \<lparr>net_listeners = [\<lparr>ls_name = ''main'', ls_port = in_port i, ls_protocol = ''tcp'', ls_routes = []\<rparr>]\<rparr>),
     dr_boot_budget = Some 1500000\<rparr>"

definition example_module :: "(nat, nat, string list) driver" where
  "example_module = example_driver\<lparr>dr_network := None\<rparr>"

lemma example_crosses: "crosses example_enc example_dec example_inst example_inst"
proof -
  have "opened_spec example_dec (in_spec example_inst) = Inr (in_spec example_inst)"
    by (simp add: opened_spec_def example_inst_def)
  moreover have "int32_ok (in_port example_inst)" by (simp add: example_inst_def int32_ok_def)
  moreover obtain p where "instance_to_proto example_enc example_inst = Inr p"
    by (simp add: instance_to_proto_def instance_spec_def encode_spec_def example_inst_def example_enc_def)
  moreover have "\<And>v b. example_enc v = Inr b \<Longrightarrow> b \<noteq> [] \<and> example_dec b = Inr v"
    by (auto simp: example_enc_def example_dec_def)
  ultimately show ?thesis using instance_wire[of example_enc example_dec] by (auto simp: crosses_def)
qed

lemma example_fits: "driver_fits example_module"
  by (simp add: driver_fits_def example_module_def example_driver_def logs_def console_fits_def zero_console_def)

section \<open>Properties\<close>





text \<open>C24. A module that cannot be reached. With the connection lost, a method with an error to return
  returns the transport's message, and one without falls back and tells the Reporter once, by
  the module's type and the call's name; the module's world is untouched either way.\<close>

theorem lost_module_is_reported:
  assumes "crosses enc dec inst inst'" "msg \<noteq> []" "ho_reporter st"
    and c: "c = server_client (Some (Status code msg)) ce dec drv"
    and gone: "\<And>call. gone call = st\<lparr>ho_reports := ho_reports st @ [(pd_type d, call, Status code msg)]\<rparr>"
  shows "pd_provision enc c inst tc st = (Some (Plain msg), st) \<and>
    pd_plan enc c inst tc st = (Inl (Plain msg), st) \<and>
    pd_converge enc c inst tc ep st = (Some (Plain msg), st) \<and>
    pd_prune enc c inst tc ep objs st = (Some (Plain msg), st) \<and>
    pd_ensure_template c tc dir st = (Some (Plain msg), st) \<and>
    pd_clone_template c dir dest st = (Some (Plain msg), st) \<and>
    pd_resources enc c inst ep st = (Inl (Plain msg), st) \<and>
    pd_run_action enc c inst ep action res input st = (Inl (Plain msg), st) \<and>
    pd_check_health enc d c inst st = (if has_cap d cap_health then (Some (Plain msg), st) else (None, st)) \<and>
    pd_hook enc d c inst phase st = (if has_cap d cap_hooked then (Some (Plain msg), st) else (None, st)) \<and>
    pd_provisioned d c dir st = (False, gone ''Provisioned'') \<and>
    pd_backend_socket d c dir port st = ([], gone ''BackendSocket'') \<and>
    pd_conn_string enc d c inst ep st = (([], []), gone ''ConnString'') \<and>
    pd_actions d c st = ([], gone ''Actions'') \<and>
    pd_objects enc d c inst st = ([], gone ''Objects'') \<and>
    pd_attributes implied ctydec enc d c inst ep st = (None, if has_cap d cap_attributer then gone ''Attributes'' else st) \<and>
    pd_backend_url enc d c inst st = ([], if has_cap d cap_backend_url then gone ''BackendURL'' else st) \<and>
    pd_supervised enc d c inst st = (False, if has_cap d cap_lifecycle then gone ''Supervised'' else st) \<and>
    pd_restart_policy enc d c inst st = (no_restart, if has_cap d cap_restartable then gone ''RestartPolicy'' else st) \<and>
    pd_advertised_addr enc d c inst st = (([], False), if has_cap d cap_port_binder then gone ''AdvertisedAddr'' else st) \<and>
    pd_network enc d c inst st = (\<lparr>net_listeners = []\<rparr>, if has_cap d cap_networked then gone ''Network'' else st)"
proof -
  obtain p where p: "instance_to_proto enc inst = Inr p" using assms(1) by (auto simp: crosses_def)
  have u: "user_error (Some (Status code msg)) = Some (Plain msg)" using assms(2) by (simp add: user_error_def)
  have r: "report d call (Status code msg) st = gone call" for call
    using assms(3) by (simp add: report_def gone)
  show ?thesis
    unfolding c server_client_def method_defs engine_client.simps with_instance_crosses[OF p] r u
    by (simp add: with_instance_crosses[OF p] calls_lost r u returns_def on_host_def)
qed

theorem lost_module_is_reported_witness:
  "pd_conn_string example_enc (host_driver example_module)
     (server_client (Some (Status (OtherCode ''Unavailable'') ''connection refused'')) example_enc example_dec example_module)
     example_inst zero_endpoint example_host =
     (([], []), example_host\<lparr>ho_reports := [(''q'', ''ConnString'', Status (OtherCode ''Unavailable'') ''connection refused'')]\<rparr>)"
proof -
  let ?gone = "\<lambda>call. example_host\<lparr>ho_reports := [(''q'', call, Status (OtherCode ''Unavailable'') ''connection refused'')]\<rparr>"
  have m: "''connection refused'' \<noteq> []" and r: "ho_reporter example_host"
    by (simp_all add: example_host_def)
  have g: "?gone call = example_host\<lparr>ho_reports := ho_reports example_host @
      [(pd_type (host_driver example_module), call, Status (OtherCode ''Unavailable'') ''connection refused'')]\<rparr>" for call
    by (simp add: example_host_def host_driver_def example_module_def example_driver_def)
  show ?thesis
    using lost_module_is_reported[OF example_crosses m r refl g, where ep = zero_endpoint] by blast
qed




text \<open>The console is described once. Whatever the first call got, an empty console for a module
  without one or a failure it reported, every later call gets it again, over whatever connection
  and without asking.\<close>

theorem console_described_once:
  assumes "c = server_client lost ce dec drv" "d = host_driver drv" "driver_fits drv"
    and "ho_console st = None" "pd_describe_console d c st = (s, st1)" "ho_console st2 = ho_console st1"
  shows "pd_describe_console d c2 st2 = (s, st2) \<and>
    s = (case (dr_console drv, lost) of (Some cn, None) \<Rightarrow> fst (cn_describe cn (ho_world st)) | _ \<Rightarrow> zero_console)"
proof -
  have "ho_console st1 = Some s"
    using assms(4,5) by (auto simp: pd_describe_console_def split: prod.splits)
  moreover have "s = (case (dr_console drv, lost) of (Some cn, None) \<Rightarrow> fst (cn_describe cn (ho_world st)) | _ \<Rightarrow> zero_console)"
  proof (cases "dr_console drv")
    case None
    then show ?thesis using assms by (simp add: pd_describe_console_def host_driver_caps returns_def)
  next
    case (Some cn)
    then have "pd_describe_console d c st = (case call_or d ''DescribeConsole'' zero_console
        (\<lambda>s. console_spec_from_proto (Some s)) (rpc lost (gives console_spec_to_proto (cn_describe cn))) st of
          (s, st') \<Rightarrow> (s, st'\<lparr>ho_console := Some s\<rparr>))"
      using assms(1,2,4) by (simp add: pd_describe_console_def host_driver_caps server_client_def server_describe_console_def)
    then show ?thesis
      using assms(5) Some driver_fits_console[OF assms(3) Some]
      by (cases lost) (auto simp: calls_up calls_lost on_host_def split: prod.splits)
  qed
  ultimately show ?thesis using assms(6) by (simp add: pd_describe_console_def)
qed

theorem console_described_once_witness:
  "\<exists>st1. pd_describe_console (host_driver example_module) (server_client None example_enc example_dec example_module) example_host = (zero_console, st1) \<and>
     pd_describe_console (host_driver example_module) (server_client (Some send_error) example_enc example_dec example_module)
       (st1\<lparr>ho_reports := []\<rparr>) = (zero_console, st1\<lparr>ho_reports := []\<rparr>)"
proof -
  let ?d = "host_driver example_module" and ?c = "server_client None example_enc example_dec example_module"
  obtain s st1 where r: "pd_describe_console ?d ?c example_host = (s, st1)"
    by (cases "pd_describe_console ?d ?c example_host")
  have n: "ho_console example_host = None" by (simp add: example_host_def)
  have k: "ho_console (st1\<lparr>ho_reports := []\<rparr>) = ho_console st1" by simp
  from console_described_once[OF refl refl example_fits n r k, of "server_client (Some send_error) example_enc example_dec example_module"] r
  show ?thesis by (simp add: example_module_def example_driver_def logs_def)
qed

text \<open>A stream comes through whole and in order. The host gets the rows the module wrote, and the
  module's error; when the host stops after \<open>n\<close> rows it has the first \<open>n\<close> of those, and then no
  error, unless the stream had ended before.\<close>

theorem tail_in_order:
  assumes "crosses enc dec inst inst'" "c = server_client None ce dec drv" "d = host_driver drv"
    and "dr_console drv = Some cn" "cn_tail cn inst' ep panel sel stop (ho_world st) = ((rows, err), w)"
  shows "pd_tail enc d c inst ep panel sel stop st =
    ((case stop of None \<Rightarrow> (rows, map_option told err)
      | Some n \<Rightarrow> (take n rows, if length rows < n then map_option told err else None)), st\<lparr>ho_world := w\<rparr>)"
proof -
  obtain p where p: "instance_to_proto enc inst = Inr p" "instance_from_proto dec (Some p) = Inr inst'"
    using assms(1) by (auto simp: crosses_def)
  have row: "row_from_proto (row_to_proto r) = r" for r
    by (simp add: row_from_proto_def row_to_proto_def)
  have u: "user_error (map_option on_wire e) = map_option told e" for e
    by (cases e) simp_all
  have all: "tail_loop None (map row_to_proto rs) fin = (rs, user_error fin)" for rs fin
    by (induction rs) (simp_all add: row)
  have some: "tail_loop (Some n) (map row_to_proto rs) fin = (take n rs, if length rs < n then user_error fin else None)"
    for n rs fin
  proof (induction rs arbitrary: n)
    case (Cons r rs)
    then show ?case by (cases n) (simp_all add: row)
  qed simp
  show ?thesis
  proof (cases stop)
    case None
    then show ?thesis using assms(2-5) p
      by (simp add: pd_tail_def host_driver_caps with_instance_def server_client_def server_tail_def on_host_def
          send_rows_def all u endpoint_trip)
  next
    case (Some n)
    then show ?thesis using assms(2-5) p
      by (simp add: pd_tail_def host_driver_caps with_instance_def server_client_def server_tail_def on_host_def
          send_rows_def some u endpoint_trip)
  qed
qed

theorem tail_in_order_witness:
  "pd_tail example_enc (host_driver example_module) (server_client None example_enc example_dec example_module) example_inst zero_endpoint
     ''p'' ''s'' (Some 1) example_host =
     (([\<lparr>rw_cells = [(''m'', ''p'')], rw_tone = []\<rparr>], None), example_host\<lparr>ho_world := [''tail'']\<rparr>)"
proof -
  let ?rows = "[\<lparr>rw_cells = [(''m'', ''p'')], rw_tone = []\<rparr>, \<lparr>rw_cells = [(''m'', ''s'')], rw_tone = []\<rparr>]"
  obtain cn where cn: "dr_console example_module = Some cn" by (simp add: example_module_def example_driver_def)
  then have "cn_tail cn example_inst zero_endpoint ''p'' ''s'' (Some 1) (ho_world example_host) =
      ((?rows, Some (Plain ''broker gone'')), [''tail''])"
    by (auto simp: example_module_def example_driver_def logs_def example_host_def)
  from tail_in_order[OF example_crosses refl refl cn this] show ?thesis by simp
qed

end
