(* ===== verification/Boundary.thy ===== *)
theory Boundary
  imports Conv
begin

text \<open>
  The lock a module resolves against: \<open>mapLocker\<close> of \<open>plugin/server.go\<close>, a lock in memory seeded with
  the host's pins, which reports what was recorded. It is a \<open>locker\<close>; seeded, it answers as the
  host's lock does, and one \<open>ResolveVia\<close> against either makes the same choice.
\<close>

section \<open>mapLocker\<close>

record map_locker =
  ml_pins :: "pin gomap"
  ml_order :: "string list"

definition nul :: char where
  "nul = CHR 0x00"

definition lock_key :: "string \<Rightarrow> string \<Rightarrow> string" where
  "lock_key eng spec = eng @ [nul] @ spec"

definition new_map_locker :: "lock_entry list \<Rightarrow> map_locker" where
  "new_map_locker seed = \<lparr>ml_pins = foldl (\<lambda>m e. mput (lock_key (le_engine e) (le_spec e)) (le_pin e) m) [] seed,
     ml_order = []\<rparr>"

definition ml_get :: "map_locker \<Rightarrow> string \<Rightarrow> string \<Rightarrow> (pin \<times> bool) go" where
  "ml_get l eng spec = (case map_of (ml_pins l) (lock_key eng spec) of
     None \<Rightarrow> Ret (zero_pin, False)
   | Some p \<Rightarrow> Ret (p, True))"

definition ml_record :: "map_locker \<Rightarrow> string \<Rightarrow> string \<Rightarrow> pin \<Rightarrow> map_locker" where
  "ml_record l eng spec p =
     (let k = lock_key eng spec;
          order = (if map_of (ml_pins l) k = None then ml_order l @ [k]
                   else if k \<notin> set (ml_order l) then ml_order l @ [k]
                   else ml_order l)
      in l\<lparr>ml_order := order, ml_pins := mput k p (ml_pins l)\<rparr>)"

definition ml_recorded :: "map_locker \<Rightarrow> lock_entry list" where
  "ml_recorded l = map (\<lambda>k. case cut_char nul k of (eng, spec) \<Rightarrow>
     \<lparr>le_engine = eng, le_spec = spec, le_pin = mget zero_pin (ml_pins l) k\<rparr>) (ml_order l)"

section \<open>Keys\<close>

definition plain_name :: "string \<Rightarrow> bool" where
  "plain_name e = (nul \<notin> set e)"

lemma lock_key_inj:
  assumes "plain_name e" "plain_name e'" "lock_key e s = lock_key e' s'"
  shows "e = e' \<and> s = s'"
proof -
  have "takeWhile (\<lambda>c. c \<noteq> nul) (lock_key e s) = e" "takeWhile (\<lambda>c. c \<noteq> nul) (lock_key e' s') = e'"
    using assms(1,2) by (simp_all add: lock_key_def plain_name_def takeWhile_append takeWhile_eq_all_conv)
  then show ?thesis using assms(3) by (auto simp: lock_key_def)
qed

lemma cut_lock_key: "plain_name e \<Longrightarrow> cut_char nul (lock_key e s) = (e, s)"
  by (simp add: cut_char_def lock_key_def plain_name_def takeWhile_append takeWhile_eq_all_conv
      dropWhile_append dropWhile_eq_Nil_conv)

text \<open>The in-memory lock is a \<open>locker\<close> for engine names without a NUL.\<close>

interpretation maplock: locker ml_get ml_record "\<lambda>_. True" plain_name
proof (unfold_locales, goal_cases)
  case (1 l eng spec)
  then show ?case by (simp add: ml_get_def split: option.splits)
next
  case (2 l p eng spec)
  then show ?case by simp
next
  case (3 l p eng spec)
  then show ?case by (auto simp: ml_get_def ml_record_def Let_def mget_def)
next
  case (4 l eng eng' spec' spec p)
  then have "lock_key eng' spec' \<noteq> lock_key eng spec" using lock_key_inj by blast
  then show ?case by (simp add: ml_get_def ml_record_def Let_def)
qed

section \<open>Seeding from the host's lock\<close>

lemma seed_absent:
  assumes "\<forall>e\<in>set es. key e \<noteq> k"
  shows "map_of (foldl (\<lambda>m e. mput (key e) (val e) m) ini es) k = map_of ini k"
  using assms by (induction es arbitrary: ini) auto

lemma seed_present:
  assumes "\<forall>e\<in>set es. key e = k \<longrightarrow> val e = v" "map_of ini k = Some v \<or> (\<exists>e\<in>set es. key e = k)"
  shows "map_of (foldl (\<lambda>m e. mput (key e) (val e) m) ini es) k = Some v"
  using assms by (induction es arbitrary: ini) auto

definition names_plain :: "lock \<Rightarrow> bool" where
  "names_plain l = list_all (\<lambda>(e, specs). plain_name e) (lk_engines l)"

definition pin_of :: "lock_pin \<Rightarrow> pin" where
  "pin_of p = \<lparr>pin_resolved = lp_resolved p, pin_source = lp_source p, pin_hashes = lp_hashes p\<rparr>"

lemma lock_entries_iff:
  "e \<in> set (lock_entries (Some l)) \<longleftrightarrow> (\<exists>eng specs spec p. (eng, specs) \<in> set (lk_engines l) \<and>
     (spec, Some p) \<in> set specs \<and> e = \<lparr>le_engine = eng, le_spec = spec, le_pin = pin_of p\<rparr>)"
  by (fastforce simp: lock_entries_def pin_of_def split: option.splits)

lemma lock_entry_spec:
  assumes "lock_ok l"
  shows "\<lparr>le_engine = eng, le_spec = spec, le_pin = p\<rparr> \<in> set (lock_entries (Some l)) \<longleftrightarrow>
    (\<exists>q. map_of (lock_specs l eng) spec = Some (Some q) \<and> p = pin_of q)"
proof -
  have eng_ok: "gomap_ok (lk_engines l)" using assms by (simp add: lock_ok_def)
  have sp_ok: "gomap_ok (lock_specs l eng)" using lock_specs_ok[OF assms] by (simp add: specs_ok_def)
  have "(\<exists>specs. (eng, specs) \<in> set (lk_engines l) \<and> (spec, Some q) \<in> set specs) \<longleftrightarrow>
      map_of (lock_specs l eng) spec = Some (Some q)" for q
    using gomap_in_set_iff[OF eng_ok] gomap_in_set_iff[OF sp_ok]
    by (auto simp: lock_specs_def mget_def split: option.splits)
  then show ?thesis by (simp add: lock_entries_iff) blast
qed

text \<open>A pin is found exactly when it is listed.\<close>

lemma lock_get_listed:
  assumes "lock_ok l"
  shows "lock_get (Some l) eng spec = Ret (p, True) \<longleftrightarrow> \<lparr>le_engine = eng, le_spec = spec, le_pin = p\<rparr> \<in> set (lock_entries (Some l))"
  unfolding lock_entry_spec[OF assms] by (auto simp: lock_get_def pin_of_def split: option.splits)

lemma lock_get_found:
  assumes "lock_ok l"
  shows "\<exists>p ok. lock_get (Some l) eng spec = Ret (p, ok) \<and> (\<not> ok \<longrightarrow> p = zero_pin)"
  using lock_specs_ok[OF assms, of eng]
  by (fastforce simp: lock_get_def split: option.splits elim: specs_ok_get)

lemma lock_get_entry:
  assumes "lock_ok l"
  shows "lock_get (Some l) eng spec = (if \<exists>p. \<lparr>le_engine = eng, le_spec = spec, le_pin = p\<rparr> \<in> set (lock_entries (Some l))
    then Ret (THE p. \<lparr>le_engine = eng, le_spec = spec, le_pin = p\<rparr> \<in> set (lock_entries (Some l)), True)
    else Ret (zero_pin, False))"
proof -
  obtain p ok where g: "lock_get (Some l) eng spec = Ret (p, ok)" "\<not> ok \<longrightarrow> p = zero_pin"
    using lock_get_found[OF assms] by blast
  show ?thesis unfolding lock_get_listed[OF assms, symmetric] using g by (cases ok) auto
qed

lemma seeded_get:
  assumes "lock_ok l" "names_plain l" "plain_name eng"
  shows "ml_get (new_map_locker (lock_entries (Some l))) eng spec = lock_get (Some l) eng spec"
proof -
  let ?es = "lock_entries (Some l)"
  let ?pins = "foldl (\<lambda>m e. mput (lock_key (le_engine e) (le_spec e)) (le_pin e) m) [] ?es"
  have plain: "plain_name (le_engine e)" if "e \<in> set ?es" for e
    using that assms(2) by (auto simp: lock_entries_iff names_plain_def list_all_iff)
  have key: "lock_key (le_engine e) (le_spec e) = lock_key eng spec \<longleftrightarrow> le_engine e = eng \<and> le_spec e = spec"
    if "e \<in> set ?es" for e
    using lock_key_inj[OF plain[OF that] assms(3)] by auto
  have eta: "\<lparr>le_engine = le_engine e, le_spec = le_spec e, le_pin = le_pin e\<rparr> = e" for e :: lock_entry
    by (cases e) simp
  show ?thesis
  proof (cases "\<exists>p. \<lparr>le_engine = eng, le_spec = spec, le_pin = p\<rparr> \<in> set ?es")
    case False
    then have "\<forall>e\<in>set ?es. lock_key (le_engine e) (le_spec e) \<noteq> lock_key eng spec"
      using key eta by metis
    then have "map_of ?pins (lock_key eng spec) = None"
      using seed_absent[where key = "\<lambda>e. lock_key (le_engine e) (le_spec e)" and val = le_pin and ini = "[]"] by simp
    then show ?thesis using False by (simp add: ml_get_def new_map_locker_def lock_get_entry[OF assms(1)])
  next
    case True
    then obtain p where p: "\<lparr>le_engine = eng, le_spec = spec, le_pin = p\<rparr> \<in> set ?es" by blast
    have g: "lock_get (Some l) eng spec = Ret (THE p. \<lparr>le_engine = eng, le_spec = spec, le_pin = p\<rparr> \<in> set ?es, True)"
      using True by (simp add: lock_get_entry[OF assms(1)])
    have u: "q = p" if "\<lparr>le_engine = eng, le_spec = spec, le_pin = q\<rparr> \<in> set ?es" for q
    proof -
      have "gomap_ok (lk_engines l)" using assms(1) by (simp add: lock_ok_def)
      moreover have "gomap_ok specs" if "(e, specs) \<in> set (lk_engines l)" for e specs
        using assms(1) that by (auto simp: lock_ok_def specs_ok_def list_all_iff)
      ultimately show ?thesis
        using p that unfolding lock_entries_iff by (auto dest: gomap_ok_fst_inj)
    qed
    have "\<forall>e\<in>set ?es. lock_key (le_engine e) (le_spec e) = lock_key eng spec \<longrightarrow> le_pin e = p"
      using key eta u by metis
    moreover have "\<exists>e\<in>set ?es. lock_key (le_engine e) (le_spec e) = lock_key eng spec"
      using p by force
    ultimately have "map_of ?pins (lock_key eng spec) = Some p"
      using seed_present[where key = "\<lambda>e. lock_key (le_engine e) (le_spec e)" and val = le_pin and ini = "[]"] by blast
    moreover have "(THE p. \<lparr>le_engine = eng, le_spec = spec, le_pin = p\<rparr> \<in> set ?es) = p"
      using p u by blast
    ultimately show ?thesis using g by (simp add: ml_get_def new_map_locker_def)
  qed
qed

section \<open>A lock without null pins\<close>

lemma lock_ok_step: "lock_step l l' \<Longrightarrow> lock_ok l \<Longrightarrow> lock_ok l'"
proof (induction rule: lock_step.induct)
  case (step_record q l eng spec)
  then show ?case by (simp add: record_pin_ok)
qed (auto simp: record_module_def drop_module_def record_download_def lock_ok_def split: if_splits option.splits)

text \<open>C40. A lock that has no null pin is sound for good. However it is changed, by recording, by module pins
  put and dropped, by downloads, it keeps its shape, one entry for a key and a pin behind every entry; so looking
  anything up never panics, and it finds a pin exactly where the lock lists one, that very pin.\<close>

theorem lock_stays_sound:
  assumes "lock_ok l" "lock_step\<^sup>*\<^sup>* l l'"
  shows "lock_ok l' \<and> lock_get (Some l') eng spec \<noteq> Panic \<and> (lock_get (Some l') eng spec = Ret (p, True)
    \<longleftrightarrow> \<lparr>le_engine = eng, le_spec = spec, le_pin = p\<rparr> \<in> set (lock_entries (Some l')))"
proof -
  have ok: "lock_ok l'" using assms(2,1) by (induction rule: rtranclp_induct) (auto intro: lock_ok_step)
  with lock_get_found[OF ok, of eng spec] lock_get_listed[OF ok] show ?thesis by auto
qed

lemma lock_stays_sound_witness:
  "lock_ok (record_pin example_lock ''postgres'' ''16'' example_pin)
    \<and> lock_get (Some (record_pin example_lock ''postgres'' ''16'' example_pin)) ''valkey'' ''8'' \<noteq> Panic"
proof -
  have "lock_ok example_lock" by (simp add: lock_ok_def example_lock_def)
  moreover have "lock_step\<^sup>*\<^sup>* example_lock (record_pin example_lock ''postgres'' ''16'' example_pin)"
    by (rule r_into_rtranclp, rule step_record) (simp add: example_pin_def)
  ultimately show ?thesis using lock_stays_sound by blast
qed

section \<open>What the module reports\<close>

lemma recorded_one:
  assumes "plain_name eng"
  shows "ml_recorded (ml_record (new_map_locker seed) eng spec p) = [\<lparr>le_engine = eng, le_spec = spec, le_pin = p\<rparr>]"
  using assms by (simp add: ml_recorded_def ml_record_def new_map_locker_def Let_def cut_lock_key)

lemma recorded_none: "ml_recorded (new_map_locker seed) = []"
  by (simp add: ml_recorded_def new_map_locker_def)

text \<open>One \<open>ResolveVia\<close> against either lock makes the same choice.\<close>

lemma ensure_and_record_same:
  "map_prod id (\<lambda>_. ()) (ensure_and_record f ensure lk plat eng spec full sha) =
   map_prod id (\<lambda>_. ()) (ensure_and_record g ensure lk' plat eng spec full sha)"
  by (auto simp: ensure_and_record_def Let_def split: sum.splits)

lemma resolve_via_choice:
  assumes "getp l eng spec = getq m eng spec"
  shows "(\<exists>full sha. resolve_via getp f rm ensure l plat eng spec ex = Ret (ensure_and_record f ensure l plat eng spec full sha) \<and>
        resolve_via getq g rm ensure m plat eng spec ex = Ret (ensure_and_record g ensure m plat eng spec full sha)) \<or>
    (\<exists>e. resolve_via getp f rm ensure l plat eng spec ex = Ret (Inl e, l) \<and>
        resolve_via getq g rm ensure m plat eng spec ex = Ret (Inl e, m)) \<or>
    (resolve_via getp f rm ensure l plat eng spec ex = Panic \<and> resolve_via getq g rm ensure m plat eng spec ex = Panic)"
proof (cases "getp l eng spec")
  case (Ret po)
  obtain p ok where "po = (p, ok)" by (cases po)
  then have g: "getp l eng spec = Ret (p, ok)" "getq m eng spec = Ret (p, ok)" using assms Ret by simp_all
  obtain v exact where v: "ex spec = (v, exact)" by (cases "ex spec")
  consider (pin) "ok \<and> pin_resolved p \<noteq> []" | (exact) "\<not> (ok \<and> pin_resolved p \<noteq> [])" "exact"
    | (bad) e where "\<not> (ok \<and> pin_resolved p \<noteq> [])" "\<not> exact" "rm eng spec = Inl e"
    | (major) full where "\<not> (ok \<and> pin_resolved p \<noteq> [])" "\<not> exact" "rm eng spec = Inr full"
    by (cases "rm eng spec") auto
  then show ?thesis
  proof cases
    case pin
    then have "resolve_via gp f rm ensure k plat eng spec ex = Ret (ensure_and_record f ensure k plat eng spec
        (pin_resolved p) (mget [] (pin_hashes p) (pl_triple plat)))" if "gp k eng spec = Ret (p, ok)" for gp f k
      using that by (simp add: resolve_via_def)
    then show ?thesis using g by metis
  next
    case exact
    then have "resolve_via gp f rm ensure k plat eng spec ex = Ret (ensure_and_record f ensure k plat eng spec v [])"
      if "gp k eng spec = Ret (p, ok)" for gp f k
      using that v by (auto simp: resolve_via_def)
    then show ?thesis using g by metis
  next
    case (bad e)
    then have "resolve_via gp f rm ensure k plat eng spec ex = Ret (Inl (MajorFailed e), k)"
      if "gp k eng spec = Ret (p, ok)" for gp f k
      using that v by (auto simp: resolve_via_def)
    then show ?thesis using g by metis
  next
    case (major full)
    then have "resolve_via gp f rm ensure k plat eng spec ex = Ret (ensure_and_record f ensure k plat eng spec full [])"
      if "gp k eng spec = Ret (p, ok)" for gp f k
      using that v by (auto simp: resolve_via_def)
    then show ?thesis using g by metis
  qed
next
  case Panic
  then show ?thesis using assms by (simp add: resolve_via_def)
qed

end
