(* ===== verification/Broker.thy ===== *)
theory Broker
  imports Boundary Driver
begin

text \<open>
  Resolving in the module, fetching in the host. During a \<open>Resolve\<close> the host serves its
  \<open>engine.Fetcher\<close> to the module on a broker id (\<open>plugin/fetch.go\<close>), ships its lock, and merges what
  the module recorded (\<open>pluginDriver.Resolve\<close> of \<open>plugin/adapter.go\<close>); the module's handler resolves
  against a \<open>mapLocker\<close> (\<open>engineServer.Resolve\<close> of \<open>plugin/server.go\<close>). go-plugin's broker is a
  table of what is served, which may refuse an id or fail to reach one.
\<close>

section \<open>Fetching across the broker\<close>

record fetcher =
  fc_major :: "string \<Rightarrow> string \<Rightarrow> go_error + string"
  fc_ensure :: "string \<Rightarrow> string \<Rightarrow> platform \<Rightarrow> string \<Rightarrow> go_error + (string \<times> string)"

definition err_old_host :: go_error where
  "err_old_host = Plain ''this doze is older than the module and can't download engine binaries for it: upgrade doze''"

definition old_host_fetcher :: fetcher where
  "old_host_fetcher = \<lparr>fc_major = (\<lambda>eng major. Inl err_old_host), fc_ensure = (\<lambda>eng full plat sha. Inl err_old_host)\<rparr>"

record broker =
  bk_next :: nat
  bk_serving :: "(nat \<times> fetcher) list"
  bk_accept :: "nat \<Rightarrow> string option"
  bk_dial :: "nat \<Rightarrow> string option"

text \<open>\<open>serveFetcher\<close>: id 0 stands for no fetcher. \<open>NextId\<close> counts up from 1.\<close>

definition serve_fetcher :: "broker option \<Rightarrow> fetcher option \<Rightarrow> (string + nat) \<times> broker option" where
  "serve_fetcher bo fo = (case (bo, fo) of
     (Some b, Some f) \<Rightarrow>
       (let i = Suc (bk_next b); b1 = b\<lparr>bk_next := i\<rparr> in
        case bk_accept b1 i of
          Some e \<Rightarrow> (Inl e, Some b1)
        | None \<Rightarrow> (Inr i, Some (b1\<lparr>bk_serving := mput i f (bk_serving b1)\<rparr>)))
   | _ \<Rightarrow> (Inr 0, bo))"

definition stop_serving :: "nat \<Rightarrow> broker option \<Rightarrow> broker option" where
  "stop_serving i bo = map_option (\<lambda>b. b\<lparr>bk_serving := mdel i (bk_serving b)\<rparr>) bo"

text \<open>The host's end, and the module's, which strips the transport's framing from an error.\<close>

definition fetcher_server_major :: "fetcher \<Rightarrow> string \<Rightarrow> string \<Rightarrow> go_error + string" where
  "fetcher_server_major f eng major = map_sum on_wire id (fc_major f eng major)"

definition fetcher_server_ensure ::
  "fetcher \<Rightarrow> string \<Rightarrow> string \<Rightarrow> pb_platform option \<Rightarrow> string \<Rightarrow> go_error + (string \<times> string)" where
  "fetcher_server_ensure f eng full plat sha = map_sum on_wire id (fc_ensure f eng full (platform_from_proto plat) sha)"

definition unframed :: "go_error \<Rightarrow> go_error" where
  "unframed e = the (user_error (Some e))"

definition fetcher_client :: "fetcher \<Rightarrow> fetcher" where
  "fetcher_client f =
     \<lparr>fc_major = (\<lambda>eng major. map_sum unframed id (fetcher_server_major f eng major)),
      fc_ensure = (\<lambda>eng full plat sha. map_sum unframed id (fetcher_server_ensure f eng full (platform_to_proto plat) sha))\<rparr>"

definition dial_fetcher :: "broker option \<Rightarrow> nat \<Rightarrow> string + fetcher" where
  "dial_fetcher bo i = (case bo of
     None \<Rightarrow> Inr old_host_fetcher
   | Some b \<Rightarrow> if i = 0 then Inr old_host_fetcher
      else (case bk_dial b i of
          Some e \<Rightarrow> Inl (''reaching doze to download engine binaries: '' @ e)
        | None \<Rightarrow> (case map_of (bk_serving b) i of
            None \<Rightarrow> Inl ''reaching doze to download engine binaries: timeout waiting for connection info''
          | Some f \<Rightarrow> Inr (fetcher_client f))))"

section \<open>The Resolve call on both sides\<close>

text \<open>The module's handler, with the driver's own \<open>Resolve\<close> as a parameter over the fetcher and the
  lock it is handed; an error carries no report.\<close>

definition server_resolve ::
  "(fetcher \<Rightarrow> map_locker \<Rightarrow> ((string + toolchain) \<times> map_locker) go) \<Rightarrow> broker option \<Rightarrow> pb_lock_entry list \<Rightarrow> nat \<Rightarrow>
   (string + (pb_toolchain option \<times> pb_lock_entry list)) go" where
  "server_resolve drv bo locked i = (case dial_fetcher bo i of
     Inl e \<Rightarrow> Ret (Inl e)
   | Inr f \<Rightarrow> (case drv f (new_map_locker (lock_entries_from_proto locked)) of
       Panic \<Rightarrow> Panic
     | Ret (Inl e, lk) \<Rightarrow> Ret (Inl e)
     | Ret (Inr tc, lk) \<Rightarrow> Ret (Inr (toolchain_to_proto tc, lock_entries_to_proto (ml_recorded lk)))))"

text \<open>The pins to ship: all of a lock that can be listed, else the engine's own.\<close>

definition shipped_pins ::
  "('l \<Rightarrow> lock_entry list) option \<Rightarrow> ('l \<Rightarrow> string \<Rightarrow> string \<Rightarrow> (pin \<times> bool) go) \<Rightarrow> 'l \<Rightarrow> string \<Rightarrow> string \<Rightarrow> lock_entry list go" where
  "shipped_pins lister getp lk eng spec = (case lister of
     Some entries \<Rightarrow> Ret (entries lk)
   | None \<Rightarrow> (case getp lk eng spec of
       Panic \<Rightarrow> Panic
     | Ret (p, ok) \<Rightarrow> Ret (if ok then [\<lparr>le_engine = eng, le_spec = spec, le_pin = p\<rparr>] else [])))"

definition wire_text :: "string \<Rightarrow> string" where
  "wire_text m = error_text (told (Plain m))"

text \<open>The host's side. Whatever happens, the fetcher is no longer served when it returns.\<close>

definition adapter_resolve ::
  "('l \<Rightarrow> lock_entry list) option \<Rightarrow> ('l \<Rightarrow> string \<Rightarrow> string \<Rightarrow> (pin \<times> bool) go) \<Rightarrow> ('l \<Rightarrow> string \<Rightarrow> string \<Rightarrow> pin \<Rightarrow> 'l) \<Rightarrow>
   (broker option \<Rightarrow> pb_lock_entry list \<Rightarrow> nat \<Rightarrow> (string + (pb_toolchain option \<times> pb_lock_entry list)) go) \<Rightarrow>
   broker option \<Rightarrow> fetcher option \<Rightarrow> string \<Rightarrow> string \<Rightarrow> 'l \<Rightarrow> ((string + toolchain) \<times> 'l) go \<times> broker option" where
  "adapter_resolve lister getp setp client bo fo eng spec lk = (case serve_fetcher bo fo of
     (Inl e, b1) \<Rightarrow> (Ret (Inl e, lk), b1)
   | (Inr i, b1) \<Rightarrow>
      (case shipped_pins lister getp lk eng spec of
         Panic \<Rightarrow> Panic
       | Ret locked \<Rightarrow> (case client b1 (lock_entries_to_proto locked) i of
           Panic \<Rightarrow> Panic
         | Ret (Inl e) \<Rightarrow> Ret (Inl (wire_text e), lk)
         | Ret (Inr (tc, recorded)) \<Rightarrow> Ret (Inr (toolchain_from_proto tc),
             foldl (\<lambda>l e. setp l (le_engine e) (le_spec e) (le_pin e)) lk (lock_entries_from_proto recorded))),
       stop_serving i b1))"

section \<open>A driver that resolves component binaries\<close>

text \<open>A driver may pin several binaries, each resolved through \<open>ResolveVia\<close>, in order, up to the first
  that fails. Errors are their texts.\<close>

definition resolve_text :: "resolve_error \<Rightarrow> string" where
  "resolve_text e = (case e of MajorFailed m \<Rightarrow> m | EnsureFailed m \<Rightarrow> m)"

definition text_result :: "go_error + 'a \<Rightarrow> string + 'a" where
  "text_result r = map_sum error_text id r"

fun resolve_all ::
  "('l \<Rightarrow> string \<Rightarrow> string \<Rightarrow> (pin \<times> bool) go) \<Rightarrow> ('l \<Rightarrow> string \<Rightarrow> string \<Rightarrow> pin \<Rightarrow> 'l) \<Rightarrow> fetcher \<Rightarrow> platform \<Rightarrow>
   (string \<times> string \<times> (string \<Rightarrow> string \<times> bool)) list \<Rightarrow> 'l \<Rightarrow> ((string + toolchain list) \<times> 'l) go" where
  "resolve_all getp setp f plat [] lk = Ret (Inr [], lk)"
| "resolve_all getp setp f plat ((eng, spec, exact) # cs) lk =
     (case resolve_via getp setp (\<lambda>e m. text_result (fc_major f e m)) (\<lambda>e v p s. text_result (fc_ensure f e v p s))
         lk plat eng spec exact of
        Panic \<Rightarrow> Panic
      | Ret (Inl e, lk1) \<Rightarrow> Ret (Inl (resolve_text e), lk1)
      | Ret (Inr tc, lk1) \<Rightarrow> (case resolve_all getp setp f plat cs lk1 of
          Panic \<Rightarrow> Panic
        | Ret (Inl e, lk2) \<Rightarrow> Ret (Inl e, lk2)
        | Ret (Inr tcs, lk2) \<Rightarrow> Ret (Inr (tc # tcs), lk2)))"

text \<open>The driver's \<open>Resolve\<close>: the components, made into one toolchain.\<close>

definition composite ::
  "(toolchain list \<Rightarrow> toolchain) \<Rightarrow> ('l \<Rightarrow> string \<Rightarrow> string \<Rightarrow> (pin \<times> bool) go) \<Rightarrow> ('l \<Rightarrow> string \<Rightarrow> string \<Rightarrow> pin \<Rightarrow> 'l) \<Rightarrow>
   platform \<Rightarrow> (string \<times> string \<times> (string \<Rightarrow> string \<times> bool)) list \<Rightarrow> fetcher \<Rightarrow> 'l \<Rightarrow> ((string + toolchain) \<times> 'l) go" where
  "composite mk getp setp plat cs f lk = (case resolve_all getp setp f plat cs lk of
     Panic \<Rightarrow> Panic
   | Ret (r, lk') \<Rightarrow> Ret (map_sum id mk r, lk'))"

section \<open>The client of a fetcher is the fetcher\<close>

definition fetcher_plain :: "fetcher \<Rightarrow> bool" where
  "fetcher_plain f \<longleftrightarrow> (\<forall>eng major e. fc_major f eng major = Inl e \<longrightarrow> (\<exists>m. e = Plain m \<and> m \<noteq> [])) \<and>
     (\<forall>eng full plat sha e. fc_ensure f eng full plat sha = Inl e \<longrightarrow> (\<exists>m. e = Plain m \<and> m \<noteq> []))"

lemma unframed_plain: "m \<noteq> [] \<Longrightarrow> unframed (on_wire (Plain m)) = Plain m"
  by (simp add: unframed_def told_plain)

lemma wire_text_same: "m \<noteq> [] \<Longrightarrow> wire_text m = m"
  by (simp add: wire_text_def told_plain error_text_def)

lemma fetcher_client_same:
  assumes "fetcher_plain f"
  shows "fetcher_client f = f"
proof -
  have "map_sum unframed id (fetcher_server_major f eng major) = fc_major f eng major" for eng major
  proof (cases "fc_major f eng major")
    case (Inl e)
    then obtain m where "e = Plain m" "m \<noteq> []" using assms unfolding fetcher_plain_def by blast
    then show ?thesis using Inl by (simp add: fetcher_server_major_def unframed_plain)
  qed (simp add: fetcher_server_major_def)
  moreover have "map_sum unframed id (fetcher_server_ensure f eng full (platform_to_proto plat) sha) = fc_ensure f eng full plat sha"
    for eng full plat sha
  proof (cases "fc_ensure f eng full plat sha")
    case (Inl e)
    then obtain m where "e = Plain m" "m \<noteq> []" using assms unfolding fetcher_plain_def by blast
    then show ?thesis using Inl by (simp add: fetcher_server_ensure_def unframed_plain platform_trip)
  qed (simp add: fetcher_server_ensure_def platform_trip)
  ultimately show ?thesis by (cases f) (simp add: fetcher_client_def)
qed

section \<open>Two locks in step\<close>

text \<open>The module's lock after it recorded the entries \<open>es\<close>, and the host's lock had it recorded them
  itself: they agree on every other key, and the entries are what the module reports.\<close>

definition entry_key :: "lock_entry \<Rightarrow> string \<times> string" where
  "entry_key e = (le_engine e, le_spec e)"

definition merge_entries :: "lock \<Rightarrow> lock_entry list \<Rightarrow> lock" where
  "merge_entries l es = foldl (\<lambda>l e. record_pin l (le_engine e) (le_spec e) (le_pin e)) l es"

definition in_step :: "lock \<Rightarrow> lock_entry list \<Rightarrow> map_locker \<Rightarrow> lock \<Rightarrow> bool" where
  "in_step l0 es m l \<longleftrightarrow> lock_ok l \<and> l = merge_entries l0 es \<and> ml_recorded m = es \<and>
     ml_order m = map (\<lambda>e. lock_key (le_engine e) (le_spec e)) es \<and>
     list_all (\<lambda>e. plain_name (le_engine e)) es \<and>
     (\<forall>eng spec. plain_name eng \<longrightarrow> (eng, spec) \<notin> entry_key ` set es \<longrightarrow> ml_get m eng spec = lock_get (Some l) eng spec)"

lemma in_step_ok: "in_step l0 es m l \<Longrightarrow> lock_ok l"
  unfolding in_step_def by blast

lemma in_step_start:
  assumes "lock_ok l" "names_plain l"
  shows "in_step l [] (new_map_locker (lock_entries (Some l))) l"
proof -
  have "ml_order (new_map_locker seed) = []" for seed by (simp add: new_map_locker_def)
  then show ?thesis using assms seeded_get[OF assms] by (simp add: in_step_def merge_entries_def recorded_none)
qed

lemma in_step_record:
  assumes "in_step l0 es m l" "plain_name eng" "(eng, spec) \<notin> entry_key ` set es" "gomap_ok (pin_hashes p)"
  defines "e \<equiv> \<lparr>le_engine = eng, le_spec = spec, le_pin = p\<rparr>"
  shows "in_step l0 (es @ [e]) (ml_record m eng spec p) (record_pin l eng spec p)"
proof -
  let ?k = "lock_key eng spec" and ?m = "ml_record m eng spec p"
  have plain: "plain_name (le_engine e')" if "e' \<in> set es" for e'
    using assms(1) that by (auto simp: in_step_def list_all_iff)
  have k: "lock_key (le_engine e') (le_spec e') \<noteq> ?k" if "e' \<in> set es" for e'
    using lock_key_inj[OF plain[OF that] assms(2)] assms(3) that by (force simp: entry_key_def)
  moreover have "ml_order m = map (\<lambda>e. lock_key (le_engine e) (le_spec e)) es"
    using assms(1) unfolding in_step_def by blast
  ultimately have fresh: "?k \<notin> set (ml_order m)" by force
  then have order: "ml_order ?m = ml_order m @ [?k]"
    by (simp add: ml_record_def Let_def)
  have pins: "ml_pins ?m = mput ?k p (ml_pins m)" by (simp add: ml_record_def Let_def)
  have "ml_recorded ?m = ml_recorded m @ [e]"
  proof -
    have "mget zero_pin (mput ?k p (ml_pins m)) k' = mget zero_pin (ml_pins m) k'" if "k' \<in> set (ml_order m)" for k'
      using that fresh by auto
    then show ?thesis using cut_lock_key[OF assms(2)] unfolding ml_recorded_def order pins e_def
      by (auto split: prod.splits)
  qed
  moreover have "ml_get ?m eng' spec' = lock_get (Some (record_pin l eng spec p)) eng' spec'"
    if "plain_name eng'" "(eng', spec') \<notin> entry_key ` set (es @ [e])" for eng' spec'
  proof -
    have o: "(eng', spec') \<noteq> (eng, spec)" "(eng', spec') \<notin> entry_key ` set es"
      using that(2) by (auto simp: e_def entry_key_def)
    have "ml_get ?m eng' spec' = ml_get m eng' spec'"
      by (rule maplock.get_record_other) (use assms(2) that(1) o(1) in simp_all)
    moreover have "lock_get (Some (record_pin l eng spec p)) eng' spec' = lock_get (Some l) eng' spec'"
      by (rule binlock.get_record_other) (use in_step_ok[OF assms(1)] o(1) in simp_all)
    ultimately show ?thesis using assms(1) that(1) o(2) by (simp add: in_step_def)
  qed
  moreover have "lock_ok (record_pin l eng spec p)"
    by (rule binlock.inv_record[OF in_step_ok[OF assms(1)] assms(4)])
  ultimately show ?thesis
    using assms(1,2) order by (simp add: in_step_def merge_entries_def e_def)
qed

text \<open>Results in step: the same error, or the same value with the locks in step.\<close>

definition result_in_step :: "lock \<Rightarrow> (('e + 'a) \<times> map_locker) go \<Rightarrow> (('e + 'a) \<times> lock) go \<Rightarrow> lock_entry list \<Rightarrow> bool" where
  "result_in_step l0 r1 r2 es \<longleftrightarrow> (\<exists>e m l. r1 = Ret (Inl e, m) \<and> r2 = Ret (Inl e, l)) \<or>
     (\<exists>a m l. r1 = Ret (Inr a, m) \<and> r2 = Ret (Inr a, l) \<and> in_step l0 es m l)"

lemma resolve_via_in_step:
  assumes "in_step l0 es m l" "plain_name eng" "(eng, spec) \<notin> entry_key ` set es"
  shows "\<exists>p. result_in_step l0 (resolve_via ml_get ml_record rm ens m plat eng spec ex)
     (resolve_via (\<lambda>l. lock_get (Some l)) record_pin rm ens l plat eng spec ex)
     (es @ [\<lparr>le_engine = eng, le_spec = spec, le_pin = p\<rparr>])"
proof -
  have g: "ml_get m eng spec = (\<lambda>l. lock_get (Some l)) l eng spec"
    using assms by (simp add: in_step_def)
  have np: "resolve_via (\<lambda>l. lock_get (Some l)) record_pin rm ens l plat eng spec ex \<noteq> Panic"
    by (rule binlock.resolve_via_total[OF in_step_ok[OF assms(1)]])
  from resolve_via_choice[where getp = ml_get and getq = "\<lambda>l. lock_get (Some l)" and l = m and m = l
      and f = ml_record and g = record_pin, OF g, of rm ens plat ex]
  show ?thesis
  proof (elim disjE exE conjE)
    fix full sha
    assume r: "resolve_via ml_get ml_record rm ens m plat eng spec ex = Ret (ensure_and_record ml_record ens m plat eng spec full sha)"
      "resolve_via (\<lambda>l. lock_get (Some l)) record_pin rm ens l plat eng spec ex = Ret (ensure_and_record record_pin ens l plat eng spec full sha)"
    show ?thesis
    proof (cases "ens eng full plat sha")
      case (Inl e)
      then show ?thesis unfolding r by (simp add: ensure_and_record_def result_in_step_def)
    next
      case (Inr bd)
      obtain bin d where bd: "bd = (bin, d)" by (cases bd)
      let ?p = "\<lparr>pin_resolved = full, pin_source = ''mirror'', pin_hashes = (if d \<noteq> [] then mput (pl_triple plat) d [] else [])\<rparr>"
      have "in_step l0 (es @ [\<lparr>le_engine = eng, le_spec = spec, le_pin = ?p\<rparr>]) (ml_record m eng spec ?p) (record_pin l eng spec ?p)"
        by (rule in_step_record[OF assms]) simp
      then show ?thesis unfolding r Inr bd by (auto simp: ensure_and_record_def Let_def result_in_step_def Inr bd)
    qed
  qed (use np in \<open>auto simp: result_in_step_def\<close>)
qed

definition component_key :: "string \<times> string \<times> 'x \<Rightarrow> string \<times> string" where
  "component_key c = (fst c, fst (snd c))"

lemma resolve_all_in_step:
  assumes "in_step l0 es m l" "list_all (\<lambda>c. plain_name (fst c)) cs" "distinct (map component_key cs)"
    "\<And>c. c \<in> set cs \<Longrightarrow> component_key c \<notin> entry_key ` set es"
  shows "\<exists>es'. result_in_step l0 (resolve_all ml_get ml_record f plat cs m)
     (resolve_all (\<lambda>l. lock_get (Some l)) record_pin f plat cs l) es'"
  using assms
proof (induction cs arbitrary: es m l)
  case Nil
  then show ?case by (auto simp: result_in_step_def)
next
  case (Cons c cs)
  obtain eng spec ex where c: "c = (eng, spec, ex)" by (cases c)
  have pe: "plain_name eng" "(eng, spec) \<notin> entry_key ` set es"
    using Cons.prems(2) Cons.prems(4)[of c] c by (simp_all add: component_key_def)
  let ?rm = "\<lambda>e m. text_result (fc_major f e m)" and ?en = "\<lambda>e v p s. text_result (fc_ensure f e v p s)"
  let ?r1 = "resolve_via ml_get ml_record ?rm ?en m plat eng spec ex"
  let ?r2 = "resolve_via (\<lambda>l. lock_get (Some l)) record_pin ?rm ?en l plat eng spec ex"
  obtain p where p: "result_in_step l0 ?r1 ?r2 (es @ [\<lparr>le_engine = eng, le_spec = spec, le_pin = p\<rparr>])"
    using resolve_via_in_step[OF Cons.prems(1) pe] by blast
  show ?case
  proof (cases "\<exists>e m l. ?r1 = Ret (Inl e, m) \<and> ?r2 = Ret (Inl e, l)")
    case True
    then show ?thesis by (auto simp: c result_in_step_def)
  next
    case False
    then obtain tc m1 l1 where r: "?r1 = Ret (Inr tc, m1)" "?r2 = Ret (Inr tc, l1)"
        "in_step l0 (es @ [\<lparr>le_engine = eng, le_spec = spec, le_pin = p\<rparr>]) m1 l1"
      using p by (auto simp: result_in_step_def)
    have "component_key c' \<notin> entry_key ` set (es @ [\<lparr>le_engine = eng, le_spec = spec, le_pin = p\<rparr>])" if "c' \<in> set cs" for c'
    proof -
      have "component_key c' \<noteq> component_key c" 
        using Cons.prems(3) that by (metis distinct.simps(2) image_eqI list.map(2) list.set_map)
      then show ?thesis using Cons.prems(4)[of c'] that c by (auto simp: component_key_def entry_key_def)
    qed
    then obtain es' where "result_in_step l0 (resolve_all ml_get ml_record f plat cs m1)
        (resolve_all (\<lambda>l. lock_get (Some l)) record_pin f plat cs l1) es'"
      using Cons.IH[OF r(3)] Cons.prems(2,3) by auto
    then show ?thesis using r(1,2) unfolding c result_in_step_def by (elim disjE exE conjE) auto
  qed
qed

text \<open>An error of such a driver is the text of one of the fetcher's, which is not empty.\<close>

lemma resolve_via_error_text:
  assumes "resolve_via getp setp rm ens lk plat eng spec ex = Ret (Inl e, lk')"
    "\<And>e m t. rm e m = Inl t \<Longrightarrow> t \<noteq> []" "\<And>e v p s t. ens e v p s = Inl t \<Longrightarrow> t \<noteq> []"
  shows "resolve_text e \<noteq> []"
  using assms(1)
  by (auto simp: resolve_via_def ensure_and_record_def Let_def resolve_text_def assms(2,3)
      split: go.splits prod.splits if_splits sum.splits)

lemma text_result_error: "fetcher_plain f \<Longrightarrow> text_result (fc_major f e m) = Inl t \<Longrightarrow> t \<noteq> []"
  "fetcher_plain f \<Longrightarrow> text_result (fc_ensure f e v p s) = Inl t \<Longrightarrow> t \<noteq> []"
  by (cases "fc_major f e m"; force simp: text_result_def error_text_def fetcher_plain_def)
     (cases "fc_ensure f e v p s"; force simp: text_result_def error_text_def fetcher_plain_def)

lemma resolve_all_error_text:
  assumes "fetcher_plain f"
  shows "resolve_all getp setp f plat cs lk = Ret (Inl e, lk') \<Longrightarrow> e \<noteq> []"
proof (induction cs arbitrary: lk e)
  case (Cons c cs)
  obtain eng spec ex where c: "c = (eng, spec, ex)" by (cases c)
  show ?case
    using Cons.prems Cons.IH unfolding c
    by (auto split: go.splits prod.splits sum.splits
        dest: resolve_via_error_text[OF _ text_result_error(1)[OF assms] text_result_error(2)[OF assms]])
qed simp

section \<open>Properties\<close>


definition example_fetcher :: fetcher where
  "example_fetcher = \<lparr>fc_major = (\<lambda>eng major. Inr (major @ ''.0.0'')),
     fc_ensure = (\<lambda>eng full plat sha. if eng = ''ferretdb'' then Inl (Plain ''no such host'') else Inr (''/b/'' @ eng, ''sha256:'' @ full))\<rparr>"

definition example_broker :: broker where
  "example_broker = \<lparr>bk_next = 4, bk_serving = [], bk_accept = (\<lambda>_. None), bk_dial = (\<lambda>_. None)\<rparr>"


end
