(* ===== verification/Diag.thy ===== *)
theory Diag
  imports Driver
begin

text \<open>
  Decoding a module's block of the config file: \<open>InSourceOrder\<close> of \<open>engine/decode.go\<close>, the handler
  \<open>DecodeConfig\<close> of \<open>plugin/server.go\<close>, \<open>DecodeRemote\<close> of \<open>plugin/adapter.go\<close>, and the way rejected
  blocks travel, \<open>plugin/diag.go\<close>. The HCL parser and the driver's decoder are parameters; so is
  whether protobuf can marshal a message, which it refuses for text that is not UTF-8.
\<close>

section \<open>Diagnostics\<close>

datatype severity = DiagInvalid | DiagError | DiagWarning

record pos =
  ps_line :: int
  ps_column :: int
  ps_byte :: int

record source_range =
  sr_filename :: string
  sr_start :: pos
  sr_end :: pos

record diag =
  dg_severity :: severity
  dg_summary :: string
  dg_detail :: string
  dg_subject :: "source_range option"
  dg_context :: "source_range option"

definition has_errors :: "diag list \<Rightarrow> bool" where
  "has_errors ds = list_ex (\<lambda>d. dg_severity d = DiagError) ds"

text \<open>The order of \<open>InSourceOrder\<close>: by file and byte, what has no place last.\<close>

definition source_less :: "diag \<Rightarrow> diag \<Rightarrow> bool" where
  "source_less x y = (case (dg_subject x, dg_subject y) of
     (Some a, Some b) \<Rightarrow> if sr_filename a \<noteq> sr_filename b then sr_filename a < sr_filename b
                        else ps_byte (sr_start a) < ps_byte (sr_start b)
   | (a, _) \<Rightarrow> a \<noteq> None)"

definition in_source_order :: "diag list \<Rightarrow> diag list" where
  "in_source_order ds = sort_slice source_less ds"

text \<open>\<open>DecodeStrict\<close> on what gohcl made of a body, a value and its diagnostics.\<close>

definition decode_strict :: "'a \<times> diag list \<Rightarrow> diag list + 'a" where
  "decode_strict decoded = (case decoded of (target, ds) \<Rightarrow>
     if has_errors ds then Inl (in_source_order ds) else Inr target)"

section \<open>On the wire\<close>

record pb_pos =
  pbps_line :: int
  pbps_column :: int
  pbps_byte :: int

record pb_range =
  pbsr_filename :: string
  pbsr_start :: "pb_pos option"
  pbsr_end :: "pb_pos option"

record pb_diag =
  pbdg_warning :: bool
  pbdg_summary :: string
  pbdg_detail :: string
  pbdg_subject :: "pb_range option"
  pbdg_context :: "pb_range option"

definition pos_to_proto :: "pos \<Rightarrow> pb_pos option" where
  "pos_to_proto p = Some \<lparr>pbps_line = ps_line p, pbps_column = ps_column p, pbps_byte = ps_byte p\<rparr>"

definition pos_from_proto :: "pb_pos option \<Rightarrow> pos" where
  "pos_from_proto po = (case po of
     None \<Rightarrow> \<lparr>ps_line = 0, ps_column = 0, ps_byte = 0\<rparr>
   | Some p \<Rightarrow> \<lparr>ps_line = pbps_line p, ps_column = pbps_column p, ps_byte = pbps_byte p\<rparr>)"

definition range_to_proto :: "source_range option \<Rightarrow> pb_range option" where
  "range_to_proto ro = (case ro of None \<Rightarrow> None
   | Some r \<Rightarrow> Some \<lparr>pbsr_filename = sr_filename r, pbsr_start = pos_to_proto (sr_start r), pbsr_end = pos_to_proto (sr_end r)\<rparr>)"

definition range_from_proto :: "pb_range option \<Rightarrow> source_range option" where
  "range_from_proto ro = (case ro of None \<Rightarrow> None
   | Some r \<Rightarrow> Some \<lparr>sr_filename = pbsr_filename r, sr_start = pos_from_proto (pbsr_start r), sr_end = pos_from_proto (pbsr_end r)\<rparr>)"

text \<open>The entries of the list are pointers; a nil one is skipped.\<close>

fun diags_to_proto :: "diag option list \<Rightarrow> pb_diag list" where
  "diags_to_proto [] = []"
| "diags_to_proto (None # ds) = diags_to_proto ds"
| "diags_to_proto (Some d # ds) =
     \<lparr>pbdg_warning = (dg_severity d = DiagWarning), pbdg_summary = dg_summary d, pbdg_detail = dg_detail d,
      pbdg_subject = range_to_proto (dg_subject d), pbdg_context = range_to_proto (dg_context d)\<rparr> # diags_to_proto ds"

definition diags_from_proto :: "pb_diag list \<Rightarrow> diag list" where
  "diags_from_proto pd = map (\<lambda>d.
     \<lparr>dg_severity = (if pbdg_warning d then DiagWarning else DiagError), dg_summary = pbdg_summary d,
      dg_detail = pbdg_detail d, dg_subject = range_from_proto (pbdg_subject d),
      dg_context = range_from_proto (pbdg_context d)\<rparr>) pd"

text \<open>A status with its details; only the details of this protocol matter.\<close>

datatype detail = DecodeDiagnostics "pb_diag list" | OtherDetail

record status =
  st_code :: code
  st_message :: string
  st_details :: "detail list"

definition decode_failure :: "(pb_diag list \<Rightarrow> bool) \<Rightarrow> string \<Rightarrow> diag option list \<Rightarrow> status" where
  "decode_failure marshals msg ds =
     (let st = \<lparr>st_code = Unknown, st_message = msg, st_details = []\<rparr> in
      if ds = [] then st
      else if marshals (diags_to_proto ds) then st\<lparr>st_details := [DecodeDiagnostics (diags_to_proto ds)]\<rparr>
      else st)"

text \<open>What the host has when a decode failed.\<close>

datatype decode_error = DecodeError string "diag list" | OtherError go_error

fun first_diagnostics :: "detail list \<Rightarrow> pb_diag list option" where
  "first_diagnostics [] = None"
| "first_diagnostics (DecodeDiagnostics pd # ds) = (if pd \<noteq> [] then Some pd else first_diagnostics ds)"
| "first_diagnostics (OtherDetail # ds) = first_diagnostics ds"

definition decode_error_from :: "status \<Rightarrow> decode_error" where
  "decode_error_from st = (case first_diagnostics (st_details st) of
     Some pd \<Rightarrow> DecodeError (st_message st) (diags_from_proto pd)
   | None \<Rightarrow> OtherError (the (user_error (Some (Status (st_code st) (st_message st))))))"

text \<open>A host that predates the details.\<close>

definition old_host_error :: "status \<Rightarrow> go_error" where
  "old_host_error st = the (user_error (Some (Status (st_code st) (st_message st))))"

section \<open>The handler\<close>

text \<open>The parser: a file and what was wrong with it, the blocks of a type, a block's labels, the
  place of its header, and its body without some attributes; and the texts HCL gives.\<close>

record ('f, 'b, 'd) hcl =
  hx_parse :: "string \<Rightarrow> string \<Rightarrow> 'f \<times> diag list"
  hx_blocks :: "'f \<Rightarrow> string \<Rightarrow> 'b list \<times> diag list"
  hx_labels :: "'b \<Rightarrow> string list"
  hx_def_range :: "'b \<Rightarrow> source_range"
  hx_strip :: "'b \<Rightarrow> string list \<Rightarrow> 'd \<times> diag list"
  hx_text :: "diag \<Rightarrow> string"
  hx_error :: "diag list \<Rightarrow> string"

text \<open>A driver's decoder: the spec, an error that has diagnostics in it, or an error that has not.\<close>

datatype 'v decoded = Decoded "'v spec_val" | FailedAt "diag list" | Failed string

record decode_request =
  rq_file :: string
  rq_block_type :: string
  rq_block_label :: string
  rq_variables :: "string gomap"
  rq_base_dir :: string
  rq_engine_version :: string
  rq_filename :: string

definition diags_text :: "('f, 'b, 'd) hcl \<Rightarrow> diag list \<Rightarrow> string" where
  "diags_text hx ds = join_with [CHR 0x0A] (map (hx_text hx) ds)"

definition plain_status :: "string \<Rightarrow> status" where
  "plain_status msg = \<lparr>st_code = Unknown, st_message = msg, st_details = []\<rparr>"

fun find_block :: "('f, 'b, 'd) hcl \<Rightarrow> string \<Rightarrow> 'b list \<Rightarrow> 'b option" where
  "find_block hx label [] = None"
| "find_block hx label (b # bs) = (if hx_labels hx b = [label] then Some b else find_block hx label bs)"

text \<open>The failures of a decoder that ran: one with diagnostics, and one it could not place, which
  belongs to the block.\<close>

definition rejected_at :: "(pb_diag list \<Rightarrow> bool) \<Rightarrow> ('f, 'b, 'd) hcl \<Rightarrow> diag list \<Rightarrow> status" where
  "rejected_at marshals hx ds =
     (let dd = in_source_order ds in decode_failure marshals (diags_text hx dd) (map Some dd))"

definition rejected_block :: "(pb_diag list \<Rightarrow> bool) \<Rightarrow> source_range \<Rightarrow> string \<Rightarrow> status" where
  "rejected_block marshals place msg = decode_failure marshals msg
     [Some \<lparr>dg_severity = DiagError, dg_summary = msg, dg_detail = [], dg_subject = Some place, dg_context = None\<rparr>]"

definition server_decode_config ::
  "(pb_diag list \<Rightarrow> bool) \<Rightarrow> ('f, 'b, 'd) hcl \<Rightarrow> (string \<Rightarrow> string + 't) \<Rightarrow> ('t \<Rightarrow> string \<Rightarrow> string + 'c) \<Rightarrow>
   ('v \<Rightarrow> string + string) \<Rightarrow> ('d \<Rightarrow> 'c gomap \<Rightarrow> string \<Rightarrow> string \<Rightarrow> 'v decoded) option \<Rightarrow> decode_request \<Rightarrow> status + string" where
  "server_decode_config marshals hx implied ctydec gob_enc decoder rq =
     (case decoder of
        None \<Rightarrow> Inl \<lparr>st_code = Unimplemented, st_message = ''engine has no config decoder'', st_details = []\<rparr>
      | Some dec \<Rightarrow>
         (let filename = (if rq_filename rq = [] then rq_block_label rq @ ''.doze.hcl'' else rq_filename rq);
              (file, ds1) = hx_parse hx (rq_file rq) filename in
          if has_errors ds1 then Inl (decode_failure marshals (''parsing config: '' @ diags_text hx ds1) (map Some ds1))
          else (let (blocks, ds2) = hx_blocks hx file (rq_block_type rq) in
            if has_errors ds2 then Inl (decode_failure marshals (''reading config blocks: '' @ hx_error hx ds2) (map Some ds2))
            else (case find_block hx (rq_block_label rq) blocks of
                None \<Rightarrow> Inl (plain_status (''block '' @ rq_block_type rq @ '' '' @ [CHR 0x22] @ rq_block_label rq @ [CHR 0x22] @ '' not found in source''))
              | Some block \<Rightarrow>
                 (let (remain, ds3) = hx_strip hx block core_arguments in
                  if has_errors ds3 then Inl (decode_failure marshals (''stripping config: '' @ diags_text hx ds3) (map Some ds3))
                  else (case vars_from_json implied ctydec (rq_variables rq) of
                      Inl e \<Rightarrow> Inl (plain_status (''decoding variables: '' @ e))
                    | Inr vars \<Rightarrow>
                       (case dec remain vars (rq_base_dir rq) (rq_engine_version rq) of
                          Decoded spec \<Rightarrow> (case encode_spec gob_enc spec of
                              Inl e \<Rightarrow> Inl (plain_status (''encoding config: '' @ e))
                            | Inr b \<Rightarrow> Inr b)
                        | FailedAt dd \<Rightarrow> Inl (rejected_at marshals hx dd)
                        | Failed msg \<Rightarrow> Inl (rejected_block marshals (hx_def_range hx block) msg))))))))"

text \<open>The host's side. What it gets it keeps as it is, as a spec of bytes.\<close>

definition decode_remote ::
  "('c \<Rightarrow> string + string) \<Rightarrow> (decode_request \<Rightarrow> status + string) \<Rightarrow> string \<Rightarrow> string \<Rightarrow> string \<Rightarrow> string \<Rightarrow> 'c gomap \<Rightarrow>
   string \<Rightarrow> string \<Rightarrow> decode_error + 'v spec_val" where
  "decode_remote cty_enc client file filename blockType blockLabel vars baseDir version =
     (case vars_to_json cty_enc vars of
        Inl e \<Rightarrow> Inl (OtherError (Plain e))
      | Inr vj \<Rightarrow> (case client \<lparr>rq_file = file, rq_block_type = blockType, rq_block_label = blockLabel, rq_variables = vj,
            rq_base_dir = baseDir, rq_engine_version = version, rq_filename = filename\<rparr> of
          Inl st \<Rightarrow> Inl (decode_error_from st)
        | Inr b \<Rightarrow> Inr (RawSpec b)))"

section \<open>The order\<close>

lemma source_less_strict_weak: "strict_weak source_less A"
  unfolding strict_weak_def source_less_def
  by (auto split: option.splits if_splits)

lemma in_source_order_mset: "mset (in_source_order ds) = mset ds"
  by (simp add: in_source_order_def)

text \<open>Whether two diagnostics are at the same place, as far as the order sees.\<close>

definition same_place :: "diag \<Rightarrow> diag \<Rightarrow> bool" where
  "same_place x y = (\<not> source_less x y \<and> \<not> source_less y x)"

text \<open>Insertion keeps ties in order; the accumulator is reversed.\<close>

lemma insert_rev_stable:
  assumes "\<not> lt x x" "\<And>y. y \<in> set ys \<Longrightarrow> P y \<Longrightarrow> P x \<Longrightarrow> \<not> lt x y"
  shows "filter P (insert_rev lt x ys) = (if P x then x # filter P ys else filter P ys)"
  using assms by (induction ys) auto

lemma insert_fold_stable:
  assumes "\<And>x y. P x \<Longrightarrow> P y \<Longrightarrow> \<not> lt x y" "\<And>x. \<not> lt x x"
  shows "filter P (foldl (\<lambda>acc x. insert_rev lt x acc) acc xs) = rev (filter P xs) @ filter P acc"
proof (induction xs arbitrary: acc)
  case (Cons x xs)
  then show ?case using insert_rev_stable[of lt x acc P] assms by simp
qed simp

lemma sort_slice_stable:
  assumes "\<And>x y. P x \<Longrightarrow> P y \<Longrightarrow> \<not> lt x y" "\<And>x. \<not> lt x x"
  shows "filter P (sort_slice lt xs) = filter P xs"
  using insert_fold_stable[of P lt "[]" xs] assms by (simp add: sort_slice_def rev_filter[symmetric])

lemma same_place_less:
  assumes "same_place d x" "same_place d y"
  shows "\<not> source_less x y"
  using source_less_strict_weak[of UNIV] assms unfolding strict_weak_def same_place_def by blast

lemma in_source_order_sorted: "sorted_wrt (\<lambda>x y. \<not> source_less y x) (in_source_order ds)"
  unfolding in_source_order_def by (rule sort_slice_sorted[OF source_less_strict_weak]) (rule subset_UNIV)

lemma in_source_order_ties: "filter (same_place d) (in_source_order ds) = filter (same_place d) ds"
  unfolding in_source_order_def
proof (rule sort_slice_stable)
  show "\<not> source_less x x" for x by (simp add: source_less_def split: option.split)
qed (rule same_place_less)

section \<open>A decode across the wire\<close>

text \<open>A request gets as far as the driver's decoder: the file parses, the block is there, its body
  can be stripped and the variables read.\<close>

definition reached :: "('f, 'b, 'd) hcl \<Rightarrow> (string \<Rightarrow> string + 't) \<Rightarrow> ('t \<Rightarrow> string \<Rightarrow> string + 'c) \<Rightarrow> decode_request \<Rightarrow>
   'd \<Rightarrow> source_range \<Rightarrow> 'c gomap \<Rightarrow> bool" where
  "reached hx implied ctydec rq remain place vars \<longleftrightarrow> (\<exists>file ds1 blocks ds2 block ds3.
     hx_parse hx (rq_file rq) (if rq_filename rq = [] then rq_block_label rq @ ''.doze.hcl'' else rq_filename rq) = (file, ds1) \<and>
     \<not> has_errors ds1 \<and> hx_blocks hx file (rq_block_type rq) = (blocks, ds2) \<and> \<not> has_errors ds2 \<and>
     find_block hx (rq_block_label rq) blocks = Some block \<and> hx_strip hx block core_arguments = (remain, ds3) \<and>
     \<not> has_errors ds3 \<and> vars_from_json implied ctydec (rq_variables rq) = Inr vars \<and> hx_def_range hx block = place)"

lemma server_decode_reached:
  assumes "reached hx implied ctydec rq remain place vars"
  shows "server_decode_config marshals hx implied ctydec gob_enc (Some dec) rq =
    (case dec remain vars (rq_base_dir rq) (rq_engine_version rq) of
       Decoded spec \<Rightarrow> (case encode_spec gob_enc spec of
           Inl e \<Rightarrow> Inl (plain_status (''encoding config: '' @ e))
         | Inr b \<Rightarrow> Inr b)
     | FailedAt dd \<Rightarrow> Inl (rejected_at marshals hx dd)
     | Failed msg \<Rightarrow> Inl (rejected_block marshals place msg))"
  using assms by (auto simp: reached_def server_decode_config_def Let_def)

text \<open>What is left of a diagnostic across the wire: a severity is a warning or an error.\<close>

definition sent :: "diag \<Rightarrow> diag" where
  "sent d = d\<lparr>dg_severity := (if dg_severity d = DiagWarning then DiagWarning else DiagError)\<rparr>"

lemma range_trip: "range_from_proto (range_to_proto r) = r"
  by (cases r) (simp_all add: range_from_proto_def range_to_proto_def pos_from_proto_def pos_to_proto_def)

lemma diags_trip: "diags_from_proto (diags_to_proto ds) = map sent (map the (filter (\<lambda>d. d \<noteq> None) ds))"
  by (induction ds rule: diags_to_proto.induct) (simp_all add: diags_from_proto_def sent_def range_trip)

lemma diags_to_proto_Nil: "diags_to_proto (map Some ds) = [] \<longleftrightarrow> ds = []"
  by (cases ds) simp_all

lemma decode_failure_arrives:
  assumes "marshals (diags_to_proto (map Some ds))" "ds \<noteq> []"
  shows "decode_error_from (decode_failure marshals msg (map Some ds)) = DecodeError msg (map sent ds)"
proof -
  have "map the (filter (\<lambda>d. d \<noteq> None) (map Some ds)) = ds" by (induction ds) simp_all
  then show ?thesis
    using assms diags_trip[of "map Some ds"]
    by (simp add: decode_failure_def decode_error_from_def Let_def diags_to_proto_Nil)
qed

lemma decode_failure_text: "st_message (decode_failure marshals msg ds) = msg"
  by (simp add: decode_failure_def Let_def)

lemma decode_failure_code: "st_code (decode_failure marshals msg ds) = Unknown"
  by (simp add: decode_failure_def Let_def)

section \<open>Properties\<close>

text \<open>Diagnostics come out in source order. \<open>InSourceOrder\<close> keeps them all, puts them by file and by
  byte with the ones without a place last, and leaves those at one place in the order they were
  in; so where no two share a place, the result does not depend on the map order gohcl reports
  them in.\<close>

theorem source_order_is_stable:
  assumes "mset ds2 = mset ds" "distinct ds" "\<And>x y. x \<in> set ds \<Longrightarrow> y \<in> set ds \<Longrightarrow> same_place x y \<Longrightarrow> x = y"
  shows "in_source_order ds2 = in_source_order ds \<and>
    mset (in_source_order es) = mset es \<and> sorted_wrt (\<lambda>x y. \<not> source_less y x) (in_source_order es) \<and>
    filter (same_place d) (in_source_order es) = filter (same_place d) es"
proof -
  have "in_source_order ds2 = sort_slice source_less ds"
  proof (rule sort_slice_unique[OF source_less_strict_weak[of UNIV]])
    show "mset (in_source_order ds2) = mset ds" using assms(1) by (simp add: in_source_order_mset)
  qed (use assms(2,3) in_source_order_sorted in \<open>auto simp: same_place_def\<close>)
  then have "in_source_order ds2 = in_source_order ds" by (simp add: in_source_order_def)
  then show ?thesis by (simp add: in_source_order_mset in_source_order_sorted in_source_order_ties)
qed

definition example_diag :: "string \<Rightarrow> int \<Rightarrow> diag" where
  "example_diag msg at = \<lparr>dg_severity = DiagError, dg_summary = msg, dg_detail = [],
     dg_subject = Some \<lparr>sr_filename = ''doze.hcl'', sr_start = \<lparr>ps_line = 1, ps_column = 1, ps_byte = at\<rparr>,
       sr_end = \<lparr>ps_line = 1, ps_column = 1, ps_byte = at\<rparr>\<rparr>, dg_context = None\<rparr>"

theorem source_order_is_stable_witness:
  "in_source_order [example_diag ''b'' 7, example_diag ''a'' 3] = in_source_order [example_diag ''a'' 3, example_diag ''b'' 7] \<and>
   map dg_summary (in_source_order [example_diag ''b'' 7, example_diag ''a'' 3]) = [''a'', ''b'']"
proof -
  have "same_place x y \<Longrightarrow> x = y" if "x \<in> set [example_diag ''a'' 3, example_diag ''b'' 7]"
      "y \<in> set [example_diag ''a'' 3, example_diag ''b'' 7]" for x y
    using that by (auto simp: same_place_def source_less_def example_diag_def)
  moreover have "mset [example_diag ''b'' 7, example_diag ''a'' 3] = mset [example_diag ''a'' 3, example_diag ''b'' 7]" by simp
  moreover have "distinct [example_diag ''a'' 3, example_diag ''b'' 7]" by (simp add: example_diag_def)
  ultimately have "in_source_order [example_diag ''b'' 7, example_diag ''a'' 3] = in_source_order [example_diag ''a'' 3, example_diag ''b'' 7]"
    using source_order_is_stable by blast
  moreover have "map dg_summary (in_source_order [example_diag ''b'' 7, example_diag ''a'' 3]) = [''a'', ''b'']"
    by code_simp
  ultimately show ?thesis by blast
qed

text \<open>C34. A rejected block is shown where it is wrong. When the driver's decoder ran and refused the
  block, the host's error carries the text a host of any age shows, every diagnostic on a line
  of its own in source order, and with it those diagnostics with their places; an error the
  driver could not place is at the block's header. The text survives when the message cannot be
  marshalled, and then only the text.\<close>

theorem rejected_block_is_placed:
  assumes "vars_to_json cty_enc vars = Inr vj" "reached hx implied ctydec rq remain place vars'"
    and rq: "rq = \<lparr>rq_file = file, rq_block_type = ty, rq_block_label = label, rq_variables = vj,
        rq_base_dir = base, rq_engine_version = version, rq_filename = filename\<rparr>"
    and "dec remain vars' base version = r"
    and "r = FailedAt ds \<and> ds \<noteq> [] \<and> said = diags_text hx (in_source_order ds) \<and> shown = in_source_order ds \<or>
         r = Failed msg \<and> said = msg \<and> shown = [\<lparr>dg_severity = DiagError, dg_summary = msg, dg_detail = [],
            dg_subject = Some place, dg_context = None\<rparr>]"
    and "said \<noteq> []"
  shows "decode_remote cty_enc (server_decode_config marshals hx implied ctydec gob_enc (Some dec)) file filename ty label vars base version =
      Inl (if marshals (diags_to_proto (map Some shown)) then DecodeError said (map sent shown) else OtherError (Plain said)) \<and>
    (\<exists>st. server_decode_config marshals hx implied ctydec gob_enc (Some dec) rq = Inl st \<and> old_host_error st = Plain said)"
proof -
  have ne: "shown \<noteq> []"
    using assms(5) in_source_order_mset[of ds] by auto
  have st: "server_decode_config marshals hx implied ctydec gob_enc (Some dec) rq = Inl (decode_failure marshals said (map Some shown))"
    using assms(5) server_decode_reached[OF assms(2), of marshals gob_enc dec] assms(4) rq
    by (auto simp: rejected_at_def rejected_block_def Let_def)
  have old: "old_host_error (decode_failure marshals said (map Some shown)) = Plain said"
    using assms(6) by (simp add: old_host_error_def decode_failure_text decode_failure_code user_error_def)
  have "decode_error_from (decode_failure marshals said (map Some shown)) =
      (if marshals (diags_to_proto (map Some shown)) then DecodeError said (map sent shown) else OtherError (Plain said))"
  proof (cases "marshals (diags_to_proto (map Some shown))")
    case False
    then show ?thesis using assms(6)
      by (simp add: decode_failure_def decode_error_from_def Let_def user_error_def)
  qed (simp add: decode_failure_arrives ne)
  then show ?thesis using st old assms(1) rq by (simp add: decode_remote_def)
qed

text \<open>A config format for the examples: a file is its own body, with one block of any type; a block
  labelled with its first letter is refused by its driver when the letter is x.\<close>

definition example_gob :: "nat \<Rightarrow> string + string" where
  "example_gob n = Inr (replicate (Suc n) CHR ''x'')"

definition example_gob_read :: "string \<Rightarrow> string + nat" where
  "example_gob_read b = Inr (length b - 1)"

definition example_value :: "string \<Rightarrow> string \<Rightarrow> string + nat" where
  "example_value t b = Inr (length b)"

definition example_json :: "nat \<Rightarrow> string + string" where
  "example_json v = Inr []"

definition example_hcl :: "(string, string, string) hcl" where
  "example_hcl = \<lparr>hx_parse = (\<lambda>file name. (file, [])), hx_blocks = (\<lambda>file ty. ([file], [])), hx_labels = (\<lambda>b. [take 1 b]),
     hx_def_range = (\<lambda>b. \<lparr>sr_filename = ''doze.hcl'', sr_start = \<lparr>ps_line = 1, ps_column = 1, ps_byte = 0\<rparr>,
       sr_end = \<lparr>ps_line = 1, ps_column = 1, ps_byte = 0\<rparr>\<rparr>),
     hx_strip = (\<lambda>b names. (b, [])), hx_text = dg_summary, hx_error = (\<lambda>ds. [])\<rparr>"

definition example_decoder :: "string \<Rightarrow> nat gomap \<Rightarrow> string \<Rightarrow> string \<Rightarrow> nat decoded" where
  "example_decoder body vars base version =
     (if hd body = CHR ''x'' then FailedAt [example_diag ''b'' 7, example_diag ''a'' 3] else Decoded (SpecValue (length body)))"

definition example_request :: "string \<Rightarrow> decode_request" where
  "example_request file = \<lparr>rq_file = file, rq_block_type = ''q'', rq_block_label = take 1 file, rq_variables = [],
     rq_base_dir = ''/'', rq_engine_version = ''1'', rq_filename = ''doze.hcl''\<rparr>"

lemma example_reached:
  "reached example_hcl Inr example_value (example_request file) file (hx_def_range example_hcl file) []"
  by (simp add: reached_def example_hcl_def example_request_def has_errors_def)

theorem rejected_block_is_placed_witness:
  "decode_remote example_json (server_decode_config (\<lambda>_. True) example_hcl Inr example_value example_gob (Some example_decoder))
     ''xy'' ''doze.hcl'' ''q'' ''x'' [] ''/'' ''1'' =
     Inl (DecodeError (''a'' @ [CHR 0x0A] @ ''b'') [example_diag ''a'' 3, example_diag ''b'' 7])"
proof -
  have r: "reached example_hcl Inr example_value (example_request ''xy'') ''xy'' (hx_def_range example_hcl ''xy'') []"
    by (rule example_reached)
  have q: "example_request ''xy'' = \<lparr>rq_file = ''xy'', rq_block_type = ''q'', rq_block_label = ''x'', rq_variables = [],
      rq_base_dir = ''/'', rq_engine_version = ''1'', rq_filename = ''doze.hcl''\<rparr>"
    by (simp add: example_request_def)
  let ?ds = "[example_diag ''b'' 7, example_diag ''a'' 3]"
  have d: "example_decoder ''xy'' [] ''/'' ''1'' = FailedAt ?ds" by (simp add: example_decoder_def)
  have o: "in_source_order ?ds = [example_diag ''a'' 3, example_diag ''b'' 7]" by code_simp
  have t: "diags_text example_hcl (in_source_order ?ds) = ''a'' @ [CHR 0x0A] @ ''b''"
    unfolding o by (simp add: diags_text_def example_hcl_def example_diag_def)
  have v: "vars_to_json example_json [] = Inr []" by simp
  have s: "sent (example_diag m k) = example_diag m k" for m k by (simp add: sent_def example_diag_def)
  show ?thesis
    by (rule trans[OF conjunct1[OF rejected_block_is_placed[where dec = example_decoder and ds = ?ds and said = "diags_text example_hcl (in_source_order ?ds)"
        and shown = "in_source_order ?ds" and marshals = "\<lambda>_. True" and gob_enc = example_gob, OF v r q d]]])
      (simp_all add: t[unfolded o] o s)
qed

text \<open>A decoded block comes back. When the driver's decoder accepts a block, the host gets the spec
  as bytes, and on every later call an instance that carries them arrives at the module with the
  spec its decoder made, everything else as the host has it.\<close>

theorem decoded_block_comes_back:
  assumes codec: "\<And>v b. gob_enc v = Inr b \<Longrightarrow> b \<noteq> [] \<and> gob_dec b = Inr v"
    and "vars_to_json cty_enc vars = Inr vj" "reached hx implied ctydec rq remain place vars'"
    and "rq = \<lparr>rq_file = file, rq_block_type = ty, rq_block_label = label, rq_variables = vj,
        rq_base_dir = base, rq_engine_version = version, rq_filename = filename\<rparr>"
    and "dec remain vars' base version = Decoded spec" "encode_spec gob_enc spec = Inr b"
    and "int32_ok (in_port inst)"
  shows "decode_remote cty_enc (server_decode_config marshals hx implied ctydec gob_enc (Some dec)) file filename ty label vars base version =
      Inr (RawSpec b) \<and>
    crosses gob_enc gob_dec (inst\<lparr>in_spec := RawSpec b\<rparr>) (inst\<lparr>in_spec := spec\<rparr>)"
proof -
  have "opened_spec gob_dec (RawSpec b) = Inr spec"
    using assms(6) codec by (auto simp: opened_spec_def decode_spec_def encode_spec_def split: spec_val.splits)
  then have "crosses gob_enc gob_dec (inst\<lparr>in_spec := RawSpec b\<rparr>) (inst\<lparr>in_spec := RawSpec b\<rparr>\<lparr>in_spec := spec\<rparr>)"
    using assms(7) by (intro crossesI codec) (simp_all add: instance_spec_def)
  moreover have "decode_remote cty_enc (server_decode_config marshals hx implied ctydec gob_enc (Some dec)) file filename ty label vars base version =
      Inr (RawSpec b)"
    using server_decode_reached[OF assms(3), of marshals gob_enc dec] assms(2,4,5,6) by (simp add: decode_remote_def)
  ultimately show ?thesis by simp
qed

theorem decoded_block_comes_back_witness:
  "decode_remote example_json (server_decode_config (\<lambda>_. True) example_hcl Inr example_value example_gob (Some example_decoder))
     ''yz'' ''doze.hcl'' ''q'' ''y'' [] ''/'' ''1'' = Inr (RawSpec ''xxx'')"
proof -
  have c: "example_gob v = Inr b \<Longrightarrow> b \<noteq> [] \<and> example_gob_read b = Inr v" for v b
    by (auto simp: example_gob_def example_gob_read_def)
  have r: "reached example_hcl Inr example_value (example_request ''yz'') ''yz'' (hx_def_range example_hcl ''yz'') []"
    by (rule example_reached)
  have q: "example_request ''yz'' = \<lparr>rq_file = ''yz'', rq_block_type = ''q'', rq_block_label = ''y'', rq_variables = [],
      rq_base_dir = ''/'', rq_engine_version = ''1'', rq_filename = ''doze.hcl''\<rparr>"
    by (simp add: example_request_def)
  have d: "example_decoder ''yz'' [] ''/'' ''1'' = Decoded (SpecValue 2)" by (simp add: example_decoder_def)
  have e: "encode_spec example_gob (SpecValue 2) = Inr ''xxx''" by (simp add: encode_spec_def example_gob_def numeral_eq_Suc)
  have v: "vars_to_json example_json [] = Inr []" by simp
  have i: "int32_ok (in_port (zero_instance :: nat inst))" by (simp add: zero_instance_def int32_ok_def)
  show ?thesis by (rule conjunct1[OF decoded_block_comes_back[where dec = example_decoder, OF c v r q d e i]])
qed

end
