(* ===== verification/Steps.thy ===== *)
theory Steps
  imports Prelude
begin

text \<open>
  What the state machines of the model share: an invariant that holds at the start and that every
  step keeps holds in every reachable state, and with a rank that every step lowers a run is no
  longer than the rank it starts with. Each machine is an instance of these contracts.
\<close>

locale invariant_machine =
  fixes step :: "'s \<Rightarrow> 's \<Rightarrow> bool" and start :: 's and inv :: "'s \<Rightarrow> bool"
  assumes inv_start: "inv start"
    and inv_step: "step s s' \<Longrightarrow> inv s \<Longrightarrow> inv s'"
begin

lemma inv_reachable: "step\<^sup>*\<^sup>* start s \<Longrightarrow> inv s"
  by (induction rule: rtranclp_induct) (auto intro: inv_start inv_step)

lemma inv_run: "(step ^^ n) start s \<Longrightarrow> inv s"
  by (rule inv_reachable) (rule relpowp_imp_rtranclp)

end

locale ranked_machine = invariant_machine +
  fixes rank :: "'s \<Rightarrow> nat"
  assumes rank_step: "step s s' \<Longrightarrow> inv s \<Longrightarrow> rank s' < rank s"
begin

lemma rank_run: "(step ^^ n) start s \<Longrightarrow> rank s + n \<le> rank start"
proof (induction n arbitrary: s)
  case (Suc n)
  then obtain t where t: "(step ^^ n) start t" "step t s" by auto
  from Suc.IH[OF t(1)] rank_step[OF t(2) inv_run[OF t(1)]] show ?case by simp
qed simp

lemma run_bound: "(step ^^ n) start s \<Longrightarrow> n \<le> rank start"
  using rank_run by fastforce

end

end
