(* ===== verification/Wire.thy ===== *)
theory Wire
  imports Driver Steps
begin

unbundle bit_operations_syntax

text \<open>
  Handing a client connection to a module that speaks its own wire protocol: \<open>Handoff\<close> of
  \<open>plugin/wire.go\<close>, the host's side, and \<open>wireServer.handle\<close> of \<open>plugin/wireserver.go\<close>, the module's.
  The two run at once and talk in lines over a unix socket; each side's code is a set of steps of
  one relation, with the bytes under way part of the state. What the module's filter, its
  backend and the host's boot decide is left open. The cancel registry of the module and the
  header that goes with the descriptor are here too; passing the descriptor itself is
  in \<open>Descriptor\<close>, the splice in \<open>Splice\<close>.
\<close>

section \<open>Messages\<close>

definition nl :: char where "nl = CHR 0x0A"

definition msg_boot :: string where "msg_boot = ''boot''"
definition msg_handled :: string where "msg_handled = ''handled''"
definition msg_splice :: string where "msg_splice = ''splice''"

definition one_line :: "string \<Rightarrow> string" where
  "one_line s = map (\<lambda>c. if c = nl then CHR '' '' else c) s"

definition msg_error :: "string \<Rightarrow> string" where "msg_error e = ''error '' @ one_line e"
definition msg_bootfail :: "string \<Rightarrow> string" where "msg_bootfail e = ''bootfail '' @ one_line e"
definition msg_backend :: "string \<Rightarrow> string" where "msg_backend b = ''backend '' @ b"

text \<open>\<open>ReadString\<close>: the bytes up to and with the first newline, or the end of the stream.\<close>

definition read_string :: "string \<Rightarrow> (string \<times> string) option" where
  "read_string buf = (if nl \<in> set buf
     then Some (takeWhile (\<lambda>c. c \<noteq> nl) buf @ [nl], tl (dropWhile (\<lambda>c. c \<noteq> nl) buf)) else None)"

text \<open>What the host makes of a line, and the module of the host's answer.\<close>

datatype host_event = EvHandled | EvBoot | EvSplice | EvError string | EvUnexpected string

definition host_event :: "string \<Rightarrow> host_event" where
  "host_event raw =
     (let line = trim_space raw in
      if line = msg_handled then EvHandled
      else if line = msg_boot then EvBoot
      else if line = msg_splice then EvSplice
      else if has_prefix line ''error '' then EvError (trim_prefix line ''error '')
      else EvUnexpected line)"

definition backend_socket :: "string \<Rightarrow> string option" where
  "backend_socket raw = cut_prefix (trim_space raw) ''backend ''"

section \<open>Before the loop\<close>

datatype handoff_result =
    NoWireProxy | DialFailed string | SendFailed string
  | Finished | BootFailed string | WireFailed string | UnexpectedMessage string | ReadFailed string

definition handoff_begin ::
  "bool \<Rightarrow> string \<Rightarrow> bool \<Rightarrow> string option \<Rightarrow> string option \<Rightarrow> handoff_result option" where
  "handoff_begin filters addr passable dial send =
     (if \<not> filters then Some NoWireProxy
      else if addr = [] then Some NoWireProxy
      else if \<not> passable then Some NoWireProxy
      else (case dial of
          Some e \<Rightarrow> Some (DialFailed e)
        | None \<Rightarrow> (case send of Some e \<Rightarrow> Some (SendFailed e) | None \<Rightarrow> None)))"

text \<open>\<open>wireAddr\<close> asks once; an error leaves the address empty for good. The module's answer is the path
  of its server, if it has one.\<close>

definition server_wire_addr :: "string option \<Rightarrow> string" where
  "server_wire_addr wire = (case wire of None \<Rightarrow> [] | Some path \<Rightarrow> path)"

definition wire_addr :: "(go_error + string) \<Rightarrow> string option \<Rightarrow> string \<times> string option" where
  "wire_addr answer once = (case once of
     Some sock \<Rightarrow> (sock, Some sock)
   | None \<Rightarrow> (let sock = (case answer of Inl e \<Rightarrow> [] | Inr path \<Rightarrow> path) in (sock, Some sock)))"

section \<open>The two sides\<close>

datatype host_phase = HReading | HSplicing | HDone handoff_result

text \<open>Where \<open>handle\<close> is: before the descriptor and the preamble, waiting for a backend, with its socket to dial, before
  the handshake, splicing, or returned, with the reason; \<open>Crashed\<close> is a module that died on the way.\<close>

datatype gone = NotReceived | PreambleFailed | ServedAlone | NoBackend | BackendLost | NotReady | Spliced | Crashed

datatype mod_phase = MPreamble | MAwaiting | MDialing string | MHandshake | MSplicing | MGone gone

record wire_state =
  ws_host :: host_phase
  ws_mod :: mod_phase
  ws_to_host :: string
  ws_to_mod :: string
  ws_boots :: nat
  ws_backend :: "string option"
  ws_acquired :: nat
  ws_released :: nat

definition wire_start :: wire_state where
  "wire_start = \<lparr>ws_host = HReading, ws_mod = MPreamble, ws_to_host = [], ws_to_mod = [],
     ws_boots = 0, ws_backend = None, ws_acquired = 0, ws_released = 0\<rparr>"

text \<open>What the filter's \<open>Preamble\<close> comes to: an error, a connection it has settled itself, or a client to splice and
  bytes to replay. It decides the line for the host and where \<open>handle\<close> goes on; what \<open>Handshake\<close> returns decides
  whether there is a splice.\<close>

record 'conn preamble_result =
  pm_client :: 'conn
  pm_replay :: string
  pm_handled :: bool

record ('conn, 'opts) proxy_filter =
  pf_preamble :: "'conn \<Rightarrow> 'opts \<Rightarrow> string + 'conn preamble_result"
  pf_handshake :: "'conn \<Rightarrow> string \<Rightarrow> bool \<times> string option"

definition after_preamble :: "string + 'conn preamble_result \<Rightarrow> string \<times> mod_phase" where
  "after_preamble r = (case r of
     Inl e \<Rightarrow> (msg_error e, MGone PreambleFailed)
   | Inr res \<Rightarrow> if pm_handled res then (msg_handled, MGone ServedAlone) else (msg_boot, MAwaiting))"

definition may_splice :: "bool \<times> string option \<Rightarrow> bool" where
  "may_splice r = (case r of (ready, err) \<Rightarrow> \<not> (err \<noteq> None \<or> \<not> ready))"

text \<open>A line for the host; once the host has closed its end nothing arrives.\<close>

definition tell_host :: "string \<Rightarrow> wire_state \<Rightarrow> wire_state" where
  "tell_host line s = (case ws_host s of HDone r \<Rightarrow> s | _ \<Rightarrow> s\<lparr>ws_to_host := ws_to_host s @ line @ [nl]\<rparr>)"

definition tell_mod :: "string \<Rightarrow> wire_state \<Rightarrow> wire_state" where
  "tell_mod line s = (case ws_mod s of MGone g \<Rightarrow> s | _ \<Rightarrow> s\<lparr>ws_to_mod := ws_to_mod s @ line @ [nl]\<rparr>)"

text \<open>The steps of \<open>handle\<close>, then those of \<open>Handoff\<close>. The module may die at any point; what it wrote is still
  read. A connection it leaves with the host's answer unread may be reset instead of closed.\<close>

inductive wire_step :: "wire_state \<Rightarrow> wire_state \<Rightarrow> bool" where
  not_received: "ws_mod s = MPreamble \<Longrightarrow> wire_step s (s\<lparr>ws_mod := MGone NotReceived\<rparr>)"
| preamble_done: "ws_mod s = MPreamble \<Longrightarrow>
    wire_step s ((tell_host (fst (after_preamble (pf_preamble (pf :: (unit, unit) proxy_filter) () ()))) s)
      \<lparr>ws_mod := snd (after_preamble (pf_preamble pf () ()))\<rparr>)"
| backend_named: "ws_mod s = MAwaiting \<Longrightarrow> read_string (ws_to_mod s) = Some (line, rest) \<Longrightarrow>
    backend_socket line = Some socket \<Longrightarrow> wire_step s (s\<lparr>ws_mod := MDialing socket, ws_to_mod := rest\<rparr>)"
| backend_refused: "ws_mod s = MAwaiting \<Longrightarrow> read_string (ws_to_mod s) = Some (line, rest) \<Longrightarrow>
    backend_socket line = None \<Longrightarrow> wire_step s (s\<lparr>ws_mod := MGone NoBackend, ws_to_mod := rest\<rparr>)"
| host_hung_up: "ws_mod s = MAwaiting \<Longrightarrow> read_string (ws_to_mod s) = None \<Longrightarrow> ws_host s = HDone r \<Longrightarrow>
    wire_step s (s\<lparr>ws_mod := MGone NoBackend\<rparr>)"
| backend_lost: "ws_mod s = MDialing socket \<Longrightarrow> wire_step s (s\<lparr>ws_mod := MGone BackendLost\<rparr>)"
| backend_dialed: "ws_mod s = MDialing socket \<Longrightarrow> wire_step s (s\<lparr>ws_mod := MHandshake\<rparr>)"
| handshake_failed: "ws_mod s = MHandshake \<Longrightarrow> \<not> may_splice (pf_handshake (pf :: (unit, unit) proxy_filter) () socket) \<Longrightarrow>
    wire_step s (s\<lparr>ws_mod := MGone NotReady\<rparr>)"
| handshake_ready: "ws_mod s = MHandshake \<Longrightarrow> may_splice (pf_handshake (pf :: (unit, unit) proxy_filter) () socket) \<Longrightarrow>
    wire_step s ((tell_host msg_splice s)\<lparr>ws_mod := MSplicing\<rparr>)"
| splice_ended: "ws_mod s = MSplicing \<Longrightarrow> wire_step s (s\<lparr>ws_mod := MGone Spliced\<rparr>)"
| module_died: "\<forall>g. ws_mod s \<noteq> MGone g \<Longrightarrow> wire_step s (s\<lparr>ws_mod := MGone Crashed\<rparr>)"
| host_handled: "ws_host s = HReading \<Longrightarrow> read_string (ws_to_host s) = Some (line, rest) \<Longrightarrow> host_event line = EvHandled \<Longrightarrow>
    wire_step s (s\<lparr>ws_host := HDone Finished, ws_to_host := rest\<rparr>)"
| host_boots: "ws_host s = HReading \<Longrightarrow> read_string (ws_to_host s) = Some (line, rest) \<Longrightarrow> host_event line = EvBoot \<Longrightarrow>
    wire_step s ((tell_mod (msg_backend b) s)\<lparr>ws_to_host := rest, ws_boots := ws_boots s + 1, ws_backend := Some b\<rparr>)"
| host_boot_failed: "ws_host s = HReading \<Longrightarrow> read_string (ws_to_host s) = Some (line, rest) \<Longrightarrow> host_event line = EvBoot \<Longrightarrow>
    wire_step s ((tell_mod (msg_bootfail e) s)\<lparr>ws_to_host := rest, ws_boots := ws_boots s + 1,
      ws_host := HDone (BootFailed e)\<rparr>)"
| host_splices: "ws_host s = HReading \<Longrightarrow> read_string (ws_to_host s) = Some (line, rest) \<Longrightarrow> host_event line = EvSplice \<Longrightarrow>
    wire_step s (s\<lparr>ws_host := HSplicing, ws_to_host := rest, ws_acquired := ws_acquired s + 1\<rparr>)"
| host_error: "ws_host s = HReading \<Longrightarrow> read_string (ws_to_host s) = Some (line, rest) \<Longrightarrow> host_event line = EvError m \<Longrightarrow>
    wire_step s (s\<lparr>ws_host := HDone (WireFailed m), ws_to_host := rest\<rparr>)"
| host_unexpected: "ws_host s = HReading \<Longrightarrow> read_string (ws_to_host s) = Some (line, rest) \<Longrightarrow> host_event line = EvUnexpected m \<Longrightarrow>
    wire_step s (s\<lparr>ws_host := HDone (UnexpectedMessage m), ws_to_host := rest\<rparr>)"
| host_eof: "ws_host s = HReading \<Longrightarrow> read_string (ws_to_host s) = None \<Longrightarrow> ws_mod s = MGone g \<Longrightarrow>
    wire_step s (s\<lparr>ws_host := HDone Finished\<rparr>)"
| host_reset: "ws_host s = HReading \<Longrightarrow> read_string (ws_to_host s) = None \<Longrightarrow> ws_mod s = MGone g \<Longrightarrow> ws_to_mod s \<noteq> [] \<Longrightarrow>
    wire_step s (s\<lparr>ws_host := HDone (ReadFailed e)\<rparr>)"
| host_released: "ws_host s = HSplicing \<Longrightarrow> ws_mod s = MGone g \<Longrightarrow>
    wire_step s (s\<lparr>ws_host := HDone Finished, ws_released := ws_released s + 1\<rparr>)"

inductive_cases wire_stepE: "wire_step s s'"

definition wire_reachable :: "wire_state \<Rightarrow> bool" where
  "wire_reachable s = wire_step\<^sup>*\<^sup>* wire_start s"

section \<open>The header\<close>

text \<open>What goes with the descriptor. \<open>encoding/json\<close> is a pair of parameters; the module reads at most
  \<open>maxWireHeader\<close> bytes and ignores a decoding error, which leaves the header at its zero value (the
  decoder checks the whole text before it stores anything).\<close>

record wire_header =
  wh_require_tls :: bool
  wh_local_unix :: bool
  wh_tls_cert :: string
  wh_tls_key :: string

definition zero_header :: wire_header where
  "zero_header = \<lparr>wh_require_tls = False, wh_local_unix = False, wh_tls_cert = [], wh_tls_key = []\<rparr>"

definition max_wire_header :: nat where "max_wire_header = 2 ^ 16"

record 'tls proxy_opts =
  po_tls :: "'tls option"
  po_require_tls :: bool
  po_local_unix :: bool

definition build_server_tls :: "(string \<Rightarrow> 'key option) \<Rightarrow> string \<Rightarrow> string \<Rightarrow> (string \<times> 'key) option" where
  "build_server_tls parse_key cert key = (case parse_key key of None \<Rightarrow> None | Some k \<Rightarrow> Some (cert, k))"

definition handle_opts ::
  "(string \<Rightarrow> wire_header option) \<Rightarrow> (string \<Rightarrow> 'key option) \<Rightarrow> string \<Rightarrow> (string \<times> 'key) proxy_opts" where
  "handle_opts unmarshal parse_key sent =
     (let hdr = (case unmarshal (take max_wire_header sent) of None \<Rightarrow> zero_header | Some h \<Rightarrow> h)
      in \<lparr>po_tls = (if wh_tls_cert hdr \<noteq> [] then build_server_tls parse_key (wh_tls_cert hdr) (wh_tls_key hdr) else None),
          po_require_tls = wh_require_tls hdr, po_local_unix = wh_local_unix hdr\<rparr>)"

section \<open>The cancel registry\<close>

text \<open>Synthetic keys to backend targets, a Go map under a lock. \<open>Register\<close> draws eight random bytes
  until the key is good; \<open>draw n\<close> is the \<open>n\<close>-th read of the random source.\<close>

record cancel_target =
  ct_backend_socket :: string
  ct_key :: string

type_synonym cancel_registry = "string \<rightharpoonup> cancel_target"

definition new_cancel_registry :: cancel_registry where "new_cancel_registry = Map.empty"

definition weak_key :: "string \<Rightarrow> bool" where
  "weak_key key = ((of_char (key ! 0) :: 8 word) OR of_char (key ! 1) OR of_char (key ! 2) OR of_char (key ! 3) = 0)"

partial_function (option) fresh_key ::
  "(nat \<Rightarrow> string) \<Rightarrow> cancel_registry \<Rightarrow> nat \<Rightarrow> (string \<times> nat) option" where
  "fresh_key draw m n =
     (let key = draw n in
      if weak_key key then fresh_key draw m (n + 1)
      else if m key = None then Some (key, n + 1)
      else fresh_key draw m (n + 1))"

definition register_cancel ::
  "(nat \<Rightarrow> string) \<Rightarrow> cancel_registry \<Rightarrow> nat \<Rightarrow> cancel_target \<Rightarrow> (string \<times> cancel_registry \<times> nat) option" where
  "register_cancel draw m n t = (case fresh_key draw m n of
     None \<Rightarrow> None | Some (key, n') \<Rightarrow> Some (key, m(key \<mapsto> t), n'))"

definition unregister_cancel :: "cancel_registry \<Rightarrow> string \<Rightarrow> cancel_registry" where
  "unregister_cancel m key = m(key := None)"

definition lookup_cancel :: "cancel_registry \<Rightarrow> string \<Rightarrow> cancel_target option" where
  "lookup_cancel m key = m key"

section \<open>Lines are lines\<close>

lemma one_line_no_nl [simp]: "nl \<notin> set (one_line e)"
  by (auto simp: one_line_def nl_def split: if_splits)

lemma msgs_no_nl [simp]: "nl \<notin> set msg_boot" "nl \<notin> set msg_handled" "nl \<notin> set msg_splice"
  "nl \<notin> set (msg_error e)" "nl \<notin> set (msg_bootfail e)"
  using one_line_no_nl[of e]
  by (auto simp: msg_boot_def msg_handled_def msg_splice_def msg_error_def msg_bootfail_def)
    (simp_all add: nl_def)

lemma read_string_Nil [simp]: "read_string [] = None"
  by (simp add: read_string_def)

lemma read_string_line: "nl \<notin> set l \<Longrightarrow> read_string (l @ [nl]) = Some (l @ [nl], [])"
  by (auto simp: read_string_def takeWhile_append dropWhile_append dropWhile_eq_Nil_conv takeWhile_eq_all_conv)

lemma read_string_backend: "read_string (msg_backend b @ [nl]) \<noteq> None"
  by (simp add: read_string_def)

text \<open>Each of the fixed lines is read back whole.\<close>

lemmas read_msgs [simp] = read_string_line[OF msgs_no_nl(1)] read_string_line[OF msgs_no_nl(2)]
  read_string_line[OF msgs_no_nl(3)] read_string_line[OF msgs_no_nl(4)] read_string_line[OF msgs_no_nl(5)]

lemma trim_space_hd: "\<not> is_space c \<Longrightarrow> \<exists>ys. trim_space (c # xs) = c # ys"
proof -
  assume c: "\<not> is_space c"
  have "dropWhile is_space (rev xs @ [c]) = dropWhile is_space (rev xs) @ [c]"
    using c by (induction "rev xs" arbitrary: xs rule: list.induct) (auto simp: dropWhile_append)
  then show ?thesis using c by (simp add: trim_space_def)
qed

lemma events [simp]:
  "host_event (msg_boot @ [nl]) = EvBoot"
  "host_event (msg_handled @ [nl]) = EvHandled"
  "host_event (msg_splice @ [nl]) = EvSplice"
  by code_simp+

lemma event_error [simp]:
  "host_event (msg_error e @ [nl]) \<noteq> EvBoot"
  "host_event (msg_error e @ [nl]) \<noteq> EvHandled"
  "host_event (msg_error e @ [nl]) \<noteq> EvSplice"
proof -
  have "\<not> is_space (CHR ''e'')" by code_simp
  from trim_space_hd[OF this] obtain ys where "trim_space (msg_error e @ [nl]) = CHR ''e'' # ys"
    unfolding msg_error_def by fastforce
  then show "host_event (msg_error e @ [nl]) \<noteq> EvBoot" "host_event (msg_error e @ [nl]) \<noteq> EvHandled"
    "host_event (msg_error e @ [nl]) \<noteq> EvSplice"
    by (auto simp: host_event_def Let_def msg_boot_def msg_handled_def msg_splice_def)
qed

lemma bootfail_no_socket [simp]: "backend_socket (msg_bootfail e @ [nl]) = None"
proof -
  have b: "\<not> is_space (CHR ''b'')" "\<not> is_space (CHR ''o'')" by code_simp+
  define t where "t = ''otfail '' @ one_line e @ [nl]"
  have t: "msg_bootfail e @ [nl] = CHR ''b'' # CHR ''o'' # t" by (simp add: msg_bootfail_def t_def)
  have "dropWhile is_space (rev t @ [CHR ''o'', CHR ''b'']) = dropWhile is_space (rev t) @ [CHR ''o'', CHR ''b'']"
    using b by (induction "rev t" arbitrary: t rule: list.induct) (auto simp: dropWhile_append)
  then have "trim_space (msg_bootfail e @ [nl]) = CHR ''b'' # CHR ''o'' # rev (dropWhile is_space (rev t))"
    using b by (simp add: trim_space_def t)
  then show ?thesis by (simp add: backend_socket_def cut_prefix_def has_prefix_def)
qed

lemma bootfail_line: "msg_bootfail e @ [nl] = l \<Longrightarrow> backend_socket l = None"
  by (drule sym) simp

section \<open>What is under way in each phase\<close>

definition unbooted :: "wire_state \<Rightarrow> bool" where
  "unbooted s = (ws_boots s = 0 \<and> ws_backend s = None \<and> ws_acquired s = 0 \<and> ws_released s = 0)"

definition booted :: "wire_state \<Rightarrow> bool" where
  "booted s = (ws_boots s = 1 \<and> ws_backend s \<noteq> None \<and> ws_acquired s = 0 \<and> ws_released s = 0)"

definition idle_host :: "wire_state \<Rightarrow> bool" where
  "idle_host s = (ws_host s = HReading \<and> ws_to_host s = []
     \<or> ws_host s = HDone Finished \<or> (\<exists>e. ws_host s = HDone (ReadFailed e)))"

text \<open>What the module's line asked for: the socket is read off the host's answer.\<close>

definition answered_with :: "wire_state \<Rightarrow> string \<Rightarrow> bool" where
  "answered_with s socket = (\<exists>b line rest. ws_backend s = Some b
     \<and> read_string (msg_backend b @ [nl]) = Some (line, rest) \<and> backend_socket line = Some socket)"

definition splice_phase :: "wire_state \<Rightarrow> bool" where
  "splice_phase s = (ws_boots s = 1 \<and> ws_backend s \<noteq> None \<and> ws_released s = 0
     \<and> (ws_host s = HReading \<and> ws_to_host s = msg_splice @ [nl] \<and> ws_acquired s = 0
       \<or> ws_host s = HSplicing \<and> ws_acquired s = 1))"

fun gone_inv :: "gone \<Rightarrow> wire_state \<Rightarrow> bool" where
  "gone_inv NotReceived s = (unbooted s \<and> idle_host s)"
| "gone_inv PreambleFailed s = (unbooted s
     \<and> (ws_host s = HReading \<and> (\<exists>e. ws_to_host s = msg_error e @ [nl])
       \<or> (\<exists>m. ws_host s = HDone (WireFailed m)) \<or> (\<exists>m. ws_host s = HDone (UnexpectedMessage m))))"
| "gone_inv ServedAlone s = (unbooted s
     \<and> (ws_host s = HReading \<and> ws_to_host s = msg_handled @ [nl] \<or> ws_host s = HDone Finished))"
| "gone_inv NoBackend s = (ws_boots s = 1 \<and> ws_acquired s = 0 \<and> ws_released s = 0
     \<and> (idle_host s \<and> ws_backend s \<noteq> None \<or> (\<exists>e. ws_host s = HDone (BootFailed e)) \<and> ws_backend s = None))"
| "gone_inv BackendLost s = (booted s \<and> idle_host s)"
| "gone_inv NotReady s = (booted s \<and> idle_host s)"
| "gone_inv Spliced s = (splice_phase s \<or> ws_boots s = 1 \<and> ws_backend s \<noteq> None
     \<and> ws_host s = HDone Finished \<and> ws_acquired s = 1 \<and> ws_released s = 1)"
| "gone_inv Crashed s = (
     ws_released s = 0 \<and> ws_acquired s = 0 \<and> ws_host s = HReading \<and> ws_to_host s = [] \<and> ws_boots s \<le> 1
     \<or> unbooted s \<and> ws_host s = HReading \<and> ws_to_host s = msg_boot @ [nl]
     \<or> splice_phase s
     \<or> (\<exists>r. ws_host s = HDone r) \<and> ws_boots s \<le> 1 \<and> ws_acquired s = ws_released s \<and> ws_acquired s \<le> 1
        \<and> (ws_acquired s = 1 \<longrightarrow> ws_backend s \<noteq> None))"

definition awaiting_inv :: "wire_state \<Rightarrow> bool" where
  "awaiting_inv s = (ws_acquired s = 0 \<and> ws_released s = 0 \<and>
     (ws_host s = HReading \<and> ws_to_host s = msg_boot @ [nl] \<and> ws_to_mod s = [] \<and> ws_boots s = 0 \<and> ws_backend s = None
      \<or> (\<exists>b. ws_host s = HReading \<and> ws_to_host s = [] \<and> ws_to_mod s = msg_backend b @ [nl] \<and> ws_boots s = 1 \<and> ws_backend s = Some b)
      \<or> (\<exists>e. ws_host s = HDone (BootFailed e) \<and> ws_to_mod s = msg_bootfail e @ [nl] \<and> ws_boots s = 1 \<and> ws_backend s = None)))"

definition wire_inv :: "wire_state \<Rightarrow> bool" where
  "wire_inv s = (case ws_mod s of
     MPreamble \<Rightarrow> s = wire_start
   | MAwaiting \<Rightarrow> awaiting_inv s
   | MDialing socket \<Rightarrow> booted s \<and> ws_host s = HReading \<and> ws_to_host s = [] \<and> answered_with s socket
   | MHandshake \<Rightarrow> booted s \<and> ws_host s = HReading \<and> ws_to_host s = []
   | MSplicing \<Rightarrow> splice_phase s
   | MGone g \<Rightarrow> gone_inv g s)"

lemmas wire_inv_defs = wire_inv_def awaiting_inv_def unbooted_def booted_def idle_host_def
  answered_with_def splice_phase_def wire_start_def tell_host_def tell_mod_def

lemma inv_preamble: "wire_inv s \<Longrightarrow> ws_mod s = MPreamble \<Longrightarrow> s = wire_start"
  by (simp add: wire_inv_def)

lemma inv_awaiting: "wire_inv s \<Longrightarrow> ws_mod s = MAwaiting \<Longrightarrow> awaiting_inv s"
  by (simp add: wire_inv_def)

text \<open>A host that reads: what can be under way towards it, by phase of the module.\<close>

lemma reading_line:
  "wire_inv s \<Longrightarrow> ws_host s = HReading \<Longrightarrow> read_string (ws_to_host s) = Some (line, rest) \<Longrightarrow>
   rest = [] \<and>
   (ws_mod s = MAwaiting \<and> line = msg_boot @ [nl] \<and> ws_to_mod s = [] \<and> unbooted s
    \<or> ws_mod s = MGone Crashed \<and> line = msg_boot @ [nl] \<and> unbooted s
    \<or> (ws_mod s = MSplicing \<or> ws_mod s = MGone Spliced \<or> ws_mod s = MGone Crashed) \<and> line = msg_splice @ [nl] \<and> booted s
    \<or> ws_mod s = MGone ServedAlone \<and> line = msg_handled @ [nl] \<and> unbooted s
    \<or> ws_mod s = MGone PreambleFailed \<and> (\<exists>e. line = msg_error e @ [nl]) \<and> unbooted s)"
  apply (cases "ws_mod s")
       apply (auto simp: wire_inv_defs; fail)
      apply (auto simp: wire_inv_defs; fail)
     apply (auto simp: wire_inv_defs; fail)
    apply (auto simp: wire_inv_defs; fail)
   apply (auto simp: wire_inv_defs; fail)
  subgoal for g by (cases g; auto simp: wire_inv_defs; metis)
  done

text \<open>The three ways a preamble ends.\<close>

lemma after_preamble_cases:
  obtains e where "after_preamble r = (msg_error e, MGone PreambleFailed)"
  | "after_preamble r = (msg_handled, MGone ServedAlone)" | "after_preamble r = (msg_boot, MAwaiting)"
proof (cases r)
  case (Inr res)
  then show thesis using that by (cases "pm_handled res") (simp_all add: after_preamble_def)
qed (simp add: after_preamble_def that)

lemma wire_inv_step: "wire_step s s' \<Longrightarrow> wire_inv s \<Longrightarrow> wire_inv s'"
proof (induction rule: wire_step.induct)
  case (preamble_done s pf)
  then show ?case by (cases "pf_preamble pf () ()" rule: after_preamble_cases) (auto simp: wire_inv_defs)
next
  case (host_handled s line rest)
  then show ?case using reading_line[OF host_handled(4,1,2)] by (auto simp: wire_inv_defs)
next
  case (host_boots s line rest b)
  then show ?case using reading_line[OF host_boots(4,1,2)] by (auto simp: wire_inv_defs)
next
  case (host_boot_failed s line rest e)
  then show ?case using reading_line[OF host_boot_failed(4,1,2)] by (auto simp: wire_inv_defs)
next
  case (host_splices s line rest)
  then show ?case using reading_line[OF host_splices(4,1,2)] by (auto simp: wire_inv_defs)
next
  case (host_error s line rest m)
  then show ?case using reading_line[OF host_error(4,1,2)] by (auto simp: wire_inv_defs)
next
  case (host_unexpected s line rest m)
  then show ?case using reading_line[OF host_unexpected(4,1,2)] by (auto simp: wire_inv_defs)
next
  case (host_eof s g)
  then show ?case by (cases g) (auto simp: wire_inv_defs)
next
  case (host_reset s g e)
  then show ?case by (cases g) (auto simp: wire_inv_defs)
next
  case (host_released s g)
  then show ?case by (cases g) (auto simp: wire_inv_defs)
next
  case (module_died s)
  then show ?case by (cases "ws_mod s") (auto simp: wire_inv_defs)
next
  case (backend_named s line rest socket)
  then show ?case using inv_awaiting[OF backend_named(4,1)] by (auto simp: wire_inv_defs dest!: bootfail_line)
next
  case (backend_refused s line rest)
  then show ?case using inv_awaiting[OF backend_refused(4,1)] by (auto simp: wire_inv_defs)
next
  case (host_hung_up s r)
  then show ?case using inv_awaiting[OF host_hung_up(4,1)] by (auto simp: wire_inv_defs)
qed (auto simp: wire_inv_defs)

section \<open>Every handoff ends\<close>

fun mod_rank :: "mod_phase \<Rightarrow> nat" where
  "mod_rank MPreamble = 7"
| "mod_rank MAwaiting = 5"
| "mod_rank (MDialing socket) = 4"
| "mod_rank MHandshake = 3"
| "mod_rank MSplicing = 1"
| "mod_rank (MGone g) = 0"

fun host_rank :: "host_phase \<Rightarrow> nat" where
  "host_rank (HDone r) = 0"
| "host_rank _ = 1"

definition wire_rank :: "wire_state \<Rightarrow> nat" where
  "wire_rank s = mod_rank (ws_mod s) + host_rank (ws_host s) + (if ws_to_host s = [] then 0 else 1)"

lemma reading_rank:
  "wire_inv s \<Longrightarrow> ws_host s = HReading \<Longrightarrow> read_string (ws_to_host s) = Some (line, rest) \<Longrightarrow>
   rest = [] \<and> ws_to_host s \<noteq> []"
  using reading_line by fastforce

lemma quiet_host: "wire_inv s \<Longrightarrow> ws_mod s = MPreamble \<or> ws_mod s = MHandshake \<Longrightarrow>
    ws_host s = HReading \<and> ws_to_host s = []"
  by (auto simp: wire_inv_defs)

lemma wire_rank_step: "wire_step s s' \<Longrightarrow> wire_inv s \<Longrightarrow> wire_rank s' < wire_rank s"
proof (induction rule: wire_step.induct)
  case (preamble_done s pf)
  then show ?case using quiet_host[of s]
    by (cases "pf_preamble pf () ()" rule: after_preamble_cases) (simp_all add: wire_rank_def tell_host_def)
next
  case (handshake_ready s pf socket)
  then show ?case using quiet_host[of s] by (simp add: wire_rank_def tell_host_def)
next
  case (host_handled s line rest)
  then show ?case using reading_rank[OF host_handled(4,1,2)] by (simp add: wire_rank_def)
next
  case (host_boots s line rest b)
  then show ?case using reading_rank[OF host_boots(4,1,2)] by (simp add: wire_rank_def tell_mod_def split: mod_phase.split)
next
  case (host_boot_failed s line rest e)
  then show ?case using reading_rank[OF host_boot_failed(4,1,2)] by (simp add: wire_rank_def tell_mod_def split: mod_phase.split)
next
  case (host_splices s line rest)
  then show ?case using reading_rank[OF host_splices(4,1,2)] by (simp add: wire_rank_def)
next
  case (host_error s line rest m)
  then show ?case using reading_rank[OF host_error(4,1,2)] by (simp add: wire_rank_def)
next
  case (host_unexpected s line rest m)
  then show ?case using reading_rank[OF host_unexpected(4,1,2)] by (simp add: wire_rank_def)
next
  case (module_died s)
  then show ?case by (cases "ws_mod s") (simp_all add: wire_rank_def)
qed (simp_all add: wire_rank_def)

interpretation wire: ranked_machine wire_step wire_start wire_inv wire_rank
  by unfold_locales (simp add: wire_inv_defs, erule (1) wire_inv_step, erule (1) wire_rank_step)

lemmas wire_inv_reachable = wire.inv_reachable[folded wire_reachable_def]

text \<open>No side waits for the other for ever, and not only because the module may die: a state with no step but
  that one is one where both have returned.\<close>

definition dies :: "wire_state \<Rightarrow> wire_state \<Rightarrow> bool" where
  "dies s s' = (ws_mod s' = MGone Crashed \<and> ws_mod s \<noteq> MGone Crashed)"

definition moves :: "wire_state \<Rightarrow> bool" where
  "moves s = (\<exists>s'. wire_step s s' \<and> \<not> dies s s')"

lemma movesI: "wire_step s s' \<Longrightarrow> ws_mod s' = MGone Crashed \<longrightarrow> ws_mod s = MGone Crashed \<Longrightarrow> moves s"
  by (auto simp: moves_def dies_def)

lemma tell_mods [simp]: "ws_mod (tell_host l s) = ws_mod s" "ws_mod (tell_mod l s) = ws_mod s"
  by (simp_all add: tell_host_def tell_mod_def split: host_phase.split mod_phase.split)

lemma module_moves: "ws_mod s \<noteq> MAwaiting \<Longrightarrow> \<forall>g. ws_mod s \<noteq> MGone g \<Longrightarrow> moves s"
proof (cases "ws_mod s")
  case MPreamble
  then show ?thesis
    by (rule movesI[OF preamble_done[where pf = "\<lparr>pf_preamble = (\<lambda>c opts. Inl []), pf_handshake = (\<lambda>c b. (False, None))\<rparr>"]])
      (simp add: after_preamble_def)
next
  case (MDialing socket)
  then show ?thesis by (rule movesI[OF backend_dialed]) simp
next
  case MHandshake
  then show ?thesis
    by (rule movesI[OF handshake_failed[where pf = "\<lparr>pf_preamble = (\<lambda>c opts. Inl []), pf_handshake = (\<lambda>c b. (False, None))\<rparr>"]])
      (simp_all add: may_splice_def)
next
  case MSplicing
  then show ?thesis by (rule movesI[OF splice_ended]) simp
qed simp_all

lemma host_moves: "ws_host s = HReading \<Longrightarrow> read_string (ws_to_host s) = Some (line, rest) \<Longrightarrow> moves s"
  by (cases "host_event line") (rule movesI, blast intro: wire_step.intros, simp)+

lemma awaiting_moves: "awaiting_inv s \<Longrightarrow> ws_mod s = MAwaiting \<Longrightarrow> moves s"
proof -
  assume i: "awaiting_inv s" and m: "ws_mod s = MAwaiting"
  show ?thesis
  proof (cases "ws_to_mod s = []")
    case True
    with i have "ws_host s = HReading" "ws_to_host s = msg_boot @ [nl]" by (auto simp: awaiting_inv_def)
    then show ?thesis using host_moves read_msgs(1) by metis
  next
    case False
    with i have "nl \<in> set (ws_to_mod s)" by (auto simp: awaiting_inv_def)
    then obtain line rest where r: "read_string (ws_to_mod s) = Some (line, rest)"
      by (auto simp: read_string_def)
    show ?thesis
    proof (cases "backend_socket line")
      case None
      show ?thesis by (rule movesI[OF backend_refused[OF m r None]]) simp
    next
      case (Some socket)
      show ?thesis by (rule movesI[OF backend_named[OF m r Some]]) simp
    qed
  qed
qed

lemma wire_progress: "wire_inv s \<Longrightarrow> \<not> moves s \<Longrightarrow> \<exists>r g. ws_host s = HDone r \<and> ws_mod s = MGone g"
proof -
  assume i: "wire_inv s" and stuck: "\<not> moves s"
  obtain g where g: "ws_mod s = MGone g" using module_moves stuck awaiting_moves inv_awaiting[OF i] by blast
  moreover have "ws_host s \<noteq> HSplicing" using g stuck movesI[OF host_released[OF _ g]] by fastforce
  moreover have "ws_host s \<noteq> HReading"
  proof
    assume h: "ws_host s = HReading"
    show False
    proof (cases "read_string (ws_to_host s)")
      case None
      then show False using g stuck movesI[OF host_eof[OF h None g]] by simp
    next
      case (Some lr)
      then show False using h stuck host_moves[of s] by (cases lr) auto
    qed
  qed
  ultimately show ?thesis by (cases "ws_host s") auto
qed

section \<open>Properties\<close>

lemma gone_accounts: "gone_inv g s \<Longrightarrow>
   ws_boots s \<le> 1 \<and> ws_acquired s = ws_released s + (if ws_host s = HSplicing then 1 else 0)
   \<and> ws_acquired s \<le> 1 \<and> (ws_acquired s = 1 \<longrightarrow> ws_backend s \<noteq> None)
   \<and> (g = ServedAlone \<longrightarrow> ws_boots s = 0)"
  by (cases g) (auto simp: wire_inv_defs)

text \<open>C26. However the two sides interleave, whatever the filter and the boot decide, and wherever the module dies, one handoff
  boots the backend at most once and counts the connection at most once, and only on a booted backend; the host
  holds the count exactly while it waits out the splice, so every finished handoff has given back
  what it took; a connection the module settles alone boots nothing.\<close>

theorem handoff_accounts:
  assumes "wire_reachable s"
  shows "ws_boots s \<le> 1 \<and> ws_acquired s = ws_released s + (if ws_host s = HSplicing then 1 else 0)
    \<and> ws_acquired s \<le> 1 \<and> (ws_acquired s = 1 \<longrightarrow> ws_backend s \<noteq> None)
    \<and> (ws_mod s = MGone ServedAlone \<longrightarrow> ws_boots s = 0)"
proof (cases "ws_mod s")
  case (MGone g)
  with wire_inv_reachable[OF assms] gone_accounts[of g s] show ?thesis by (auto simp: wire_inv_def)
qed (use wire_inv_reachable[OF assms] in \<open>auto simp: wire_inv_defs\<close>)

text \<open>A whole run: the client is let in, the backend booted and dialled, the splice counted and ended.\<close>

definition spliced_run :: wire_state where
  "spliced_run = \<lparr>ws_host = HDone Finished, ws_mod = MGone Spliced, ws_to_host = [], ws_to_mod = [],
     ws_boots = 1, ws_backend = Some ''/run/pg.sock'', ws_acquired = 1, ws_released = 1\<rparr>"

lemma spliced_run_steps: "(wire_step ^^ 8) wire_start spliced_run"
proof -
  let ?b = "''/run/pg.sock''"
  define s1 where "s1 = wire_start\<lparr>ws_mod := MAwaiting, ws_to_host := msg_boot @ [nl]\<rparr>"
  define s2 where "s2 = s1\<lparr>ws_to_host := [], ws_to_mod := msg_backend ?b @ [nl], ws_boots := 1, ws_backend := Some ?b\<rparr>"
  define s3 where "s3 = s2\<lparr>ws_mod := MDialing ?b, ws_to_mod := []\<rparr>"
  define s4 where "s4 = s3\<lparr>ws_mod := MHandshake\<rparr>"
  define s5 where "s5 = s4\<lparr>ws_mod := MSplicing, ws_to_host := msg_splice @ [nl]\<rparr>"
  define s6 where "s6 = s5\<lparr>ws_host := HSplicing, ws_to_host := [], ws_acquired := 1\<rparr>"
  define s7 where "s7 = s6\<lparr>ws_mod := MGone Spliced\<rparr>"
  have r: "read_string (msg_backend ?b @ [nl]) = Some (msg_backend ?b @ [nl], [])"
    "backend_socket (msg_backend ?b @ [nl]) = Some ?b" by code_simp+
  define pf :: "(unit, unit) proxy_filter" where
    "pf = \<lparr>pf_preamble = (\<lambda>c opts. Inr \<lparr>pm_client = c, pm_replay = [], pm_handled = False\<rparr>), pf_handshake = (\<lambda>c b. (True, None))\<rparr>"
  have "wire_step wire_start s1"
    using preamble_done[of wire_start pf] by (simp add: s1_def wire_start_def tell_host_def pf_def after_preamble_def)
  moreover have "wire_step s1 s2"
    using host_boots[of s1 "msg_boot @ [nl]" "[]" ?b] by (simp add: s2_def s1_def wire_start_def tell_mod_def)
  moreover have "wire_step s2 s3"
    using backend_named[of s2 "msg_backend ?b @ [nl]" "[]" ?b] r by (simp add: s3_def s2_def s1_def)
  moreover have "wire_step s3 s4" using backend_dialed[of s3 ?b] by (simp add: s4_def s3_def)
  moreover have "wire_step s4 s5"
    using handshake_ready[of s4 pf ?b] by (simp add: pf_def may_splice_def s5_def s4_def s3_def s2_def s1_def wire_start_def tell_host_def)
  moreover have "wire_step s5 s6"
    using host_splices[of s5 "msg_splice @ [nl]" "[]"]
    by (simp add: s6_def s5_def s4_def s3_def s2_def s1_def wire_start_def)
  moreover have "wire_step s6 s7" using splice_ended[of s6] by (simp add: s7_def s6_def s5_def)
  moreover have "wire_step s7 spliced_run"
    using host_released[of s7 Spliced]
    by (simp add: spliced_run_def s7_def s6_def s5_def s4_def s3_def s2_def s1_def wire_start_def)
  ultimately have "(wire_step ^^ Suc (Suc (Suc (Suc (Suc (Suc (Suc (Suc 0)))))))) wire_start spliced_run"
    by (blast intro: relpowp_Suc_I2 relpowp_0_I)
  moreover have "(8::nat) = Suc (Suc (Suc (Suc (Suc (Suc (Suc (Suc 0)))))))" by simp
  ultimately show ?thesis by (simp only:)
qed

lemma spliced_run_reachable: "wire_reachable spliced_run"
  unfolding wire_reachable_def by (rule relpowp_imp_rtranclp[OF spliced_run_steps])

lemma handoff_accounts_witness:
  "ws_boots spliced_run \<le> 1 \<and> ws_acquired spliced_run = ws_released spliced_run \<and> ws_backend spliced_run \<noteq> None"
  using handoff_accounts[OF spliced_run_reachable] by (simp add: spliced_run_def)

text \<open>C27. The side-channel cannot hang: a handoff takes at most eight steps, and a state that
  no step leaves, the module's death set aside, is one where the host has its answer and the module's
  handler has returned, so neither ever waits for a line the other will not send.\<close>

theorem handoff_ends:
  assumes "(wire_step ^^ n) wire_start s"
  shows "n \<le> 8 \<and> ((\<nexists>s'. wire_step s s' \<and> \<not> dies s s') \<longrightarrow> (\<exists>r g. ws_host s = HDone r \<and> ws_mod s = MGone g))"
  using wire.run_bound[OF assms] wire_progress[OF wire.inv_run[OF assms]]
  by (simp add: wire_rank_def wire_start_def moves_def)

lemma handoff_ends_witness: "(\<nexists>s'. wire_step spliced_run s') \<and> (\<exists>r. ws_host spliced_run = HDone r)"
proof -
  have "\<nexists>s'. wire_step spliced_run s'"
    by (auto elim!: wire_stepE simp: spliced_run_def)
  then show ?thesis using handoff_ends[OF spliced_run_steps] by blast
qed

text \<open>The socket the module dials is the one the host's boot gave, when that is a line of its own.\<close>

lemma module_dials_the_backend:
  assumes "wire_reachable s" "ws_mod s = MDialing socket" "ws_backend s = Some b"
    and b: "nl \<notin> set b" "trim_space b = b" "b \<noteq> []"
  shows "socket = b"
proof -
  have l: "is_space (last b) = False" using b(2,3)
    by (metis (no_types, opaque_lifting) hd_dropWhile hd_rev last_rev rev_is_Nil_conv trim_space_def)
  have "nl \<notin> set (msg_backend b)" using b(1) by (auto simp: msg_backend_def nl_def)
  then have r: "read_string (msg_backend b @ [nl]) = Some (msg_backend b @ [nl], [])"
    by (rule read_string_line)
  have "trim_space (msg_backend b @ [nl]) = msg_backend b"
    using l b(3) by (cases b rule: rev_cases) (simp_all add: trim_space_def msg_backend_def is_space_def nl_def)
  then have "backend_socket (msg_backend b @ [nl]) = Some b"
    by (simp add: backend_socket_def cut_prefix_def has_prefix_def msg_backend_def)
  moreover have "answered_with s socket" using wire_inv_reachable[OF assms(1)] assms(2) by (simp add: wire_inv_def)
  ultimately show ?thesis using assms(3) r by (auto simp: answered_with_def)
qed

section \<open>The registry and the header\<close>

definition good_key :: "cancel_registry \<Rightarrow> string \<Rightarrow> bool" where
  "good_key m key = (\<not> weak_key key \<and> m key = None)"

lemma fresh_key_step:
  "fresh_key draw m n = (if good_key m (draw n) then Some (draw n, n + 1) else fresh_key draw m (n + 1))"
  by (subst fresh_key.simps) (simp add: good_key_def Let_def)

lemma fresh_key_first:
  "good_key m (draw k) \<Longrightarrow> \<forall>i. n \<le> i \<longrightarrow> i < k \<longrightarrow> \<not> good_key m (draw i) \<Longrightarrow> n \<le> k \<Longrightarrow>
   fresh_key draw m n = Some (draw k, k + 1)"
proof (induction "k - n" arbitrary: n)
  case 0
  then show ?case by (subst fresh_key_step) simp
next
  case (Suc d)
  then have "\<not> good_key m (draw n)" "fresh_key draw m (n + 1) = Some (draw k, k + 1)" by simp_all
  then show ?case by (subst fresh_key_step) simp
qed

lemma first_good:
  assumes "good_key m (draw j)" "n \<le> (j::nat)"
  shows "\<exists>k. n \<le> k \<and> k \<le> j \<and> good_key m (draw k) \<and> (\<forall>i. n \<le> i \<longrightarrow> i < k \<longrightarrow> \<not> good_key m (draw i))"
proof -
  define k where "k = (LEAST k. n \<le> k \<and> good_key m (draw k))"
  have "n \<le> k \<and> good_key m (draw k)" unfolding k_def by (rule LeastI[of _ j]) (use assms in simp)
  moreover have "k \<le> j" unfolding k_def by (rule Least_le) (use assms in simp)
  moreover have "\<forall>i. n \<le> i \<longrightarrow> i < k \<longrightarrow> \<not> good_key m (draw i)"
    unfolding k_def using not_less_Least by blast
  ultimately show ?thesis by blast
qed

text \<open>Registering a cancel target returns as soon as the random source gives a key that is free
  and does not start with four zero bytes, with the first such key; from then on that key looks
  up the target and every other key what it did before, and unregistering it restores the registry.\<close>

theorem register_cancel_fresh:
  assumes "good_key m (draw j)" "n \<le> j"
  shows "\<exists>k m'. n \<le> k \<and> k \<le> j \<and> register_cancel draw m n t = Some (draw k, m', k + 1)
    \<and> \<not> weak_key (draw k) \<and> lookup_cancel m (draw k) = None
    \<and> lookup_cancel m' (draw k) = Some t \<and> (\<forall>key. key \<noteq> draw k \<longrightarrow> lookup_cancel m' key = lookup_cancel m key)
    \<and> unregister_cancel m' (draw k) = m"
proof -
  from first_good[of m draw, OF assms] obtain k where k: "n \<le> k" "k \<le> j" "good_key m (draw k)"
    "\<forall>i. n \<le> i \<longrightarrow> i < k \<longrightarrow> \<not> good_key m (draw i)" by blast
  then have "register_cancel draw m n t = Some (draw k, m(draw k \<mapsto> t), k + 1)"
    using fresh_key_first[of m draw k n] by (simp add: register_cancel_def)
  then show ?thesis using k
    by (intro exI[of _ k] exI[of _ "m(draw k \<mapsto> t)"])
      (auto simp: good_key_def lookup_cancel_def unregister_cancel_def)
qed

definition demo_draw :: "nat \<Rightarrow> string" where
  "demo_draw n = (if n = 0 then replicate 8 (CHR 0x00) else ''abcdefgh'')"

lemma register_cancel_fresh_witness:
  "\<exists>k m'. register_cancel demo_draw new_cancel_registry 0 \<lparr>ct_backend_socket = ''/run/pg'', ct_key = ''k''\<rparr>
    = Some (demo_draw k, m', k + 1)"
proof -
  have "good_key new_cancel_registry (demo_draw 1)"
    by (simp add: good_key_def new_cancel_registry_def demo_draw_def weak_key_def)
  from register_cancel_fresh[where draw = demo_draw and j = 1 and n = 0, OF this le0] show ?thesis by blast
qed

text \<open>A header within the limit decides the module's options; a longer one is cut, does not decode,
  and the options are all off, the requirement of TLS among them.\<close>

lemma header_within_limit:
  assumes "length (marshal h) \<le> max_wire_header" "unmarshal (marshal h) = Some h"
  shows "po_require_tls (handle_opts unmarshal parse_key (marshal h)) = wh_require_tls h
    \<and> po_local_unix (handle_opts unmarshal parse_key (marshal h)) = wh_local_unix h"
  using assms by (simp add: handle_opts_def)

lemma long_header_drops_tls:
  assumes "length sent > max_wire_header" "unmarshal (take max_wire_header sent) = None"
  shows "handle_opts unmarshal parse_key sent = \<lparr>po_tls = None, po_require_tls = False, po_local_unix = False\<rparr>"
  using assms by (simp add: handle_opts_def zero_header_def)

end
