(* ===== verification/Modules.thy ===== *)
theory Modules
  imports Modtool Steps
begin

text \<open>
  The processes of the engine modules: \<open>Launch\<close> of \<open>plugin/host.go\<close>, the \<open>Manager\<close> of
  \<open>plugin/manager.go\<close> that keeps one warm per engine type, and the registry of \<open>engine/registry.go\<close>
  that puts modules before the engines compiled in. A process is a number, the operating system's
  table is the set of those running; how a binary answers the handshake is an argument of the launch.
  Every operation of the manager runs under its lock, so a history is a sequence of operations, with
  processes exiting in between as they please.
\<close>

section \<open>Resolvers\<close>

type_synonym binary = "string \<times> string list option"
type_synonym resolver = "string \<Rightarrow> binary option"

text \<open>\<open>EnvResolver\<close>: the variable must be set and name something that is not a directory; the
  environment handed on is nil, the daemon's own.\<close>

definition env_resolver :: "(string \<Rightarrow> string) \<Rightarrow> (string \<Rightarrow> bool option) \<Rightarrow> resolver" where
  "env_resolver getenv stat_dir engineType =
     (let p = getenv (''DOZE_'' @ to_upper engineType @ ''_PLUGIN'') in
      if p = [] then None
      else (case stat_dir p of None \<Rightarrow> None | Some isDir \<Rightarrow> if isDir then None else Some (p, None)))"

text \<open>\<open>Chain\<close>: the first hit, nil resolvers skipped.\<close>

fun chain :: "resolver option list \<Rightarrow> resolver" where
  "chain [] engineType = None"
| "chain (None # rs) engineType = chain rs engineType"
| "chain (Some r # rs) engineType = (case r engineType of Some hit \<Rightarrow> Some hit | None \<Rightarrow> chain rs engineType)"

section \<open>Launching\<close>

definition protocols :: "int list" where "protocols = [protocol_version]"

text \<open>\<open>versionedSet\<close>: the one plugin of the set under every protocol spoken.\<close>

definition plugin_key :: string where "plugin_key = ''engine''"

definition plugin_set :: "'d option \<Rightarrow> (string \<times> 'd option) list" where
  "plugin_set drv = [(plugin_key, drv)]"

definition versioned_set :: "'d option \<Rightarrow> (int \<times> (string \<times> 'd option) list) list" where
  "versioned_set drv = foldl (\<lambda>out v. mput v (plugin_set drv) out) [] protocols"

datatype launch_error =
    ProtocolMismatch string int string
  | NoHandshake string
  | Connecting string string
  | Dispensing string string
  | NotADriver string

definition em_dash :: string where "em_dash = [CHR 0xE2, CHR 0x80, CHR 0x94]"

fun launch_text :: "launch_error \<Rightarrow> string" where
  "launch_text (ProtocolMismatch path host e) = ''plugin '' @ path @
     '' speaks an incompatible doze plugin protocol (this doze speaks '' @ dec_int host @
     '') '' @ em_dash @ '' run 'doze modules upgrade', or rebuild the plugin against a matching doze-sdk''"
| "launch_text (NoHandshake path) = path @ '' did not answer doze's plugin handshake: it may be built for another OS or architecture, be missing libraries, or not be a doze module''"
| "launch_text (Connecting path e) = ''connecting to plugin '' @ path @ '': '' @ e"
| "launch_text (Dispensing path e) = ''dispensing plugin '' @ path @ '': '' @ e"
| "launch_text (NotADriver path) = ''plugin '' @ path @ '' did not yield an engine.Driver''"

text \<open>What go-plugin's client reports for the binary: an error of the handshake, an error or a value
  that is no driver from \<open>Dispense\<close>, or the driver.\<close>

datatype 'd answer = HandshakeFails string | DispenseFails string | OtherValue | Yields 'd

record 'd host =
  ho_process :: nat
  ho_driver :: 'd

record system =
  sy_running :: "nat set"
  sy_next :: nat

definition start_process :: "system \<Rightarrow> nat \<times> system" where
  "start_process sy = (sy_next sy, \<lparr>sy_running = insert (sy_next sy) (sy_running sy), sy_next = Suc (sy_next sy)\<rparr>)"

definition kill_process :: "nat \<Rightarrow> system \<Rightarrow> system" where
  "kill_process p sy = sy\<lparr>sy_running := sy_running sy - {p}\<rparr>"

definition handshake_error :: "string \<Rightarrow> string \<Rightarrow> launch_error" where
  "handshake_error path e =
     (if contains_sub e ''Incompatible API version'' then ProtocolMismatch path protocol_version e
      else if contains_sub e ''Unrecognized remote plugin message'' then NoHandshake path
      else Connecting path e)"

definition launch :: "'d answer \<Rightarrow> string \<Rightarrow> system \<Rightarrow> (launch_error + 'd host) \<times> system" where
  "launch ans path sy = (case start_process sy of (p, sy1) \<Rightarrow>
     (case ans of
        HandshakeFails e \<Rightarrow> (Inl (handshake_error path e), kill_process p sy1)
      | DispenseFails e \<Rightarrow> (Inl (Dispensing path e), kill_process p sy1)
      | OtherValue \<Rightarrow> (Inl (NotADriver path), kill_process p sy1)
      | Yields d \<Rightarrow> (Inr \<lparr>ho_process = p, ho_driver = d\<rparr>, sy1)))"

definition host_alive :: "'d host \<Rightarrow> system \<Rightarrow> bool" where
  "host_alive h sy = (ho_process h \<in> sy_running sy)"

definition host_close :: "'d host \<Rightarrow> system \<Rightarrow> system" where
  "host_close h sy = kill_process (ho_process h) sy"

section \<open>The manager\<close>

record 'd module_manager =
  mm_hosts :: "(string \<times> 'd host) list"
  mm_failed :: "(string \<times> (string \<times> launch_error)) list"
  mm_system :: system

definition new_module_manager :: "system \<Rightarrow> 'd module_manager" where
  "new_module_manager sy = \<lparr>mm_hosts = [], mm_failed = [], mm_system = sy\<rparr>"

text \<open>\<open>Driver\<close>: the driver, whether there is a module, and the error. The result of the resolver and the
  answer of the binary, should one be started, are arguments.\<close>

definition launch_into :: "'d answer \<Rightarrow> string \<Rightarrow> string \<Rightarrow> 'd module_manager \<Rightarrow>
    ('d option \<times> bool \<times> (string \<times> launch_error) option) \<times> 'd module_manager" where
  "launch_into ans path engineType m = (case launch ans path (mm_system m) of
     (Inl e, sy) \<Rightarrow> ((None, True, Some (engineType, e)),
        m\<lparr>mm_failed := mput engineType (engineType, e) (mm_failed m), mm_system := sy\<rparr>)
   | (Inr h, sy) \<Rightarrow> ((Some (ho_driver h), True, None),
        m\<lparr>mm_failed := mdel engineType (mm_failed m), mm_hosts := mput engineType h (mm_hosts m), mm_system := sy\<rparr>))"

definition manager_driver :: "binary option \<Rightarrow> 'd answer \<Rightarrow> string \<Rightarrow> 'd module_manager \<Rightarrow>
    ('d option \<times> bool \<times> (string \<times> launch_error) option) \<times> 'd module_manager" where
  "manager_driver found ans engineType m = (case found of
     None \<Rightarrow> ((None, False, None), m\<lparr>mm_failed := mdel engineType (mm_failed m)\<rparr>)
   | Some (path, env) \<Rightarrow> (case map_of (mm_hosts m) engineType of
       Some h \<Rightarrow>
         if host_alive h (mm_system m) then ((Some (ho_driver h), True, None), m)
         else launch_into ans path engineType
                (m\<lparr>mm_hosts := mdel engineType (mm_hosts m), mm_system := host_close h (mm_system m)\<rparr>)
     | None \<Rightarrow> launch_into ans path engineType m))"

definition manager_lookup :: "binary option \<Rightarrow> 'd answer \<Rightarrow> string \<Rightarrow> 'd module_manager \<Rightarrow>
    'd option \<times> 'd module_manager" where
  "manager_lookup found ans engineType m = (case manager_driver found ans engineType m of
     ((d, ok, Some e), m') \<Rightarrow> (None, m')
   | ((d, ok, None), m') \<Rightarrow> (if ok then d else None, m'))"

definition launch_error_of :: "string \<Rightarrow> 'd module_manager \<Rightarrow> (string \<times> launch_error) option" where
  "launch_error_of engineType m = map_of (mm_failed m) engineType"

definition failure_text :: "string \<times> launch_error \<Rightarrow> string" where
  "failure_text f = ''launching '' @ fst f @ '' plugin: '' @ launch_text (snd f)"

definition manager_close :: "'d module_manager \<Rightarrow> 'd module_manager" where
  "manager_close m = m\<lparr>mm_hosts := [], mm_system := fold (\<lambda>(name, h) sy. host_close h sy) (mm_hosts m) (mm_system m)\<rparr>"

section \<open>The registry of engines\<close>

record ('d, 's) registry =
  rg_drivers :: "(string \<times> 'd) list"
  rg_resolver :: "(string \<Rightarrow> 's \<Rightarrow> 'd option \<times> 's) option"

definition register_driver :: "string \<Rightarrow> 'd \<Rightarrow> ('d, 's) registry \<Rightarrow> ('d, 's) registry" where
  "register_driver ty d rg = rg\<lparr>rg_drivers := mput ty d (rg_drivers rg)\<rparr>"

definition set_plugin_resolver ::
  "(string \<Rightarrow> 's \<Rightarrow> 'd option \<times> 's) option \<Rightarrow> ('d, 's) registry \<Rightarrow> ('d, 's) registry" where
  "set_plugin_resolver r rg = rg\<lparr>rg_resolver := r\<rparr>"

definition registry_lookup :: "('d, 's) registry \<Rightarrow> string \<Rightarrow> 's \<Rightarrow> 'd option \<times> 's" where
  "registry_lookup rg engineType s = (case rg_resolver rg of
     None \<Rightarrow> (map_of (rg_drivers rg) engineType, s)
   | Some r \<Rightarrow> (case r engineType s of
       (Some d, s') \<Rightarrow> (Some d, s')
     | (None, s') \<Rightarrow> (map_of (rg_drivers rg) engineType, s')))"

definition registry_types :: "('d, 's) registry \<Rightarrow> string list" where
  "registry_types rg = sort (map fst (rg_drivers rg))"

section \<open>A manager's history\<close>

inductive manager_step :: "'d module_manager \<Rightarrow> 'd module_manager \<Rightarrow> bool" where
  asked: "manager_step m (snd (manager_driver found ans engineType m))"
| exited: "manager_step m (m\<lparr>mm_system := kill_process p (mm_system m)\<rparr>)"
| closed: "manager_step m (manager_close m)"

text \<open>Started with nothing of its own running; processes are counted from \<open>n\<close>.\<close>

definition fresh_system :: "nat \<Rightarrow> system" where
  "fresh_system n = \<lparr>sy_running = {}, sy_next = n\<rparr>"

definition manager_reachable :: "nat \<Rightarrow> 'd module_manager \<Rightarrow> bool" where
  "manager_reachable n m = manager_step\<^sup>*\<^sup>* (new_module_manager (fresh_system n)) m"

section \<open>No process is lost\<close>

text \<open>Stated over what the maps give: every running process is some host's, hosts have processes
  of their own, all started already, and an engine type is not both warm and failed.\<close>

definition pool_ok :: "(string \<rightharpoonup> 'd host) \<Rightarrow> (string \<rightharpoonup> 'e) \<Rightarrow> nat set \<Rightarrow> nat \<Rightarrow> bool" where
  "pool_ok H F R n \<longleftrightarrow>
     (\<forall>p\<in>R. \<exists>ty h. H ty = Some h \<and> ho_process h = p) \<and>
     (\<forall>ty h. H ty = Some h \<longrightarrow> ho_process h < n) \<and>
     (\<forall>ty ty' h h'. H ty = Some h \<longrightarrow> H ty' = Some h' \<longrightarrow> ho_process h = ho_process h' \<longrightarrow> ty = ty') \<and>
     (\<forall>ty. H ty = None \<or> F ty = None)"

lemma pool_okI:
  assumes "\<And>p. p \<in> R \<Longrightarrow> \<exists>ty h. H ty = Some h \<and> ho_process h = p"
    "\<And>ty h. H ty = Some h \<Longrightarrow> ho_process h < n"
    "\<And>ty ty' h h'. H ty = Some h \<Longrightarrow> H ty' = Some h' \<Longrightarrow> ho_process h = ho_process h' \<Longrightarrow> ty = ty'"
    "\<And>ty. H ty = None \<or> F ty = None"
  shows "pool_ok H F R n"
  using assms unfolding pool_ok_def by simp

lemma pool_okD:
  assumes "pool_ok H F R n"
  shows "p \<in> R \<Longrightarrow> \<exists>ty h. H ty = Some h \<and> ho_process h = p"
    and "H ty = Some h \<Longrightarrow> ho_process h < n"
    and "H ty = Some h \<Longrightarrow> H ty' = Some h' \<Longrightarrow> ho_process h = ho_process h' \<Longrightarrow> ty = ty'"
    and "H ty = None \<or> F ty = None"
  using assms unfolding pool_ok_def by simp_all

lemma pool_exit: "pool_ok H F R n \<Longrightarrow> pool_ok H F (R - {p}) n"
  by (simp add: pool_ok_def)

lemma pool_unfail: "pool_ok H F R n \<Longrightarrow> pool_ok H (F(ty := None)) R n"
  by (simp add: pool_ok_def)

lemma pool_drop:
  assumes p: "pool_ok H F R n" and h: "H ty = Some h"
  shows "pool_ok (H(ty := None)) F (R - {ho_process h}) n"
proof (rule pool_okI)
  fix q assume "q \<in> R - {ho_process h}"
  with pool_okD(1)[OF p] obtain ty' h' where "H ty' = Some h'" "ho_process h' = q" "q \<noteq> ho_process h" by blast
  with h show "\<exists>ty' h'. (H(ty := None)) ty' = Some h' \<and> ho_process h' = q"
    by (intro exI[of _ ty'] exI[of _ h']) auto
qed (use p in \<open>auto simp: pool_ok_def split: if_splits\<close>)

lemma pool_fail:
  assumes p: "pool_ok H F R n" and "H ty = None"
  shows "pool_ok H (F(ty \<mapsto> e)) (R - {n}) (Suc n)"
proof (rule pool_okI)
  fix ty' h' assume "H ty' = Some h'"
  with pool_okD(2)[OF p] show "ho_process h' < Suc n" by fastforce
qed (use assms in \<open>auto simp: pool_ok_def split: if_splits\<close>)

lemma pool_start:
  assumes p: "pool_ok H F R n" and free: "H ty = None" and h: "ho_process h = n"
  shows "pool_ok (H(ty \<mapsto> h)) (F(ty := None)) (insert n R) (Suc n)"
proof (rule pool_okI)
  fix q assume "q \<in> insert n R"
  then show "\<exists>ty' h'. (H(ty \<mapsto> h)) ty' = Some h' \<and> ho_process h' = q"
    using pool_okD(1)[OF p, of q] free h by (cases "q = n") (auto, metis option.distinct(1))
next
  fix ty' h' assume "(H(ty \<mapsto> h)) ty' = Some h'"
  then show "ho_process h' < Suc n" using pool_okD(2)[OF p, of ty' h'] h by (auto split: if_splits)
next
  fix t t' g g' assume "(H(ty \<mapsto> h)) t = Some g" "(H(ty \<mapsto> h)) t' = Some g'" "ho_process g = ho_process g'"
  then show "t = t'"
    using pool_okD(2)[OF p, of t g] pool_okD(2)[OF p, of t' g'] pool_okD(3)[OF p, of t g t' g'] h
    by (auto split: if_splits)
next
  fix t show "(H(ty \<mapsto> h)) t = None \<or> (F(ty := None)) t = None" using pool_okD(4)[OF p, of t] by auto
qed

definition manager_inv :: "'d module_manager \<Rightarrow> bool" where
  "manager_inv m = pool_ok (map_of (mm_hosts m)) (map_of (mm_failed m)) (sy_running (mm_system m)) (sy_next (mm_system m))"

lemmas launch_defs = launch_into_def launch_def start_process_def kill_process_def

lemma inv_new: "manager_inv (new_module_manager (fresh_system n))"
  by (simp add: manager_inv_def new_module_manager_def fresh_system_def pool_ok_def)

lemma inv_drop: "manager_inv m \<Longrightarrow> map_of (mm_hosts m) ty = Some h \<Longrightarrow>
   manager_inv (m\<lparr>mm_hosts := mdel ty (mm_hosts m), mm_system := host_close h (mm_system m)\<rparr>)"
  using pool_drop by (fastforce simp: manager_inv_def host_close_def kill_process_def)

lemma inv_launch: "manager_inv m \<Longrightarrow> map_of (mm_hosts m) ty = None \<Longrightarrow> manager_inv (snd (launch_into ans path ty m))"
  unfolding manager_inv_def
  by (cases ans) (simp_all add: launch_defs pool_fail pool_start)

lemma inv_driver: "manager_inv m \<Longrightarrow> manager_inv (snd (manager_driver found ans ty m))"
proof -
  assume i: "manager_inv m"
  show ?thesis
  proof (cases found)
    case None
    with i show ?thesis by (simp add: manager_driver_def manager_inv_def pool_unfail)
  next
    case (Some b)
    with i inv_launch[OF i, of ty] inv_launch[OF inv_drop[OF i], of ty]
    show ?thesis by (auto simp: manager_driver_def split: option.split prod.split)
  qed
qed

lemma fold_close: "sy_running (fold (\<lambda>(name, h) sy. host_close h sy) hs sy) = sy_running sy - (ho_process ` snd ` set hs)"
  by (induction hs arbitrary: sy) (auto simp: host_close_def kill_process_def)

lemma close_running:
  assumes "manager_inv m"
  shows "sy_running (mm_system (manager_close m)) = {}"
proof -
  have "p \<in> ho_process ` snd ` set (mm_hosts m)" if "p \<in> sy_running (mm_system m)" for p
    using pool_okD(1)[OF assms[unfolded manager_inv_def] that] by (force dest: map_of_SomeD)
  then show ?thesis by (auto simp: manager_close_def fold_close)
qed

lemma inv_step: "manager_step m m' \<Longrightarrow> manager_inv m \<Longrightarrow> manager_inv m'"
proof (induction rule: manager_step.induct)
  case (asked m found ans ty)
  then show ?case by (rule inv_driver)
next
  case (exited m p)
  then show ?case by (simp add: manager_inv_def kill_process_def pool_exit)
next
  case (closed m)
  from close_running[OF closed] show ?case by (simp add: manager_inv_def pool_ok_def) (simp add: manager_close_def)
qed

interpretation manager: invariant_machine manager_step "new_module_manager (fresh_system n)" manager_inv for n
  by unfold_locales (rule inv_new, erule (1) inv_step)

lemmas manager_reachable_inv = manager.inv_reachable[folded manager_reachable_def]

section \<open>Properties\<close>

text \<open>C35. Over any history of requests, exits and shutdowns, whatever the binaries do: every running
  module process is the one of a warm host and of one only, so a failed launch leaves none behind;
  no engine type is warm and failed at once; and closing the manager ends them all.\<close>

theorem no_module_process_leaks:
  assumes "manager_reachable n m"
  shows "(\<forall>p\<in>sy_running (mm_system m). \<exists>!ty. \<exists>h. map_of (mm_hosts m) ty = Some h \<and> ho_process h = p)
    \<and> (\<forall>ty. map_of (mm_hosts m) ty = None \<or> launch_error_of ty m = None)
    \<and> sy_running (mm_system (manager_close m)) = {}"
proof -
  note i = manager_reachable_inv[OF assms]
  note p = i[unfolded manager_inv_def]
  have "\<exists>!ty. \<exists>h. map_of (mm_hosts m) ty = Some h \<and> ho_process h = q" if "q \<in> sy_running (mm_system m)" for q
    using pool_okD(1)[OF p that] pool_okD(3)[OF p] by metis
  then show ?thesis using pool_okD(4)[OF p] close_running[OF i] by (simp add: launch_error_of_def)
qed

text \<open>A request of an engine's driver, through the registry whose resolver is the manager.\<close>

definition engine_lookup :: "(string \<times> 'd) list \<Rightarrow> (string \<Rightarrow> binary option) \<Rightarrow> (string \<Rightarrow> 'd answer) \<Rightarrow> string \<Rightarrow>
    'd module_manager \<Rightarrow> 'd option \<times> 'd module_manager" where
  "engine_lookup drivers found ans engineType m = registry_lookup
     \<lparr>rg_drivers = drivers, rg_resolver = Some (\<lambda>ty. manager_lookup (found ty) (ans ty) ty)\<rparr> engineType m"

definition warm :: "string \<Rightarrow> 'd \<Rightarrow> 'd module_manager \<Rightarrow> bool" where
  "warm ty d m = (\<exists>h. map_of (mm_hosts m) ty = Some h \<and> host_alive h (mm_system m) \<and> ho_driver h = d)"

lemma lookup_warm: "warm ty d m \<Longrightarrow> found ty = Some b \<Longrightarrow> engine_lookup drivers found ans ty m = (Some d, m)"
  by (cases b) (auto simp: warm_def engine_lookup_def registry_lookup_def manager_lookup_def manager_driver_def)

definition cooled :: "string \<Rightarrow> 'd module_manager \<Rightarrow> 'd module_manager" where
  "cooled ty m = (case map_of (mm_hosts m) ty of
     None \<Rightarrow> m
   | Some h \<Rightarrow> m\<lparr>mm_hosts := mdel ty (mm_hosts m), mm_system := host_close h (mm_system m)\<rparr>)"

lemma driver_cold: "\<nexists>d. warm ty d m \<Longrightarrow> manager_driver (Some (path, env)) ans ty m = launch_into ans path ty (cooled ty m)"
  by (auto simp: manager_driver_def cooled_def warm_def split: option.split)

lemma cooled_hosts: "map_of (mm_hosts (cooled ty m)) ty = None"
  by (simp add: cooled_def split: option.split)

lemma cooled_system: "\<nexists>d. warm ty d m \<Longrightarrow> mm_system (cooled ty m) = mm_system m"
  by (auto simp: cooled_def warm_def host_close_def host_alive_def kill_process_def split: option.split)

lemma next_not_running: "manager_inv m \<Longrightarrow> sy_next (mm_system m) \<notin> sy_running (mm_system m)"
  unfolding manager_inv_def by (blast dest: pool_okD(1) pool_okD(2)[THEN less_imp_neq])

lemma launch_yields: "launch_into (Yields d) path ty m = ((Some d, True, None),
    m\<lparr>mm_failed := mdel ty (mm_failed m), mm_hosts := mput ty \<lparr>ho_process = sy_next (mm_system m), ho_driver = d\<rparr> (mm_hosts m),
      mm_system := \<lparr>sy_running = insert (sy_next (mm_system m)) (sy_running (mm_system m)), sy_next = Suc (sy_next (mm_system m))\<rparr>\<rparr>)"
  by (simp add: launch_defs)

lemma launch_fails:
  assumes "\<forall>d. ans \<noteq> Yields d"
  shows "\<exists>e. launch_into ans path ty m = ((None, True, Some (ty, e)),
    m\<lparr>mm_failed := mput ty (ty, e) (mm_failed m),
      mm_system := \<lparr>sy_running = sy_running (mm_system m) - {sy_next (mm_system m)}, sy_next = Suc (sy_next (mm_system m))\<rparr>\<rparr>)"
  using assms by (cases ans) (simp_all add: launch_defs)

text \<open>C36. What a request for an engine gets, in any reachable state: with no module of that type, the
  engine compiled in, and no old launch failure is left to report; with a warm module, its driver and
  nothing is started; with none, the module is started and serves, or, if it does not launch, no process
  of it is left running, the engine compiled in answers, and the reason is kept for the user.\<close>

theorem engine_lookup_serves:
  assumes "manager_reachable n m"
  shows "case found ty of
      None \<Rightarrow> \<exists>m'. engine_lookup drivers found ans ty m = (map_of drivers ty, m') \<and> mm_system m' = mm_system m
        \<and> launch_error_of ty m' = None
    | Some (path, env) \<Rightarrow>
        (\<forall>d. warm ty d m \<longrightarrow> engine_lookup drivers found ans ty m = (Some d, m)) \<and>
        ((\<nexists>d. warm ty d m) \<longrightarrow> (\<exists>m'. (case ans ty of
            Yields d \<Rightarrow> engine_lookup drivers found ans ty m = (Some d, m') \<and> warm ty d m' \<and> launch_error_of ty m' = None
              \<and> sy_running (mm_system m') = insert (sy_next (mm_system m)) (sy_running (mm_system m))
          | _ \<Rightarrow> engine_lookup drivers found ans ty m = (map_of drivers ty, m') \<and> (\<exists>e. launch_error_of ty m' = Some (ty, e))
              \<and> sy_running (mm_system m') = sy_running (mm_system m))))"
proof (cases "found ty")
  case None
  then show ?thesis
    by (simp add: engine_lookup_def registry_lookup_def manager_lookup_def manager_driver_def launch_error_of_def)
next
  case (Some b)
  obtain path env where b: "b = (path, env)" by (cases b)
  have i: "manager_inv m" using manager_reachable_inv[OF assms] .
  note look = engine_lookup_def registry_lookup_def manager_lookup_def Some b
  have cold: "\<exists>m'. (case ans ty of
            Yields d \<Rightarrow> engine_lookup drivers found ans ty m = (Some d, m') \<and> warm ty d m' \<and> launch_error_of ty m' = None
              \<and> sy_running (mm_system m') = insert (sy_next (mm_system m)) (sy_running (mm_system m))
          | _ \<Rightarrow> engine_lookup drivers found ans ty m = (map_of drivers ty, m') \<and> (\<exists>e. launch_error_of ty m' = Some (ty, e))
              \<and> sy_running (mm_system m') = sy_running (mm_system m))" if c: "\<nexists>d. warm ty d m"
  proof (cases "\<exists>d. ans ty = Yields d")
    case True
    then show ?thesis
      using cooled_system[OF c]
      by (auto simp: look driver_cold[OF c] launch_yields warm_def host_alive_def launch_error_of_def)
  next
    case False
    then obtain e where e: "launch_into (ans ty) path ty (cooled ty m) = ((None, True, Some (ty, e)),
        (cooled ty m)\<lparr>mm_failed := mput ty (ty, e) (mm_failed (cooled ty m)),
          mm_system := \<lparr>sy_running = sy_running (mm_system m) - {sy_next (mm_system m)}, sy_next = Suc (sy_next (mm_system m))\<rparr>\<rparr>)"
      using launch_fails[of "ans ty" path ty "cooled ty m"] cooled_system[OF c] by auto
    with False next_not_running[OF i] show ?thesis
      by (cases "ans ty") (simp_all add: look driver_cold[OF c] launch_error_of_def)
  qed
  show ?thesis using lookup_warm[of ty _ m found "(path, env)" drivers ans] cold Some b by simp
qed

text \<open>A module that dies, then fails to start: the engine compiled in takes over, with the reason kept.\<close>

definition crashed_manager :: "string module_manager" where
  "crashed_manager = (let m1 = snd (manager_driver (Some (''/bin/pg'', None)) (Yields ''module'') ''postgres'' (new_module_manager (fresh_system 7)))
     in m1\<lparr>mm_system := kill_process 7 (mm_system m1)\<rparr>)"

lemma crashed_reachable: "manager_reachable 7 crashed_manager"
  unfolding manager_reachable_def crashed_manager_def Let_def
  by (rule rtranclp.rtrancl_into_rtrancl, rule rtranclp.rtrancl_into_rtrancl, rule rtranclp.rtrancl_refl, rule asked, rule exited)

lemma no_module_process_leaks_witness:
  "sy_running (mm_system (manager_close crashed_manager)) = {} \<and> map_of (mm_hosts crashed_manager) ''postgres'' \<noteq> None"
  using no_module_process_leaks[OF crashed_reachable]
  by (simp add: crashed_manager_def manager_driver_def launch_yields new_module_manager_def)

definition broken_binary :: "string \<Rightarrow> string answer" where
  "broken_binary ty = HandshakeFails ''Unrecognized remote plugin message: #!/bin/sh''"

lemma engine_lookup_serves_witness:
  "\<exists>m' e. engine_lookup [(''postgres'', ''in-tree'')] (\<lambda>ty. Some (''/bin/pg'', None)) broken_binary ''postgres'' crashed_manager
     = (Some ''in-tree'', m') \<and> launch_error_of ''postgres'' m' = Some (''postgres'', e) \<and> sy_running (mm_system m') = {}"
proof -
  have c: "\<nexists>d. warm ''postgres'' d crashed_manager" "sy_running (mm_system crashed_manager) = {}"
    by (auto simp: crashed_manager_def manager_driver_def launch_yields new_module_manager_def
      warm_def host_alive_def kill_process_def fresh_system_def)
  then show ?thesis
    using engine_lookup_serves[OF crashed_reachable, where found = "\<lambda>ty. Some (''/bin/pg'', None)" and ty = "''postgres''"
      and drivers = "[(''postgres'', ''in-tree'')]" and ans = broken_binary]
    by (auto simp: broken_binary_def)
qed

end
