(* ===== verification/Harness.thy ===== *)
theory Harness
  imports Diag Broker
begin

text \<open>
  The acceptance harness of \<open>enginetest/enginetest.go\<close>: starting the processes of a driver's plan in
  dependency order, each behind its readiness probe, booting an instance straight from its driver,
  and stopping it. The operating system is a record of functions over a world that the driver's
  methods change too; time is in nanoseconds. A nil environment and an empty one are the same, as they
  are once a plan has crossed the wire. \<open>t.Fatalf\<close> and \<open>t.Skipf\<close> are results.
\<close>

section \<open>The machine\<close>

record command =
  cm_bin :: string
  cm_args :: "string list"
  cm_dir :: string
  cm_env :: "string list"
  cm_group :: bool

record process =
  pr_command :: command
  pr_pid :: int

record 'w machine =
  mc_environ :: "string list"
  mc_start :: "command \<Rightarrow> ('w, string + int) act"
  mc_run :: "command \<Rightarrow> ('w, string option) act"
  mc_dial :: "string \<Rightarrow> string \<Rightarrow> ('w, bool) act"
  mc_get :: "string \<Rightarrow> ('w, bool) act"
  mc_log :: "'w \<Rightarrow> int \<Rightarrow> string"
  mc_now :: "'w \<Rightarrow> int"
  mc_sleep :: "int \<Rightarrow> 'w \<Rightarrow> 'w"

datatype fatal =
    StartFailed string string string
  | NeverReady string string string string
  | HookFailed string string
  | SpawnDeadlock "string list"
  | NoSpawner string
  | PlanFailed go_error
  | ParseFailed string
  | HostPlatform platform_error
  | ResolveFailed string go_error
  | NoFreePort string
  | SocketDirFailed string
  | NoDecoder string
  | DecodeFailed string
  | ProvisionFailed string go_error
  | NoConverger string
  | ConvergeFailed go_error
  | NoPruner string
  | PruneFailed go_error
  | NoDescriber string
  | NoExample string
  | NoExampleBlock string string
  | StripFailed string

section \<open>Starting one spec\<close>

definition environment :: "'w machine \<Rightarrow> string list \<Rightarrow> string list \<Rightarrow> string list" where
  "environment mc env extra = (if env = [] then mc_environ mc else env) @ extra"

definition spec_command :: "'w machine \<Rightarrow> string list \<Rightarrow> spawn_spec \<Rightarrow> command" where
  "spec_command mc extra spec = \<lparr>cm_bin = ss_bin spec, cm_args = ss_args spec, cm_dir = ss_dir spec,
     cm_env = environment mc (ss_env spec) extra, cm_group = ss_tree spec\<rparr>"

definition start_spec :: "'w machine \<Rightarrow> string list \<Rightarrow> spawn_spec \<Rightarrow> 'w \<Rightarrow> process list \<Rightarrow>
    fatal option \<times> 'w \<times> process list" where
  "start_spec mc extra spec w ps = (case mc_start mc (spec_command mc extra spec) w of
     (Inl e, w1) \<Rightarrow> (Some (StartFailed (ss_name spec) (ss_bin spec) e), w1, ps)
   | (Inr pid, w1) \<Rightarrow> (None, w1, ps @ [\<lparr>pr_command = spec_command mc extra spec, pr_pid = pid\<rparr>]))"

definition shell :: "'w machine \<Rightarrow> string \<Rightarrow> command" where
  "shell mc script = \<lparr>cm_bin = ''sh'', cm_args = [''-c'', script], cm_dir = [], cm_env = mc_environ mc, cm_group = False\<rparr>"

definition logs_contain :: "'w machine \<Rightarrow> process list \<Rightarrow> string \<Rightarrow> 'w \<Rightarrow> bool" where
  "logs_contain mc ps sub w = list_ex (\<lambda>p. contains_sub (mc_log mc w (pr_pid p)) sub) ps"

text \<open>\<open>tailLogs\<close>: what the processes wrote, in the order they were started. A \<open>bufio.Scanner\<close> gives the lines without
  their ends and stops at one that does not fit its buffer of 64 KiB.\<close>

definition scan_lines :: "string \<Rightarrow> string list" where
  "scan_lines s = (let parts = split_on (CHR 0x0A) s; ls = (if last parts = [] then butlast parts else parts) in
     map (\<lambda>l. if l \<noteq> [] \<and> last l = CHR 0x0D then butlast l else l) (takeWhile (\<lambda>l. length l < 65536) ls))"

fun tail_logs_from :: "nat \<Rightarrow> string list \<Rightarrow> string" where
  "tail_logs_from i [] = []"
| "tail_logs_from i (l # ls) = ''--- spec '' @ dec_nat i @ '' log ---'' @ [CHR 0x0A]
     @ concat (map (\<lambda>t. ''  '' @ t @ [CHR 0x0A]) (scan_lines l)) @ tail_logs_from (Suc i) ls"

definition tail_logs :: "'w machine \<Rightarrow> process list \<Rightarrow> 'w \<Rightarrow> string" where
  "tail_logs mc ps w = tail_logs_from 0 (map (\<lambda>p. mc_log mc w (pr_pid p)) ps)"

definition probe :: "'w machine \<Rightarrow> process list \<Rightarrow> ready \<Rightarrow> ('w, bool) act" where
  "probe mc ps r w =
     (if rd_kind r = ''exec'' then (case mc_run mc (shell mc (rd_target r)) w of (e, w1) \<Rightarrow> (e = None, w1))
      else if rd_kind r = ''tcp'' then mc_dial mc ''tcp'' (rd_target r) w
      else if rd_kind r = ''socket'' then mc_dial mc ''unix'' (rd_target r) w
      else if rd_kind r = ''http'' then mc_get mc (rd_target r) w
      else if rd_kind r = ''log_line'' then (logs_contain mc ps (rd_target r) w, w)
      else (False, w))"

definition millisecond :: int where "millisecond = 1000000"

text \<open>The polling loop; a clock that stands still would never end it.\<close>

partial_function (option) poll_ready ::
  "'w machine \<Rightarrow> process list \<Rightarrow> ready \<Rightarrow> int \<Rightarrow> 'w \<Rightarrow> (bool \<times> 'w) option" where
  "poll_ready mc ps r deadline w =
     (if mc_now mc w < deadline then
        (case probe mc ps r w of (ok, w1) \<Rightarrow>
           if ok then Some (True, w1)
           else poll_ready mc ps r deadline (mc_sleep mc (250 * millisecond) w1))
      else Some (False, w))"

definition wait_ready ::
  "'w machine \<Rightarrow> process list \<Rightarrow> spawn_spec \<Rightarrow> int \<Rightarrow> 'w \<Rightarrow> (fatal option \<times> 'w) option" where
  "wait_ready mc ps spec deadline w = (case ss_ready spec of
     None \<Rightarrow> Some (None, mc_sleep mc (200 * millisecond) w)
   | Some r \<Rightarrow> (case poll_ready mc ps r deadline w of
       None \<Rightarrow> None
     | Some (ok, w1) \<Rightarrow> Some (if ok then None else Some (NeverReady (ss_name spec) (rd_kind r) (rd_target r) (tail_logs mc ps w1)), w1)))"

definition hook_command :: "'w machine \<Rightarrow> string list \<Rightarrow> spawn_spec \<Rightarrow> string \<Rightarrow> command" where
  "hook_command mc extra spec h = \<lparr>cm_bin = ''sh'', cm_args = [''-c'', h], cm_dir = ss_dir spec,
     cm_env = environment mc (ss_env spec) extra, cm_group = False\<rparr>"

fun run_hooks :: "'w machine \<Rightarrow> string list \<Rightarrow> spawn_spec \<Rightarrow> string list \<Rightarrow> 'w \<Rightarrow> fatal option \<times> 'w" where
  "run_hooks mc extra spec [] w = (None, w)"
| "run_hooks mc extra spec (h # hs) w = (case mc_run mc (hook_command mc extra spec h) w of
     (Some e, w1) \<Rightarrow> (Some (HookFailed h e), w1)
   | (None, w1) \<Rightarrow> run_hooks mc extra spec hs w1)"

text \<open>One turn of the loop: start, wait, hooks.\<close>

definition boot_spec :: "'w machine \<Rightarrow> string list \<Rightarrow> int \<Rightarrow> spawn_spec \<Rightarrow> 'w \<Rightarrow> process list \<Rightarrow>
    (fatal option \<times> 'w \<times> process list) option" where
  "boot_spec mc extra deadline spec w ps = (case start_spec mc extra spec w ps of
     (Some f, w1, ps1) \<Rightarrow> Some (Some f, w1, ps1)
   | (None, w1, ps1) \<Rightarrow> (case wait_ready mc ps1 spec deadline w1 of
       None \<Rightarrow> None
     | Some (Some f, w2) \<Rightarrow> Some (Some f, w2, ps1)
     | Some (None, w2) \<Rightarrow> (case run_hooks mc extra spec (ss_hooks spec) w2 of (f, w3) \<Rightarrow> Some (f, w3, ps1))))"

section \<open>The spawn loop\<close>

definition deps_ready :: "spawn_spec \<Rightarrow> string list \<Rightarrow> bool" where
  "deps_ready spec ready = list_all (\<lambda>d. d \<in> set ready) (ss_after spec)"

definition spec_names :: "spawn_spec list \<Rightarrow> string list" where
  "spec_names specs = map ss_name specs"

text \<open>Each round takes the first of the remaining specs whose dependencies are ready.\<close>

function spawn_loop :: "'w machine \<Rightarrow> string list \<Rightarrow> int \<Rightarrow> string list \<Rightarrow> spawn_spec list \<Rightarrow> 'w \<Rightarrow> process list \<Rightarrow>
    (fatal option \<times> 'w \<times> process list) option" where
  "spawn_loop mc extra deadline ready remaining w ps =
     (if remaining = [] then Some (None, w, ps)
      else (case List.extract (\<lambda>spec. deps_ready spec ready) remaining of
          None \<Rightarrow> Some (Some (SpawnDeadlock (spec_names remaining)), w, ps)
        | Some (pre, spec, post) \<Rightarrow> (case boot_spec mc extra deadline spec w ps of
            None \<Rightarrow> None
          | Some (Some f, w1, ps1) \<Rightarrow> Some (Some f, w1, ps1)
          | Some (None, w1, ps1) \<Rightarrow> spawn_loop mc extra deadline (ss_name spec # ready) (pre @ post) w1 ps1)))"
  by pat_completeness auto

termination
  by (relation "measure (\<lambda>(mc, extra, deadline, ready, remaining, w, ps). length remaining)")
    (auto simp: extract_Some_iff)

declare spawn_loop.simps [simp del]

definition spawn_plan_run :: "'w machine \<Rightarrow> string list \<Rightarrow> int \<Rightarrow> spawn_plan \<Rightarrow> 'w \<Rightarrow> process list \<Rightarrow>
    (fatal option \<times> 'w \<times> process list) option" where
  "spawn_plan_run mc extra timeout plan w ps =
     spawn_loop mc extra (mc_now mc w + timeout) [] (sp_specs plan) w ps"

section \<open>Booting an instance\<close>

text \<open>\<open>Resolve\<close> is handed a lock that holds nothing and a fetcher that always fails.\<close>

definition noop_get :: "unit \<Rightarrow> string \<Rightarrow> string \<Rightarrow> (pin \<times> bool) go" where
  "noop_get lk eng spec = Ret (zero_pin, False)"

definition noop_record :: "unit \<Rightarrow> string \<Rightarrow> string \<Rightarrow> pin \<Rightarrow> unit" where
  "noop_record lk eng spec pin = lk"

definition err_fetch :: go_error where
  "err_fetch = Plain (''enginetest: no network fetch '' @ [CHR 0xE2, CHR 0x80, CHR 0x94] @ '' set DOZE_<ENGINE>_BINDIR'')"

definition err_fetcher :: fetcher where
  "err_fetcher = \<lparr>fc_major = (\<lambda>eng major. Inl err_fetch), fc_ensure = (\<lambda>eng full plat sha. Inl err_fetch)\<rparr>"

record options =
  op_version :: string
  op_name :: string
  op_port :: int
  op_env :: "string list"
  op_timeout :: int

record 'w testbed =
  tb_machine :: "'w machine"
  tb_getenv :: "string \<Rightarrow> string"
  tb_goos :: string
  tb_goarch :: string
  tb_listen :: "('w, string + int) act"
  tb_temp_dir :: "('w, string) act"
  tb_mkdir :: "string \<Rightarrow> ('w, string option) act"

record 'v backend =
  bd_instance :: "'v inst"
  bd_toolchain :: toolchain
  bd_base_dir :: string
  bd_procs :: "process list"

datatype 'v outcome = Skipped string | Failed fatal "process list" | Booted "'v backend"

type_synonym resolve_fn = "(unit \<Rightarrow> string \<Rightarrow> string \<Rightarrow> (pin \<times> bool) go) \<Rightarrow> (unit \<Rightarrow> string \<Rightarrow> string \<Rightarrow> pin \<Rightarrow> unit) \<Rightarrow>
  fetcher \<Rightarrow> string \<Rightarrow> platform \<Rightarrow> go_error + toolchain"

type_synonym ('d, 'c, 'v) decode_fn = "'d \<Rightarrow> 'c gomap \<Rightarrow> string \<Rightarrow> string \<Rightarrow> 'v decoded"

definition boot_timeout :: "int \<Rightarrow> int option \<Rightarrow> int" where
  "boot_timeout timeout budget = (if timeout \<noteq> 0 then timeout
     else let t = 90000 * millisecond in (case budget of None \<Rightarrow> t | Some b \<Rightarrow> if b > t then b else t))"

text \<open>\<open>freePort\<close>: the port of a listener on any port, closed again.\<close>

definition free_port :: "'w testbed \<Rightarrow> ('w, fatal + int) act" where
  "free_port tb w = (case tb_listen tb w of (Inl e, w1) \<Rightarrow> (Inl (NoFreePort e), w1) | (Inr port, w1) \<Rightarrow> (Inr port, w1))"

definition decode_body :: "('v, 'c, 'w) driver \<Rightarrow> ('d, 'c, 'v) decode_fn option \<Rightarrow> (diag list \<Rightarrow> string) \<Rightarrow> 'd \<Rightarrow> string \<Rightarrow> string \<Rightarrow>
    fatal + 'v spec_val" where
  "decode_body drv decoder text body base version = (case decoder of
     None \<Rightarrow> Inl (NoDecoder (dr_type drv))
   | Some dec \<Rightarrow> (case dec body [] base version of
       Decoded spec \<Rightarrow> Inr spec
     | FailedAt ds \<Rightarrow> Inl (DecodeFailed (text ds))
     | Diag.Failed e \<Rightarrow> Inl (DecodeFailed e)))"

definition converge_body :: "('v, 'c, 'w) driver \<Rightarrow> ('d, 'c, 'v) decode_fn option \<Rightarrow> (diag list \<Rightarrow> string) \<Rightarrow> 'd \<Rightarrow>
    'v backend \<Rightarrow> 'w \<Rightarrow> fatal option \<times> 'v backend \<times> 'w" where
  "converge_body drv decoder text body b w = (case dr_converge drv of
     None \<Rightarrow> (Some (NoConverger (dr_type drv)), b, w)
   | Some converge \<Rightarrow> (case decode_body drv decoder text body (bd_base_dir b) (in_version (bd_instance b)) of
       Inl f \<Rightarrow> (Some f, b, w)
     | Inr spec \<Rightarrow>
        (let inst = (bd_instance b)\<lparr>in_spec := spec\<rparr>; b1 = b\<lparr>bd_instance := inst\<rparr> in
         case converge inst (bd_toolchain b) (in_endpoint inst) w of
           (Some e, w1) \<Rightarrow> (Some (ConvergeFailed e), b1, w1)
         | (None, w1) \<Rightarrow> (None, b1, w1))))"

text \<open>\<open>Converge\<close>: the same from a source text.\<close>

definition converge_src :: "('f, 'b, 'd) hcl \<Rightarrow> ('f \<Rightarrow> 'd) \<Rightarrow> ('v, 'c, 'w) driver \<Rightarrow> ('d, 'c, 'v) decode_fn option \<Rightarrow> string \<Rightarrow>
    'v backend \<Rightarrow> 'w \<Rightarrow> fatal option \<times> 'v backend \<times> 'w" where
  "converge_src hx body_of drv decoder src b w =
     (let (f, ds) = hx_parse hx src ''acc.hcl'' in
      if has_errors ds then (Some (ParseFailed (hx_error hx ds)), b, w)
      else converge_body drv decoder (hx_error hx) (body_of f) b w)"

definition spawn :: "'w machine \<Rightarrow> ('v, 'c, 'w) driver \<Rightarrow> string list \<Rightarrow> int \<Rightarrow> 'v backend \<Rightarrow> 'w \<Rightarrow>
    (fatal option \<times> 'w \<times> process list) option" where
  "spawn mc drv extra timeout b w = (case dr_plan drv of
     None \<Rightarrow> Some (Some (NoSpawner (dr_type drv)), w, bd_procs b)
   | Some plan \<Rightarrow> (case plan (bd_instance b) (bd_toolchain b) w of
       (Inl e, w1) \<Rightarrow> Some (Some (PlanFailed e), w1, bd_procs b)
     | (Inr sp, w1) \<Rightarrow> spawn_plan_run mc extra timeout sp w1 (bd_procs b)))"

text \<open>\<open>bootBody\<close> from the provisioning on: spawn, and converge where the driver can.\<close>

definition boot_provisioned :: "'w testbed \<Rightarrow> ('v, 'c, 'w) driver \<Rightarrow> ('d, 'c, 'v) decode_fn option \<Rightarrow> (diag list \<Rightarrow> string) \<Rightarrow>
    options \<Rightarrow> 'd \<Rightarrow> 'v backend \<Rightarrow> 'w \<Rightarrow> ('v outcome \<times> 'w) option" where
  "boot_provisioned tb drv decoder text opts body b w =
     (case dr_provision drv (bd_instance b) (bd_toolchain b) w of
        (Some e, w1) \<Rightarrow> Some (Failed (ProvisionFailed (dr_type drv) e) [], w1)
      | (None, w1) \<Rightarrow> (case spawn (tb_machine tb) drv (op_env opts) (boot_timeout (op_timeout opts) (dr_boot_budget drv)) b w1 of
          None \<Rightarrow> None
        | Some (Some f, w2, ps) \<Rightarrow> Some (Failed f ps, w2)
        | Some (None, w2, ps) \<Rightarrow>
           (let b1 = b\<lparr>bd_procs := ps\<rparr> in
            if dr_converge drv = None then Some (Booted b1, w2)
            else (case converge_body drv decoder text body b1 w2 of
                (Some f, b2, w3) \<Rightarrow> Some (Failed f ps, w3)
              | (None, b2, w3) \<Rightarrow> Some (Booted b2, w3)))))"

definition boot_body :: "'w testbed \<Rightarrow> ('v, 'c, 'w) driver \<Rightarrow> resolve_fn \<Rightarrow> ('d, 'c, 'v) decode_fn option \<Rightarrow>
    (diag list \<Rightarrow> string) \<Rightarrow> options \<Rightarrow> 'd \<Rightarrow> 'w \<Rightarrow> ('v outcome \<times> 'w) option" where
  "boot_body tb drv resolve decoder text opts body w =
     (let binEnv = ''DOZE_'' @ to_upper (dr_type drv) @ ''_BINDIR'';
          name = (if op_name opts = [] then ''acc'' else op_name opts) in
      if tb_getenv tb binEnv = [] then Some (Skipped binEnv, w)
      else (case (if op_port opts = 0 then free_port tb w else (Inr (op_port opts), w)) of
          (Inl f, w1) \<Rightarrow> Some (Failed f [], w1)
        | (Inr port, w1) \<Rightarrow>
        (case host_platform (tb_goos tb) (tb_goarch tb) of
           Inl e \<Rightarrow> Some (Failed (HostPlatform e) [], w1)
         | Inr plat \<Rightarrow> (case resolve noop_get noop_record err_fetcher (op_version opts) plat of
             Inl e \<Rightarrow> Some (Failed (ResolveFailed (dr_type drv) e) [], w1)
           | Inr tc \<Rightarrow> (case tb_temp_dir tb w1 of (base, w2) \<Rightarrow>
              (let sockets = join_path [base, ''sock''] in
               case dr_backend_socket drv sockets port w2 of (sock, w3) \<Rightarrow>
               (case tb_mkdir tb sockets w3 of
                  (Some e, w4) \<Rightarrow> Some (Failed (SocketDirFailed e) [], w4)
                | (None, w4) \<Rightarrow> (case decode_body drv decoder text body base (op_version opts) of
                    Inl f \<Rightarrow> Some (Failed f [], w4)
                  | Inr spec \<Rightarrow> boot_provisioned tb drv decoder text opts body
                      \<lparr>bd_instance = \<lparr>in_name = name, in_type = dr_type drv, in_version = op_version opts,
                          in_data_dir = join_path [base, ''data''], in_socket_dir = sockets, in_port = port,
                          in_endpoint = \<lparr>ep_unix_socket = [], ep_tcp_addr = [], ep_backend = sock\<rparr>, in_spec = spec,
                          in_deps = [], in_toolchain = zero_toolchain, in_grant = zero_grant\<rparr>,
                       bd_toolchain = tc, bd_base_dir = base, bd_procs = []\<rparr> w4))))))))"

text \<open>\<open>Boot\<close> and \<open>BootExample\<close>: a parsed string, or the block of the driver's own example without the
  arguments doze keeps for itself.\<close>

definition boot :: "('f, 'b, 'd) hcl \<Rightarrow> ('f \<Rightarrow> 'd) \<Rightarrow> 'w testbed \<Rightarrow> ('v, 'c, 'w) driver \<Rightarrow> resolve_fn \<Rightarrow> ('d, 'c, 'v) decode_fn option \<Rightarrow>
    string \<Rightarrow> options \<Rightarrow> 'w \<Rightarrow> ('v outcome \<times> 'w) option" where
  "boot hx body_of tb drv resolve decoder src opts w =
     (let (file, ds) = hx_parse hx src ''acc.hcl'' in
      if has_errors ds then Some (Failed (ParseFailed (hx_error hx ds)) [], w)
      else boot_body tb drv resolve decoder (hx_error hx) opts (body_of file) w)"

definition boot_example :: "('f, 'b, 'd) hcl \<Rightarrow> 'w testbed \<Rightarrow> ('v, 'c, 'w) driver \<Rightarrow> resolve_fn \<Rightarrow> ('d, 'c, 'v) decode_fn option \<Rightarrow>
    description option \<Rightarrow> string \<Rightarrow> 'w \<Rightarrow> ('v outcome \<times> 'w) option" where
  "boot_example hx tb drv resolve decoder describes version w = (case describes of
     None \<Rightarrow> Some (Failed (NoDescriber (dr_type drv)) [], w)
   | Some desc \<Rightarrow>
      if ds_example desc = [] then Some (Failed (NoExample (dr_type drv)) [], w)
      else (let (file, ds1) = hx_parse hx (ds_example desc) ''example.hcl'' in
        if has_errors ds1 then Some (Failed (ParseFailed (hx_error hx ds1)) [], w)
        else (let (blocks, ds2) = hx_blocks hx file (dr_type drv) in
          if has_errors ds2 \<or> blocks = [] then Some (Failed (NoExampleBlock (dr_type drv) (hx_error hx ds2)) [], w)
          else (let block = hd blocks; (remain, ds3) = hx_strip hx block core_arguments in
            if has_errors ds3 then Some (Failed (StripFailed (hx_error hx ds3)) [], w)
            else boot_body tb drv resolve decoder (hx_error hx)
              \<lparr>op_version = version, op_name = hd (hx_labels hx block), op_port = 0, op_env = [], op_timeout = 0\<rparr> remain w))))"

definition backend_objects :: "('v, 'c, 'w) driver \<Rightarrow> 'v backend \<Rightarrow> ('w, object_rec list) act" where
  "backend_objects drv b w = (case dr_objects drv of None \<Rightarrow> ([], w) | Some objects \<Rightarrow> objects (bd_instance b) w)"

definition backend_prune :: "('v, 'c, 'w) driver \<Rightarrow> 'v backend \<Rightarrow> object_rec list \<Rightarrow> ('w, fatal option) act" where
  "backend_prune drv b removed w = (case dr_prune drv of
     None \<Rightarrow> (Some (NoPruner (dr_type drv)), w)
   | Some prune \<Rightarrow> (case prune (bd_instance b) (bd_toolchain b) (in_endpoint (bd_instance b)) removed w of
       (Some e, w1) \<Rightarrow> (Some (PruneFailed e), w1)
     | (None, w1) \<Rightarrow> (None, w1)))"

text \<open>\<open>stop\<close>, the cleanup of every boot that got to spawning: the signals it sends, a negative number
  meaning a group, when the processes do or do not exit within five seconds.\<close>

datatype signal = SigTerm int | SigKill int

definition term_signals :: "process \<Rightarrow> signal list" where
  "term_signals p = (if cm_group (pr_command p) then [SigTerm (- pr_pid p)] else []) @ [SigTerm (pr_pid p)]"

definition stop_signals :: "bool \<Rightarrow> process list \<Rightarrow> signal list" where
  "stop_signals exits ps = concat (map term_signals ps) @ (if exits then [] else map (\<lambda>p. SigKill (pr_pid p)) ps)"

section \<open>The loop is a boot in dependency order\<close>

text \<open>The reference: the specs of a list one after the other, and a list in which what each spec comes
  after is ready by then.\<close>

fun boot_sequence :: "'w machine \<Rightarrow> string list \<Rightarrow> int \<Rightarrow> spawn_spec list \<Rightarrow> 'w \<Rightarrow> process list \<Rightarrow>
    (fatal option \<times> 'w \<times> process list) option" where
  "boot_sequence mc extra deadline [] w ps = Some (None, w, ps)"
| "boot_sequence mc extra deadline (s # ss) w ps = (case boot_spec mc extra deadline s w ps of
     None \<Rightarrow> None
   | Some (Some f, w1, ps1) \<Rightarrow> Some (Some f, w1, ps1)
   | Some (None, w1, ps1) \<Rightarrow> boot_sequence mc extra deadline ss w1 ps1)"

fun in_dep_order :: "string list \<Rightarrow> spawn_spec list \<Rightarrow> bool" where
  "in_dep_order ready [] = True"
| "in_dep_order ready (s # ss) = (set (ss_after s) \<subseteq> set ready \<and> in_dep_order (ss_name s # ready) ss)"

definition stuck :: "string list \<Rightarrow> spawn_spec list \<Rightarrow> bool" where
  "stuck ready rest = (rest \<noteq> [] \<and> (\<forall>s\<in>set rest. \<not> set (ss_after s) \<subseteq> set ready))"

lemma deps_ready_iff: "deps_ready s ready \<longleftrightarrow> set (ss_after s) \<subseteq> set ready"
  by (auto simp: deps_ready_def list_all_iff)

lemma spawn_loop_cases:
  "spawn_loop mc extra deadline ready remaining w ps = Some (r, w', ps') \<Longrightarrow>
   \<exists>order rest. mset remaining = mset (order @ rest) \<and> in_dep_order ready order \<and>
     (rest = [] \<and> r = None \<and> boot_sequence mc extra deadline order w ps = Some (None, w', ps')
      \<or> stuck (rev (spec_names order) @ ready) rest \<and> r = Some (SpawnDeadlock (spec_names rest))
         \<and> boot_sequence mc extra deadline order w ps = Some (None, w', ps')
      \<or> (\<exists>f. r = Some f \<and> boot_sequence mc extra deadline order w ps = Some (Some f, w', ps')))"
proof (induction mc extra deadline ready remaining w ps rule: spawn_loop.induct)
  case (1 mc extra deadline ready remaining w ps)
  show ?case
  proof (cases "remaining = []")
    case True
    with 1(2) show ?thesis by (intro exI[of _ "[]"]) (simp add: spawn_loop.simps)
  next
    case False
    show ?thesis
    proof (cases "List.extract (\<lambda>spec. deps_ready spec ready) remaining")
      case None
      with False 1(2) have "r = Some (SpawnDeadlock (spec_names remaining))" "w' = w" "ps' = ps"
        by (simp_all add: spawn_loop.simps)
      moreover from None False have "stuck ready remaining" by (auto simp: stuck_def extract_None_iff deps_ready_iff)
      ultimately show ?thesis
        by (intro exI[of _ "[]"] exI[of _ remaining]) (simp add: spec_names_def)
    next
      case (Some x)
      obtain pre spec post where x: "x = (pre, spec, post)" by (cases x)
      with Some have rem: "remaining = pre @ spec # post" and dep: "set (ss_after spec) \<subseteq> set ready"
        by (auto simp: extract_Some_iff deps_ready_iff)
      obtain o1 w1 ps1 where b: "boot_spec mc extra deadline spec w ps = Some (o1, w1, ps1)"
        using 1(2) False Some x by (cases "boot_spec mc extra deadline spec w ps") (auto simp: spawn_loop.simps)
      show ?thesis
      proof (cases o1)
        case (Some f)
        with 1(2) False \<open>List.extract _ _ = _\<close> x b have "r = Some f" "w' = w1" "ps' = ps1" by (simp_all add: spawn_loop.simps)
        with b Some rem dep show ?thesis
          by (intro exI[of _ "[spec]"] exI[of _ "pre @ post"]) simp
      next
        case None
        with 1(2) False \<open>List.extract _ _ = _\<close> x b
        have l: "spawn_loop mc extra deadline (ss_name spec # ready) (pre @ post) w1 ps1 = Some (r, w', ps')"
          by (subst (asm) spawn_loop.simps) simp
        obtain order rest where h: "mset (pre @ post) = mset (order @ rest)" "in_dep_order (ss_name spec # ready) order"
          "rest = [] \<and> r = None \<and> boot_sequence mc extra deadline order w1 ps1 = Some (None, w', ps')
           \<or> stuck (rev (spec_names order) @ ss_name spec # ready) rest \<and> r = Some (SpawnDeadlock (spec_names rest))
              \<and> boot_sequence mc extra deadline order w1 ps1 = Some (None, w', ps')
           \<or> (\<exists>f. r = Some f \<and> boot_sequence mc extra deadline order w1 ps1 = Some (Some f, w', ps'))"
          using 1(1)[OF False \<open>List.extract _ _ = _\<close> x[symmetric] refl b refl None refl l] by blast
        then show ?thesis using rem dep b None
          by (intro exI[of _ "spec # order"] exI[of _ rest]) (simp add: spec_names_def)
      qed
    qed
  qed
qed

section \<open>The loop ends\<close>

text \<open>A clock that sleeping moves on and nothing moves back.\<close>

definition clock_ok :: "'w machine \<Rightarrow> bool" where
  "clock_ok mc \<longleftrightarrow> (\<forall>d w. mc_now mc w + d \<le> mc_now mc (mc_sleep mc d w)) \<and>
     (\<forall>ps r w. mc_now mc w \<le> mc_now mc (snd (probe mc ps r w)))"

lemma poll_returns: "clock_ok mc \<Longrightarrow> \<exists>x. poll_ready mc ps r deadline w = Some x"
proof (induction "nat (deadline - mc_now mc w)" arbitrary: w rule: less_induct)
  case less
  show ?case
  proof (cases "mc_now mc w < deadline \<and> \<not> fst (probe mc ps r w)")
    case True
    obtain w1 where p: "probe mc ps r w = (False, w1)" using True by (cases "probe mc ps r w") auto
    let ?w2 = "mc_sleep mc (250 * millisecond) w1"
    have "mc_now mc w \<le> mc_now mc w1" "mc_now mc w1 + 250 * millisecond \<le> mc_now mc ?w2"
      using less(2) p unfolding clock_ok_def by (metis snd_conv)+
    then have "nat (deadline - mc_now mc ?w2) < nat (deadline - mc_now mc w)"
      using True by (simp add: millisecond_def)
    from less(1)[OF this less(2)] show ?thesis using True p by (subst poll_ready.simps) simp
  next
    case False
    then show ?thesis by (subst poll_ready.simps) (auto split: prod.splits)
  qed
qed

lemma poll_not_None: "clock_ok mc \<Longrightarrow> poll_ready mc ps r deadline w \<noteq> None"
  using poll_returns by fastforce

lemma wait_not_None: "clock_ok mc \<Longrightarrow> wait_ready mc ps spec deadline w \<noteq> None"
  by (auto simp: wait_ready_def poll_not_None split: option.splits)

lemma boot_spec_not_None: "clock_ok mc \<Longrightarrow> boot_spec mc extra deadline spec w ps \<noteq> None"
  by (auto simp: boot_spec_def wait_not_None split: option.splits prod.splits)

lemma spawn_loop_returns: "clock_ok mc \<Longrightarrow> \<exists>x. spawn_loop mc extra deadline ready remaining w ps = Some x"
proof (induction mc extra deadline ready remaining w ps rule: spawn_loop.induct)
  case (1 mc extra deadline ready remaining w ps)
  show ?case
  proof (cases "remaining = [] \<or> List.extract (\<lambda>spec. deps_ready spec ready) remaining = None")
    case True
    then show ?thesis by (subst spawn_loop.simps) auto
  next
    case False
    then obtain pre spec post where e: "List.extract (\<lambda>spec. deps_ready spec ready) remaining = Some (pre, spec, post)" by auto
    obtain o1 w1 ps1 where b: "boot_spec mc extra deadline spec w ps = Some (o1, w1, ps1)"
      using boot_spec_not_None[OF 1(2)] by (metis not_Some_eq prod.collapse)
    show ?thesis
    proof (cases o1)
      case None
      have "\<exists>x. spawn_loop mc extra deadline (ss_name spec # ready) (pre @ post) w1 ps1 = Some x"
        using 1(1)[OF _ e refl refl b refl None refl 1(2)] False by blast
      then show ?thesis using False e b None by (subst spawn_loop.simps) simp
    qed (use False e b in \<open>subst spawn_loop.simps, simp\<close>)
  qed
qed

section \<open>What was started\<close>

lemma boot_spec_procs: "boot_spec mc extra deadline s w ps = Some (None, w', ps') \<Longrightarrow>
   map pr_command ps' = map pr_command ps @ [spec_command mc extra s]"
  by (auto simp: boot_spec_def start_spec_def split: prod.splits sum.splits option.splits)

lemma boot_spec_no_deadlock: "boot_spec mc extra deadline s w ps = Some (Some f, w', ps') \<Longrightarrow> f \<noteq> SpawnDeadlock ns"
proof -
  have "run_hooks mc extra s hs w1 = (Some f, w2) \<Longrightarrow> f \<noteq> SpawnDeadlock ns" for hs w1 w2
    by (induction hs arbitrary: w1) (auto split: prod.splits option.splits)
  then show "boot_spec mc extra deadline s w ps = Some (Some f, w', ps') \<Longrightarrow> f \<noteq> SpawnDeadlock ns"
    by (auto simp: boot_spec_def start_spec_def wait_ready_def split: prod.splits sum.splits option.splits if_splits)
qed

lemma boot_sequence_procs: "boot_sequence mc extra deadline order w ps = Some (None, w', ps') \<Longrightarrow>
   map pr_command ps' = map pr_command ps @ map (spec_command mc extra) order"
  by (induction order arbitrary: w ps)
    (auto dest!: boot_spec_procs split: option.splits prod.splits)

lemma boot_sequence_no_deadlock: "boot_sequence mc extra deadline order w ps = Some (Some f, w', ps') \<Longrightarrow> f \<noteq> SpawnDeadlock ns"
  by (induction order arbitrary: w ps) (auto dest: boot_spec_no_deadlock split: option.splits prod.splits)

text \<open>In a plan that got stuck no ordering respects the dependencies: the first spec of it that is not
  yet up would have had its own up.\<close>

lemma ordered_are_up:
  "in_dep_order ready' order \<Longrightarrow> set ready' \<subseteq> set ready \<Longrightarrow> \<forall>s\<in>set order. s \<in> set rest \<or> ss_name s \<in> set ready \<Longrightarrow>
   \<forall>s\<in>set rest. \<not> set (ss_after s) \<subseteq> set ready \<Longrightarrow> set order \<inter> set rest = {}"
proof (induction order arbitrary: ready')
  case (Cons s order)
  then have s: "s \<notin> set rest" by (auto dest: subset_trans)
  with Cons have "set (ss_name s # ready') \<subseteq> set ready" by auto
  with Cons.IH[of "ss_name s # ready'"] Cons.prems have "set order \<inter> set rest = {}" by auto
  with s show ?case by auto
qed simp

definition orderable :: "spawn_spec list \<Rightarrow> bool" where
  "orderable specs = (\<exists>order. mset order = mset specs \<and> in_dep_order [] order)"

lemma stuck_not_orderable:
  assumes "mset specs = mset (up @ rest)" "stuck (rev (spec_names up)) rest"
  shows "\<not> orderable specs"
proof
  assume "orderable specs"
  then obtain order where o: "mset order = mset specs" "in_dep_order [] order" by (auto simp: orderable_def)
  then have s: "set order = set up \<union> set rest" using assms(1) by (metis mset_eq_setD set_append)
  have "set order \<inter> set rest = {}"
    using ordered_are_up[OF o(2), of "rev (spec_names up)" rest] assms(2) s by (auto simp: stuck_def spec_names_def)
  with s assms(2) show False by (auto simp: stuck_def)
qed

section \<open>Properties\<close>

text \<open>C37. A spawn that succeeds has started every spec of the plan once, with its command, in an order in
  which whatever a spec comes after is up and ready before it, and is the same run as booting the
  specs one by one in that order.\<close>

theorem spawn_follows_dependencies:
  assumes "spawn_plan_run mc extra timeout plan w ps = Some (None, w', ps')"
  shows "\<exists>order. mset order = mset (sp_specs plan) \<and> in_dep_order [] order
    \<and> boot_sequence mc extra (mc_now mc w + timeout) order w ps = Some (None, w', ps')
    \<and> map pr_command ps' = map pr_command ps @ map (spec_command mc extra) order"
  using spawn_loop_cases[OF assms[unfolded spawn_plan_run_def]] boot_sequence_procs by fastforce


text \<open>A machine whose world is its clock; its server answers after half a second.\<close>

definition demo_machine :: "int machine" where
  "demo_machine = \<lparr>mc_environ = [''PATH=/bin''], mc_start = (\<lambda>c w. (Inr 42, w)), mc_run = (\<lambda>c w. (None, w)),
     mc_dial = (\<lambda>net addr w. (w \<ge> 500 * millisecond, w)), mc_get = (\<lambda>u w. (True, w)), mc_log = (\<lambda>w p. []),
     mc_now = (\<lambda>w. w), mc_sleep = (\<lambda>d w. w + d)\<rparr>"

lemma demo_clock: "clock_ok demo_machine"
  by (auto simp: clock_ok_def demo_machine_def probe_def)

definition demo_spec :: "string \<Rightarrow> string list \<Rightarrow> ready option \<Rightarrow> spawn_spec" where
  "demo_spec name after rd = \<lparr>ss_name = name, ss_dir = [], ss_bin = ''/bin/'' @ name, ss_args = [], ss_env = [],
     ss_tree = True, ss_after = after, ss_ready = rd, ss_hooks = []\<rparr>"

definition demo_plan :: spawn_plan where
  "demo_plan = \<lparr>sp_specs = [demo_spec ''web'' [''db''] None,
     demo_spec ''db'' [] (Some \<lparr>rd_kind = ''tcp'', rd_target = ''127.0.0.1:5432'', rd_interval = 0, rd_timeout = 0, rd_retries = 0\<rparr>)]\<rparr>"

lemma demo_spawn: "spawn_plan_run demo_machine [] (10000 * millisecond) demo_plan 0 [] = Some (None, 700 * millisecond,
   [\<lparr>pr_command = spec_command demo_machine [] (sp_specs demo_plan ! 1), pr_pid = 42\<rparr>,
    \<lparr>pr_command = spec_command demo_machine [] (sp_specs demo_plan ! 0), pr_pid = 42\<rparr>])"
  by (simp add: spawn_plan_run_def spawn_loop.simps demo_plan_def extract_def dropWhile_eq_Nil_conv demo_spec_def deps_ready_def
    boot_spec_def start_spec_def demo_machine_def wait_ready_def poll_ready.simps probe_def millisecond_def)

lemma spawn_follows_dependencies_witness:
  "\<exists>order. mset order = mset (sp_specs demo_plan) \<and> in_dep_order [] order"
  using spawn_follows_dependencies[OF demo_spawn] by blast

definition circular_plan :: spawn_plan where
  "circular_plan = \<lparr>sp_specs = [demo_spec ''web'' [''db''] None, demo_spec ''db'' [''web''] None]\<rparr>"

lemma circular_not_orderable: "\<not> orderable (sp_specs circular_plan)"
  using stuck_not_orderable[of "sp_specs circular_plan" "[]" "sp_specs circular_plan"]
  by (simp add: stuck_def circular_plan_def demo_spec_def deps_ready_def spec_names_def)


section \<open>Around it\<close>

text \<open>A driver that resolves its binaries through the lock and the fetcher gets neither in the harness.\<close>

lemma harness_never_fetches:
  "\<exists>e. resolve_via noop_get noop_record (\<lambda>eng m. text_result (fc_major err_fetcher eng m))
     (\<lambda>eng v p s. text_result (fc_ensure err_fetcher eng v p s)) () plat eng spec exact = Ret (Inl e, ())"
  by (simp add: resolve_via_def noop_get_def err_fetcher_def text_result_def ensure_and_record_def split: prod.split)

text \<open>Processes that ignore the first signal: the second goes to the process alone, never to its group.\<close>

lemma hard_kill_misses_group:
  "\<forall>p\<in>set ps. pr_pid p > 0 \<Longrightarrow> pid > 0 \<Longrightarrow> SigKill (- pid) \<notin> set (stop_signals exits ps)"
  by (auto simp: stop_signals_def term_signals_def split: if_splits)

lemma every_process_is_told: "p \<in> set ps \<Longrightarrow> SigTerm (pr_pid p) \<in> set (stop_signals exits ps)
    \<and> (cm_group (pr_command p) \<longrightarrow> SigTerm (- pr_pid p) \<in> set (stop_signals exits ps))"
  by (auto simp: stop_signals_def term_signals_def)

end
