(* ===== verification/Startup.thy ===== *)
theory Startup
  imports Steps
begin

text \<open>
  Two things a boot goes through before its processes start. \<open>EnsureTemplateDir\<close> of \<open>engine/template.go\<close>
  builds the provision template that instances are cloned from; boots of several instances run it at
  once, so it is a step relation over the shared directory, with every boot's temporary directory
  and place in the code. \<open>ClearStaleLock\<close> of \<open>engine/stalelock.go\<close> tells a running backend's pid file
  from one a crash left.
\<close>

section \<open>The template\<close>

text \<open>Where a boot is: at the first check, before making its directory, in \<open>init\<close>, at the second check,
  before the rename, after a rename that failed, at the deferred removal, or returned.\<close>

datatype template_phase =
    TCheck | TMake | TInit | TBuilt | TRename | TRefused
  | TLeave "string option" | TDone "string option"

record 'c template_state =
  ts_template :: "'c option"
  ts_temps :: "nat \<Rightarrow> 'c option"
  ts_phase :: "nat \<Rightarrow> template_phase"

text \<open>What a directory holds is a \<open>'c\<close>; \<open>blank\<close> is an empty one's. \<open>ready\<close> is the caller's check and
  \<open>built\<close> what \<open>init\<close> leaves when it succeeds; while it runs it may leave anything. Renaming onto a
  directory that holds something fails, and may always fail.\<close>

inductive template_step :: "('c option \<Rightarrow> bool) \<Rightarrow> ('c \<Rightarrow> bool) \<Rightarrow> 'c \<Rightarrow> 'c template_state \<Rightarrow> 'c template_state \<Rightarrow> bool"
  for ready built blank where
  found: "ts_phase s i = TCheck \<Longrightarrow> ready (ts_template s) \<Longrightarrow>
    template_step ready built blank s (s\<lparr>ts_phase := (ts_phase s)(i := TDone None)\<rparr>)"
| missing: "ts_phase s i = TCheck \<Longrightarrow> \<not> ready (ts_template s) \<Longrightarrow>
    template_step ready built blank s (s\<lparr>ts_phase := (ts_phase s)(i := TMake)\<rparr>)"
| no_parent: "ts_phase s i = TMake \<Longrightarrow>
    template_step ready built blank s (s\<lparr>ts_phase := (ts_phase s)(i := TDone (Some e))\<rparr>)"
| made: "ts_phase s i = TMake \<Longrightarrow>
    template_step ready built blank s (s\<lparr>ts_phase := (ts_phase s)(i := TInit), ts_temps := (ts_temps s)(i := Some blank)\<rparr>)"
| writes: "ts_phase s i = TInit \<Longrightarrow>
    template_step ready built blank s (s\<lparr>ts_temps := (ts_temps s)(i := Some c)\<rparr>)"
| init_failed: "ts_phase s i = TInit \<Longrightarrow>
    template_step ready built blank s (s\<lparr>ts_phase := (ts_phase s)(i := TLeave (Some e))\<rparr>)"
| init_done: "ts_phase s i = TInit \<Longrightarrow> built c \<Longrightarrow>
    template_step ready built blank s (s\<lparr>ts_phase := (ts_phase s)(i := TBuilt), ts_temps := (ts_temps s)(i := Some c)\<rparr>)"
| race_lost: "ts_phase s i = TBuilt \<Longrightarrow> ready (ts_template s) \<Longrightarrow>
    template_step ready built blank s (s\<lparr>ts_phase := (ts_phase s)(i := TLeave None)\<rparr>)"
| still_missing: "ts_phase s i = TBuilt \<Longrightarrow> \<not> ready (ts_template s) \<Longrightarrow>
    template_step ready built blank s (s\<lparr>ts_phase := (ts_phase s)(i := TRename)\<rparr>)"
| renamed: "ts_phase s i = TRename \<Longrightarrow> ts_template s \<in> {None, Some blank} \<Longrightarrow>
    template_step ready built blank s (s\<lparr>ts_phase := (ts_phase s)(i := TLeave None),
      ts_template := ts_temps s i, ts_temps := (ts_temps s)(i := None)\<rparr>)"
| rename_failed: "ts_phase s i = TRename \<Longrightarrow>
    template_step ready built blank s (s\<lparr>ts_phase := (ts_phase s)(i := TRefused)\<rparr>)"
| lost_late: "ts_phase s i = TRefused \<Longrightarrow> ready (ts_template s) \<Longrightarrow>
    template_step ready built blank s (s\<lparr>ts_phase := (ts_phase s)(i := TLeave None)\<rparr>)"
| install_failed: "ts_phase s i = TRefused \<Longrightarrow> \<not> ready (ts_template s) \<Longrightarrow>
    template_step ready built blank s (s\<lparr>ts_phase := (ts_phase s)(i := TLeave (Some (''installing template: '' @ e)))\<rparr>)"
| removed: "ts_phase s i = TLeave r \<Longrightarrow>
    template_step ready built blank s (s\<lparr>ts_phase := (ts_phase s)(i := TDone r), ts_temps := (ts_temps s)(i := None)\<rparr>)"

inductive_cases template_stepE: "template_step ready built blank s s'"

definition template_start :: "'c template_state" where
  "template_start = \<lparr>ts_template = None, ts_temps = (\<lambda>i. None), ts_phase = (\<lambda>i. TCheck)\<rparr>"

definition template_reachable :: "('c option \<Rightarrow> bool) \<Rightarrow> ('c \<Rightarrow> bool) \<Rightarrow> 'c \<Rightarrow> 'c template_state \<Rightarrow> bool" where
  "template_reachable ready built blank s = (template_step ready built blank)\<^sup>*\<^sup>* template_start s"

text \<open>\<open>CloneTemplateDir\<close>: what was there is removed first; \<open>cp\<close> is asked to share blocks.\<close>

definition clone_args :: "string \<Rightarrow> string \<Rightarrow> string \<Rightarrow> string list" where
  "clone_args goos templateDir destDir = (if goos = ''darwin'' then [''cp'', ''-Rc'', templateDir, destDir]
     else [''cp'', ''-a'', ''--reflink=auto'', templateDir, destDir])"

definition clone_template_dir ::
  "string \<Rightarrow> (string \<Rightarrow> 'w \<Rightarrow> string option \<times> 'w) \<Rightarrow> (string \<Rightarrow> 'w \<Rightarrow> 'w) \<Rightarrow> (string list \<Rightarrow> 'w \<Rightarrow> (string \<times> string) option \<times> 'w) \<Rightarrow>
   (string \<Rightarrow> string) \<Rightarrow> string \<Rightarrow> string \<Rightarrow> 'w \<Rightarrow> string option \<times> 'w" where
  "clone_template_dir goos mkdirAll rmAll run dirname templateDir destDir w =
     (case mkdirAll (dirname destDir) w of
        (Some e, w1) \<Rightarrow> (Some e, w1)
      | (None, w1) \<Rightarrow> (case run (clone_args goos templateDir destDir) (rmAll destDir w1) of
          (Some (e, out), w2) \<Rightarrow> (Some (''cloning template into '' @ destDir @ '': '' @ e @ [CHR 0x0A] @ out), w2)
        | (None, w2) \<Rightarrow> (None, w2)))"

section \<open>The pid file\<close>

text \<open>What signal 0 finds out about a pid, and what reading the file gives.\<close>

datatype signal_answer = Delivered | NoProcess | NotPermitted

definition process_alive :: "(int \<Rightarrow> signal_answer) \<Rightarrow> int \<Rightarrow> bool" where
  "process_alive signal0 pid = (signal0 pid = Delivered)"

datatype pid_file = NoFile | Unreadable string | PidText string

datatype lock_outcome = Cleared | ReadError string | AlreadyRunning string int string | RemoveError string

definition first_line :: "string \<Rightarrow> string" where
  "first_line s = takeWhile (\<lambda>c. c \<noteq> CHR 0x0A) s"

definition lock_pid :: "string \<Rightarrow> int option" where
  "lock_pid raw = atoi (trim_space (first_line raw))"

text \<open>The result and the file afterwards; \<open>remove_error\<close> is what removing it fails with, a file already gone
  being no failure.\<close>

definition clear_stale_lock ::
  "(int \<Rightarrow> signal_answer) \<Rightarrow> string option \<Rightarrow> string \<Rightarrow> string \<Rightarrow> pid_file \<Rightarrow> lock_outcome \<times> pid_file" where
  "clear_stale_lock signal0 remove_error what lockPath file = (case file of
     NoFile \<Rightarrow> (Cleared, file)
   | Unreadable e \<Rightarrow> (ReadError e, file)
   | PidText raw \<Rightarrow> (case lock_pid raw of
       Some pid \<Rightarrow> if pid > 0 \<and> process_alive signal0 pid then (AlreadyRunning what pid lockPath, file)
          else (case remove_error of Some e \<Rightarrow> (RemoveError e, file) | None \<Rightarrow> (Cleared, NoFile))
     | None \<Rightarrow> (case remove_error of Some e \<Rightarrow> (RemoveError e, file) | None \<Rightarrow> (Cleared, NoFile))))"

section \<open>Only whole templates\<close>

fun phase_inv :: "('c \<Rightarrow> bool) \<Rightarrow> 'c option \<Rightarrow> 'c option \<Rightarrow> template_phase \<Rightarrow> bool" where
  "phase_inv built tmpl temp TCheck = (temp = None)"
| "phase_inv built tmpl temp TMake = (temp = None)"
| "phase_inv built tmpl temp TInit = True"
| "phase_inv built tmpl temp TBuilt = (\<exists>c. temp = Some c \<and> built c)"
| "phase_inv built tmpl temp TRename = (\<exists>c. temp = Some c \<and> built c)"
| "phase_inv built tmpl temp TRefused = True"
| "phase_inv built tmpl temp (TLeave r) = (r = None \<longrightarrow> tmpl \<noteq> None)"
| "phase_inv built tmpl temp (TDone r) = (temp = None \<and> (r = None \<longrightarrow> tmpl \<noteq> None))"

definition template_inv :: "('c \<Rightarrow> bool) \<Rightarrow> 'c template_state \<Rightarrow> bool" where
  "template_inv built s \<longleftrightarrow> (\<forall>c. ts_template s = Some c \<longrightarrow> built c) \<and>
     (\<forall>i. phase_inv built (ts_template s) (ts_temps s i) (ts_phase s i))"

text \<open>What the caller's check and builder promise: a directory that is not there is not ready, one that
  \<open>init\<close> finished is, and \<open>init\<close> does not call an empty directory finished.\<close>

definition template_contract :: "('c option \<Rightarrow> bool) \<Rightarrow> ('c \<Rightarrow> bool) \<Rightarrow> 'c \<Rightarrow> bool" where
  "template_contract ready built blank \<longleftrightarrow> \<not> ready None \<and> (\<forall>c. built c \<longrightarrow> ready (Some c)) \<and> \<not> built blank"

lemma phase_inv_mono: "phase_inv built tmpl temp p \<Longrightarrow> phase_inv built (Some c) temp p"
  by (cases p) auto

lemma template_inv_step:
  assumes "template_contract ready built blank"
  shows "template_step ready built blank s s' \<Longrightarrow> template_inv built s \<Longrightarrow> template_inv built s'"
proof (induction rule: template_step.induct)
  case (renamed s i)
  then obtain c where c: "ts_temps s i = Some c" "built c" unfolding template_inv_def by (metis phase_inv.simps(5))
  with renamed show ?case by (auto simp: template_inv_def intro: phase_inv_mono)
next
  case (found s i)
  then have "ts_template s \<noteq> None" using assms unfolding template_contract_def by metis
  with found show ?case unfolding template_inv_def by (auto, metis phase_inv.simps(1))
next
  case (race_lost s i)
  then have "ts_template s \<noteq> None" using assms unfolding template_contract_def by metis
  with race_lost show ?case by (auto simp: template_inv_def)
next
  case (lost_late s i)
  then have "ts_template s \<noteq> None" using assms unfolding template_contract_def by metis
  with lost_late show ?case by (auto simp: template_inv_def)
next
  case (missing s i)
  then show ?case unfolding template_inv_def by (auto, metis phase_inv.simps(1))
next
  case (no_parent s i e)
  then show ?case unfolding template_inv_def by (auto, metis phase_inv.simps(2))
next
  case (still_missing s i)
  then show ?case unfolding template_inv_def by (auto, metis phase_inv.simps(4))
next
  case (removed s i r)
  then have "phase_inv built (ts_template s) (ts_temps s i) (TLeave r)" unfolding template_inv_def by metis
  with removed show ?case by (auto simp: template_inv_def)
qed (auto simp: template_inv_def)

interpretation templates: invariant_machine "template_step ready built blank" template_start
    "\<lambda>s. template_contract ready built blank \<longrightarrow> template_inv built s" for ready built blank
  by unfold_locales (simp add: template_inv_def template_start_def, blast intro: template_inv_step)

lemma template_reachable_inv:
  "template_contract ready built blank \<Longrightarrow> template_reachable ready built blank s \<Longrightarrow> template_inv built s"
  unfolding template_reachable_def by (drule templates.inv_reachable, drule (1) mp)

section \<open>Properties\<close>


text \<open>Two boots that both find nothing: the second to finish uses the first one's.\<close>

definition complete_dir :: "string \<Rightarrow> bool" where "complete_dir c = (c = ''PG_VERSION'')"
definition complete_at :: "string option \<Rightarrow> bool" where "complete_at d = (d = Some ''PG_VERSION'')"

lemma demo_contract: "template_contract complete_at complete_dir []"
  by (simp add: template_contract_def complete_at_def complete_dir_def)

definition raced :: "string template_state" where
  "raced = \<lparr>ts_template = Some ''PG_VERSION'', ts_temps = (\<lambda>i. None)(1 := Some ''PG_VERSION''),
     ts_phase = (\<lambda>i. TCheck)(0 := TLeave None, 1 := TBuilt)\<rparr>"

lemma raced_reachable: "template_reachable complete_at complete_dir [] raced"
proof -
  let ?R = "template_step complete_at complete_dir []"
  define t0 where "t0 = (template_start :: string template_state)"
  define t1 where "t1 = t0\<lparr>ts_phase := (ts_phase t0)(0 := TMake)\<rparr>"
  define t2 where "t2 = t1\<lparr>ts_phase := (ts_phase t1)(1 := TMake)\<rparr>"
  define t3 where "t3 = t2\<lparr>ts_phase := (ts_phase t2)(0 := TInit), ts_temps := (ts_temps t2)(0 := Some [])\<rparr>"
  define t4 where "t4 = t3\<lparr>ts_phase := (ts_phase t3)(1 := TInit), ts_temps := (ts_temps t3)(1 := Some [])\<rparr>"
  define t5 where "t5 = t4\<lparr>ts_phase := (ts_phase t4)(0 := TBuilt), ts_temps := (ts_temps t4)(0 := Some ''PG_VERSION'')\<rparr>"
  define t6 where "t6 = t5\<lparr>ts_phase := (ts_phase t5)(1 := TBuilt), ts_temps := (ts_temps t5)(1 := Some ''PG_VERSION'')\<rparr>"
  define t7 where "t7 = t6\<lparr>ts_phase := (ts_phase t6)(0 := TRename)\<rparr>"
  note ts = t0_def t1_def t2_def t3_def t4_def t5_def t6_def t7_def
  have "?R t0 t1" unfolding t1_def by (rule missing) (simp_all add: ts template_start_def complete_at_def)
  have "?R t1 t2" unfolding t2_def by (rule missing) (simp_all add: ts template_start_def complete_at_def)
  have "?R t2 t3" unfolding t3_def by (rule made) (simp add: ts)
  have "?R t3 t4" unfolding t4_def by (rule made) (simp add: ts)
  have "?R t4 t5" unfolding t5_def by (rule init_done) (simp_all add: ts complete_dir_def)
  have "?R t5 t6" unfolding t6_def by (rule init_done) (simp_all add: ts complete_dir_def)
  have "?R t6 t7" unfolding t7_def by (rule still_missing) (simp_all add: ts template_start_def complete_at_def)
  moreover have "?R t7 (t7\<lparr>ts_phase := (ts_phase t7)(0 := TLeave None), ts_template := ts_temps t7 0, ts_temps := (ts_temps t7)(0 := None)\<rparr>)"
    by (rule renamed) (simp_all add: ts template_start_def)
  moreover have "t7\<lparr>ts_phase := (ts_phase t7)(0 := TLeave None), ts_template := ts_temps t7 0, ts_temps := (ts_temps t7)(0 := None)\<rparr> = raced"
    by (simp add: ts template_start_def raced_def fun_upd_def fun_eq_iff)
  ultimately have last: "?R t7 raced" by (simp only:)
  show ?thesis unfolding template_reachable_def t0_def[symmetric]
    by ((rule converse_rtranclp_into_rtranclp, fact)+, rule rtranclp.rtrancl_refl)
qed


text \<open>\<open>ClearStaleLock\<close> refuses, naming the pid, exactly when the file's first line is the pid of a process that
  answers, and then the file stays; when it reports success there is no pid file left, and
  there was none whose process answered.\<close>

theorem stale_lock_exact:
  assumes "clear_stale_lock signal0 remove_error what lockPath pf = (r, pf')"
  shows "(r = AlreadyRunning what pid lockPath \<longleftrightarrow>
      (\<exists>raw. pf = PidText raw \<and> lock_pid raw = Some pid \<and> pid > 0 \<and> process_alive signal0 pid))
    \<and> (r \<noteq> Cleared \<longrightarrow> pf' = pf)
    \<and> (r = Cleared \<longrightarrow> pf' = NoFile \<and> (\<forall>raw p. pf = PidText raw \<longrightarrow> lock_pid raw = Some p \<longrightarrow> p > 0 \<longrightarrow> \<not> process_alive signal0 p))"
  using assms
  by (cases pf; cases remove_error) (auto simp: clear_stale_lock_def split: option.splits if_splits)

definition demo_signal :: "int \<Rightarrow> signal_answer" where
  "demo_signal pid = (if pid = 4242 then Delivered else if pid = 1 then NotPermitted else NoProcess)"

definition demo_pid_file :: string where "demo_pid_file = ''4242'' @ [CHR 0x0A] @ ''/var/lib/pg''"

lemma demo_clear: "clear_stale_lock demo_signal None ''pg'' ''/p'' (PidText demo_pid_file) = (AlreadyRunning ''pg'' 4242 ''/p'', PidText demo_pid_file)"
  by code_simp

lemma stale_lock_exact_witness: "\<exists>raw. PidText demo_pid_file = PidText raw \<and> lock_pid raw = Some 4242 \<and> process_alive demo_signal 4242"
  using stale_lock_exact[OF demo_clear, of 4242] by blast

text \<open>A process of another user answers that it may not be signalled, which reads as a process that is not
  there: its pid file is removed and a second backend starts on its data.\<close>

lemma foreign_process_reads_dead: "signal0 pid = NotPermitted \<Longrightarrow> lock_pid raw = Some pid \<Longrightarrow>
   clear_stale_lock signal0 None what lockPath (PidText raw) = (Cleared, NoFile)"
  by (simp add: clear_stale_lock_def process_alive_def)

end
