(* ===== verification/Blocks.thy ===== *)
theory Blocks
  imports Conv
begin

text \<open>
  How a module writes its console: the builders of \<open>console/console.go\<close> over the nodes of
  \<open>engine.ConsoleSpec\<close>, and \<open>SortedKeys\<close> of \<open>engine/util.go\<close>. A \<open>Block\<close> is the node it wraps.
\<close>

section \<open>Blocks\<close>

type_synonym block = node

definition node_kind :: "string \<Rightarrow> string \<Rightarrow> block" where
  "node_kind kind panel = Node kind [] [] 0 panel [] [] [] []"

fun weight :: "block \<Rightarrow> int \<Rightarrow> block" where
  "weight (Node k i t w p f x a c) w' = Node k i t w' p f x a c"

fun titled :: "block \<Rightarrow> string \<Rightarrow> block" where
  "titled (Node k i t w p f x a c) t' = Node k i t' w p f x a c"

fun with_id :: "block \<Rightarrow> string \<Rightarrow> block" where
  "with_id (Node k i t w p f x a c) i' = Node k i' t w p f x a c"

fun from_table :: "block \<Rightarrow> string \<Rightarrow> block" where
  "from_table (Node k i t w p f x a c) f' = Node k i t w p f' x a c"

definition table :: "string \<Rightarrow> block" where "table panel = node_kind ''table'' panel"
definition stat :: "string \<Rightarrow> block" where "stat panel = node_kind ''stat'' panel"
definition detail_block :: "string \<Rightarrow> block" where "detail_block panel = node_kind ''detail'' panel"
definition stream_block :: "string \<Rightarrow> block" where "stream_block panel = node_kind ''stream'' panel"
definition chart :: "string \<Rightarrow> block" where "chart panel = node_kind ''chart'' panel"

definition actions_block :: "string list \<Rightarrow> block" where
  "actions_block ids = Node ''actions'' [] [] 0 [] [] [] ids []"

definition note_block :: "string \<Rightarrow> block" where
  "note_block sentence = Node ''note'' [] [] 0 [] [] sentence [] []"

definition container :: "string \<Rightarrow> block list \<Rightarrow> block" where
  "container kind children = Node kind [] [] 0 [] [] [] [] (foldl (\<lambda>ns c. ns @ [c]) [] children)"

definition row_of :: "block list \<Rightarrow> block" where "row_of children = container ''row'' children"
definition col_of :: "block list \<Rightarrow> block" where "col_of children = container ''col'' children"

definition tab_of :: "string \<Rightarrow> string \<Rightarrow> block \<Rightarrow> tab" where
  "tab_of i title body = \<lparr>tb_id = i, tb_title = title, tb_body = body\<rparr>"

definition after_slot :: "string \<Rightarrow> block \<Rightarrow> extension" where
  "after_slot slot b = \<lparr>ex_after = slot, ex_node = b\<rparr>"

definition sorted_keys :: "(string \<times> 'v) list \<Rightarrow> string list" where
  "sorted_keys m = sort (map fst m)"

lemma container_children: "container kind children = Node kind [] [] 0 [] [] [] [] children"
proof -
  have "foldl (\<lambda>ns c. ns @ [c]) acc children = acc @ children" for acc :: "block list"
    by (induction children arbitrary: acc) simp_all
  then show ?thesis by (simp add: container_def)
qed

text \<open>The emission order does not depend on the order the map is visited in.\<close>

lemma sorted_keys_order: "mset m = mset m' \<Longrightarrow> sorted_keys m = sorted_keys m'"
  unfolding sorted_keys_def by (metis mset_map properties_for_sort sorted_sort mset_sort)

end
