(* ===== verification/Splice.thy ===== *)
theory Splice
  imports Steps
begin

text \<open>
  \<open>spliceConns\<close> of \<open>plugin/wireserver.go\<close>: two goroutines copy a client's connection and its backend's
  into each other, and the first to end closes both, once. The goroutines' steps and the peers'
  are one relation over the bytes that wait, are held and have been passed on; \<open>io.Copy\<close> reads some
  of what waits and writes all of it before it reads again.
\<close>

section \<open>A copy\<close>

datatype copy_end = SourceEnded | SourceFailed | SinkFailed

text \<open>One \<open>io.Copy\<close>. \<open>cp_ahead\<close> is what its reader holds already (the handshake's read-ahead), \<open>cp_waiting\<close> what has
  come on the connection since; \<open>cp_ended\<close> is a source that sends no more, \<open>cp_reset\<close> one that is lost, \<open>cp_gone\<close> a
  sink that takes no more. \<open>cp_sent\<close> records all the source has given.\<close>

record copy =
  cp_ahead :: string
  cp_waiting :: string
  cp_ended :: bool
  cp_reset :: bool
  cp_gone :: bool
  cp_held :: string
  cp_written :: string
  cp_result :: "copy_end option"
  cp_sent :: string

definition copy_start :: "string \<Rightarrow> copy" where
  "copy_start ahead = \<lparr>cp_ahead = ahead, cp_waiting = [], cp_ended = False, cp_reset = False, cp_gone = False, cp_held = [],
     cp_written = [], cp_result = None, cp_sent = ahead\<rparr>"

text \<open>What one copy does while the connections are open or closed. A closed connection gives no bytes and takes
  none, but what was read ahead is still there.\<close>

inductive copy_step :: "bool \<Rightarrow> copy \<Rightarrow> copy \<Rightarrow> bool" for closed where
  reads_ahead: "cp_result c = None \<Longrightarrow> cp_held c = [] \<Longrightarrow> 0 < n \<Longrightarrow> n \<le> length (cp_ahead c) \<Longrightarrow>
    copy_step closed c (c\<lparr>cp_held := take n (cp_ahead c), cp_ahead := drop n (cp_ahead c)\<rparr>)"
| reads: "cp_result c = None \<Longrightarrow> cp_held c = [] \<Longrightarrow> cp_ahead c = [] \<Longrightarrow> \<not> closed \<Longrightarrow> 0 < n \<Longrightarrow> n \<le> length (cp_waiting c) \<Longrightarrow>
    copy_step closed c (c\<lparr>cp_held := take n (cp_waiting c), cp_waiting := drop n (cp_waiting c)\<rparr>)"
| writes: "cp_result c = None \<Longrightarrow> \<not> closed \<Longrightarrow> 0 < n \<Longrightarrow> n \<le> length (cp_held c) \<Longrightarrow>
    copy_step closed c (c\<lparr>cp_written := cp_written c @ take n (cp_held c), cp_held := drop n (cp_held c)\<rparr>)"
| source_ended: "cp_result c = None \<Longrightarrow> cp_held c = [] \<Longrightarrow> cp_ahead c = [] \<Longrightarrow> cp_waiting c = [] \<Longrightarrow> cp_ended c \<Longrightarrow> \<not> closed \<Longrightarrow>
    copy_step closed c (c\<lparr>cp_result := Some SourceEnded\<rparr>)"
| source_failed: "cp_result c = None \<Longrightarrow> cp_held c = [] \<Longrightarrow> cp_ahead c = [] \<Longrightarrow> closed \<or> cp_reset c \<Longrightarrow>
    copy_step closed c (c\<lparr>cp_result := Some SourceFailed\<rparr>)"
| sink_failed: "cp_result c = None \<Longrightarrow> cp_held c \<noteq> [] \<Longrightarrow> closed \<or> cp_gone c \<Longrightarrow>
    copy_step closed c (c\<lparr>cp_result := Some SinkFailed\<rparr>)"

inductive_cases copy_stepE: "copy_step closed c c'"

text \<open>What the peers of a copy do: the source sends more, or no more, or is lost; the sink is lost.\<close>

inductive source_step :: "copy \<Rightarrow> copy \<Rightarrow> bool" where
  sends: "\<not> cp_ended c \<Longrightarrow> source_step c (c\<lparr>cp_waiting := cp_waiting c @ bs, cp_sent := cp_sent c @ bs\<rparr>)"
| ends: "\<not> cp_ended c \<Longrightarrow> source_step c (c\<lparr>cp_ended := True\<rparr>)"
| resets: "source_step c (c\<lparr>cp_reset := True\<rparr>)"
| takes_no_more: "source_step c (c\<lparr>cp_gone := True\<rparr>)"

inductive_cases source_stepE: "source_step c c'"

section \<open>Both ways\<close>

text \<open>\<open>sp_up\<close> goes from client to backend, \<open>sp_down\<close> back, first what the handshake read ahead. A copy that ends
  runs \<open>closeBoth\<close>, whose body runs once; \<open>sp_closes\<close> counts how often.\<close>

record splice =
  sp_up :: copy
  sp_down :: copy
  sp_once :: bool
  sp_closes :: nat

definition splice_start :: "string \<Rightarrow> splice" where
  "splice_start ahead = \<lparr>sp_up = copy_start [], sp_down = copy_start ahead, sp_once = False, sp_closes = 0\<rparr>"

definition close_both :: "splice \<Rightarrow> splice" where
  "close_both s = (if sp_once s then s else s\<lparr>sp_once := True, sp_closes := sp_closes s + 1\<rparr>)"

definition after_copy :: "copy \<Rightarrow> splice \<Rightarrow> splice" where
  "after_copy c s = (if cp_result c = None then s else close_both s)"

definition conns_closed :: "splice \<Rightarrow> bool" where
  "conns_closed s = (0 < sp_closes s)"

inductive goroutine_step :: "splice \<Rightarrow> splice \<Rightarrow> bool" where
  up_copies: "copy_step (conns_closed s) (sp_up s) c \<Longrightarrow> goroutine_step s ((after_copy c s)\<lparr>sp_up := c\<rparr>)"
| down_copies: "copy_step (conns_closed s) (sp_down s) c \<Longrightarrow> goroutine_step s ((after_copy c s)\<lparr>sp_down := c\<rparr>)"

inductive_cases goroutine_stepE: "goroutine_step s s'"

text \<open>Once the connections are closed nothing more arrives.\<close>

inductive splice_step :: "splice \<Rightarrow> splice \<Rightarrow> bool" where
  goroutine: "goroutine_step s s' \<Longrightarrow> splice_step s s'"
| client_acts: "\<not> conns_closed s \<Longrightarrow> source_step (sp_up s) c \<Longrightarrow> splice_step s (s\<lparr>sp_up := c\<rparr>)"
| backend_acts: "\<not> conns_closed s \<Longrightarrow> source_step (sp_down s) c \<Longrightarrow> splice_step s (s\<lparr>sp_down := c\<rparr>)"

text \<open>\<open>wg.Wait\<close> is over when both copies are.\<close>

definition spliced :: "splice \<Rightarrow> bool" where
  "spliced s = (cp_result (sp_up s) \<noteq> None \<and> cp_result (sp_down s) \<noteq> None)"

section \<open>Nothing is lost, repeated or reordered\<close>

text \<open>Every byte of the source is written, held, read ahead or waiting, in this order; a copy that ended with
  its source has written all of them.\<close>

definition copy_inv :: "copy \<Rightarrow> bool" where
  "copy_inv c = (cp_written c @ cp_held c @ cp_ahead c @ cp_waiting c = cp_sent c
     \<and> (cp_result c = Some SourceEnded \<longrightarrow> cp_ended c \<and> cp_written c = cp_sent c))"

lemma take_drop_append: "take n xs @ drop n xs @ ys = xs @ ys"
  by (metis append_assoc append_take_drop_id)

lemma copy_inv_start [simp]: "copy_inv (copy_start ahead)"
  by (simp add: copy_inv_def copy_start_def)

lemma copy_inv_step: "copy_step closed c c' \<Longrightarrow> copy_inv c \<Longrightarrow> copy_inv c'"
  by (induction rule: copy_step.induct) (auto simp: copy_inv_def take_drop_append)

lemma copy_inv_source: "source_step c c' \<Longrightarrow> copy_inv c \<Longrightarrow> copy_inv c'"
  by (induction rule: source_step.induct) (auto simp: copy_inv_def)

text \<open>The connections are closed exactly when a copy has ended, and never twice.\<close>

definition splice_inv :: "string \<Rightarrow> splice \<Rightarrow> bool" where
  "splice_inv ahead s = (copy_inv (sp_up s) \<and> copy_inv (sp_down s) \<and> prefix ahead (cp_sent (sp_down s))
     \<and> sp_closes s = (if cp_result (sp_up s) = None \<and> cp_result (sp_down s) = None then 0 else 1)
     \<and> sp_once s = (0 < sp_closes s))"

lemma copy_step_running: "copy_step closed c c' \<Longrightarrow> cp_result c = None"
  by (auto elim: copy_stepE)

lemma source_step_result: "source_step c c' \<Longrightarrow> cp_result c' = cp_result c"
  by (auto elim: source_stepE)

lemma copy_step_sent: "copy_step closed c c' \<Longrightarrow> cp_sent c' = cp_sent c"
  by (auto elim: copy_stepE)

lemma source_step_sent: "source_step c c' \<Longrightarrow> prefix (cp_sent c) (cp_sent c')"
  by (auto elim: source_stepE)

lemma splice_inv_goroutine: "goroutine_step s s' \<Longrightarrow> splice_inv ahead s \<Longrightarrow> splice_inv ahead s'"
  by (induction rule: goroutine_step.induct)
    (auto simp: splice_inv_def after_copy_def close_both_def
      dest: copy_inv_step copy_step_running copy_step_sent split: if_splits)

lemma splice_inv_step: "splice_step s s' \<Longrightarrow> splice_inv ahead s \<Longrightarrow> splice_inv ahead s'"
proof (induction rule: splice_step.induct)
  case (goroutine s s')
  then show ?case by (rule splice_inv_goroutine)
next
  case (client_acts s c)
  then show ?case by (simp add: splice_inv_def copy_inv_source source_step_result)
next
  case (backend_acts s c)
  then show ?case
    by (auto simp: splice_inv_def copy_inv_source source_step_result dest: source_step_sent intro: prefix_order.trans)
qed

interpretation splice: invariant_machine splice_step "splice_start ahead" "splice_inv ahead" for ahead
  by unfold_locales (simp add: splice_inv_def splice_start_def copy_start_def copy_inv_def, erule (1) splice_inv_step)

section \<open>Both goroutines end\<close>

text \<open>What the copies can still do by themselves: read each byte and write it, and end.\<close>

definition copy_rank :: "copy \<Rightarrow> nat" where
  "copy_rank c = (if cp_result c = None then 1 + length (cp_held c) + 2 * length (cp_ahead c) + 2 * length (cp_waiting c) else 0)"

definition splice_rank :: "splice \<Rightarrow> nat" where
  "splice_rank s = copy_rank (sp_up s) + copy_rank (sp_down s)"

lemma copy_rank_step: "copy_step closed c c' \<Longrightarrow> copy_rank c' < copy_rank c"
  by (induction rule: copy_step.induct) (auto simp: copy_rank_def)

lemma after_copy_simps [simp]: "sp_up (after_copy c s) = sp_up s" "sp_down (after_copy c s) = sp_down s"
  by (simp_all add: after_copy_def close_both_def)

lemma splice_rank_step: "goroutine_step s s' \<Longrightarrow> splice_rank s' < splice_rank s"
  by (induction rule: goroutine_step.induct) (auto simp: splice_rank_def dest: copy_rank_step)

interpretation goroutines: ranked_machine goroutine_step s "\<lambda>s. True" splice_rank for s
  by unfold_locales (simp_all add: splice_rank_step)

text \<open>A copy with no step to take has ended, or waits for an open source that has nothing more for now.\<close>

definition copy_idle :: "copy \<Rightarrow> bool" where
  "copy_idle c = (cp_result c = None \<and> cp_held c = [] \<and> cp_ahead c = [] \<and> cp_waiting c = []
     \<and> \<not> cp_ended c \<and> \<not> cp_reset c)"

lemma copy_stuck:
  assumes "\<nexists>c'. copy_step closed c c'" "cp_result c = None"
  shows "copy_idle c \<and> \<not> closed"
proof -
  have h: "cp_held c = []"
  proof (rule ccontr)
    assume h: "cp_held c \<noteq> []"
    have "copy_step closed c (c\<lparr>cp_result := Some SinkFailed\<rparr>)" if closed
      using assms(2) h that by (blast intro: sink_failed)
    then have "\<not> closed" using assms(1) by blast
    then show False using assms h writes[of c closed "length (cp_held c)"] by blast
  qed
  have a: "cp_ahead c = []"
    using assms h reads_ahead[of c "length (cp_ahead c)" closed] by blast
  have c: "\<not> closed" "\<not> cp_reset c" using assms h a source_failed[of c closed] by blast+
  have w: "cp_waiting c = []"
    using assms h a c reads[of c closed "length (cp_waiting c)"] by blast
  then show ?thesis using assms h a c source_ended[of c closed] by (auto simp: copy_idle_def)
qed

lemma goroutines_stuck: "\<nexists>s'. goroutine_step s s' \<Longrightarrow> splice_inv ahead s \<Longrightarrow>
   spliced s \<or> \<not> conns_closed s \<and> copy_idle (sp_up s) \<and> copy_idle (sp_down s)"
proof -
  assume n: "\<nexists>s'. goroutine_step s s'" and i: "splice_inv ahead s"
  have "\<nexists>c'. copy_step (conns_closed s) (sp_up s) c'" "\<nexists>c'. copy_step (conns_closed s) (sp_down s) c'"
    using n by (blast intro: goroutine_step.intros)+
  note stuck = this[THEN copy_stuck]
  show ?thesis
    using stuck i by (cases "cp_result (sp_up s)"; cases "cp_result (sp_down s)")
      (auto simp: spliced_def splice_inv_def conns_closed_def copy_idle_def)
qed

section \<open>Properties\<close>

lemma splice_inv_reached: "splice_step\<^sup>*\<^sup>* (splice_start ahead) s \<Longrightarrow> splice_inv ahead s"
  by (rule splice.inv_reachable)

lemma goroutine_run_reached:
  "(goroutine_step ^^ n) s t \<Longrightarrow> splice_step\<^sup>*\<^sup>* (splice_start ahead) s \<Longrightarrow> splice_step\<^sup>*\<^sup>* (splice_start ahead) t"
  by (induction n arbitrary: t) (auto intro: goroutine rtranclp.rtrancl_into_rtrancl)

lemma copy_written_prefix: "copy_inv c \<Longrightarrow> prefix (cp_written c) (cp_sent c)"
  unfolding copy_inv_def prefix_def by metis

text \<open>C28. However the two copies and the peers interleave, what has been passed on each way is the beginning
  of what its source gave, in order and without a gap, the handshake's read-ahead first on the way to the
  client; a copy that ended with its source has passed on all of it; and the connections are closed once,
  when the first copy ends.\<close>

theorem splice_faithful:
  assumes "splice_step\<^sup>*\<^sup>* (splice_start ahead) s"
  shows "prefix (cp_written (sp_up s)) (cp_sent (sp_up s)) \<and> prefix (cp_written (sp_down s)) (cp_sent (sp_down s))
    \<and> prefix ahead (cp_sent (sp_down s))
    \<and> (cp_result (sp_up s) = Some SourceEnded \<longrightarrow> cp_written (sp_up s) = cp_sent (sp_up s))
    \<and> (cp_result (sp_down s) = Some SourceEnded \<longrightarrow> cp_written (sp_down s) = cp_sent (sp_down s))
    \<and> sp_closes s = (if cp_result (sp_up s) = None \<and> cp_result (sp_down s) = None then 0 else 1)"
  using splice_inv_reached[OF assms] copy_written_prefix by (auto simp: splice_inv_def copy_inv_def)

text \<open>A client that asks and ends its side at once: the question is passed on, and the answer under way is not.\<close>

definition asked :: copy where
  "asked = \<lparr>cp_ahead = [], cp_waiting = [], cp_ended = True, cp_reset = False, cp_gone = False, cp_held = [],
     cp_written = ''GET'', cp_result = Some SourceEnded, cp_sent = ''GET''\<rparr>"

definition unanswered :: copy where
  "unanswered = \<lparr>cp_ahead = [], cp_waiting = ''200'', cp_ended = False, cp_reset = False, cp_gone = False, cp_held = [],
     cp_written = [], cp_result = None, cp_sent = ''200''\<rparr>"

definition half_closed :: splice where
  "half_closed = \<lparr>sp_up = asked, sp_down = unanswered, sp_once = True, sp_closes = 1\<rparr>"

lemma half_closed_reached: "splice_step\<^sup>*\<^sup>* (splice_start []) half_closed"
proof -
  define c1 where "c1 = (copy_start [])\<lparr>cp_waiting := ''GET'', cp_sent := ''GET''\<rparr>"
  define c2 where "c2 = c1\<lparr>cp_held := ''GET'', cp_waiting := []\<rparr>"
  define c3 where "c3 = c2\<lparr>cp_written := ''GET'', cp_held := []\<rparr>"
  define c4 where "c4 = c3\<lparr>cp_ended := True\<rparr>"
  note defs = c1_def c2_def c3_def c4_def copy_start_def asked_def unanswered_def half_closed_def splice_start_def
    conns_closed_def after_copy_def close_both_def
  define s1 where "s1 = (splice_start [])\<lparr>sp_up := c1\<rparr>"
  define s2 where "s2 = s1\<lparr>sp_up := c2\<rparr>"
  define s3 where "s3 = s2\<lparr>sp_up := c3\<rparr>"
  define s4 where "s4 = s3\<lparr>sp_up := c4\<rparr>"
  define s5 where "s5 = s4\<lparr>sp_down := unanswered\<rparr>"
  have "splice_step (splice_start []) s1"
    using client_acts[of "splice_start []" c1] sends[of "copy_start []" "''GET''"] by (simp add: s1_def defs)
  moreover have "splice_step s1 s2"
    using goroutine[OF up_copies[of s1 c2]] reads[of c1 False 3] by (simp add: s2_def s1_def defs)
  moreover have "splice_step s2 s3"
    using goroutine[OF up_copies[of s2 c3]] writes[of c2 False 3] by (simp add: s3_def s2_def s1_def defs)
  moreover have "splice_step s3 s4"
    using client_acts[of s3 c4] ends[of c3] by (simp add: s4_def s3_def s2_def s1_def defs)
  moreover have "splice_step s4 s5"
    using backend_acts[of s4 unanswered] sends[of "copy_start []" "''200''"]
    by (simp add: s5_def s4_def s3_def s2_def s1_def defs)
  moreover have "splice_step s5 half_closed"
    using goroutine[OF up_copies[of s5 asked]] source_ended[of c4 False]
    by (simp add: s5_def s4_def s3_def s2_def s1_def defs)
  ultimately have "(splice_step ^^ Suc (Suc (Suc (Suc (Suc (Suc 0)))))) (splice_start []) half_closed"
    by (blast intro: relpowp_Suc_I2 relpowp_0_I)
  then show ?thesis by (rule relpowp_imp_rtranclp)
qed

lemma splice_faithful_witness:
  "cp_written (sp_up half_closed) = ''GET'' \<and> prefix (cp_written (sp_down half_closed)) ''200'' \<and> sp_closes half_closed = 1"
  using splice_faithful[OF half_closed_reached] by (simp add: half_closed_def asked_def unanswered_def)


definition cut_off :: splice where
  "cut_off = half_closed\<lparr>sp_down := unanswered\<lparr>cp_result := Some SourceFailed\<rparr>\<rparr>"


end
