(* ===== verification/Descriptor.thy ===== *)
theory Descriptor
  imports Wire
begin

text \<open>
  How a client's connection gets from doze into a module: \<open>sendConn\<close> and \<open>recvConn\<close> of \<open>plugin/fd_unix.go\<close>
  pass its descriptor over a unix socket, with a header, and the \<open>wireServer\<close> of \<open>plugin/wireserver.go\<close>
  listens for such handoffs. A process's descriptors are a table of open files, the lowest free one
  taken first; parsing the control message and making a connection of a file are parameters.
\<close>

section \<open>Descriptors\<close>

type_synonym 'f fds = "'f option list"

definition fd_file :: "'f fds \<Rightarrow> nat \<Rightarrow> 'f option" where
  "fd_file t i = (if i < length t then t ! i else None)"

fun fd_install :: "'f \<Rightarrow> 'f fds \<Rightarrow> nat \<times> 'f fds" where
  "fd_install f [] = (0, [Some f])"
| "fd_install f (None # t) = (0, Some f # t)"
| "fd_install f (Some g # t) = (case fd_install f t of (i, t') \<Rightarrow> (Suc i, Some g # t'))"

fun fd_install_all :: "'f list \<Rightarrow> 'f fds \<Rightarrow> int list \<times> 'f fds" where
  "fd_install_all [] t = ([], t)"
| "fd_install_all (f # fs) t = (case fd_install f t of (i, t1) \<Rightarrow>
     (case fd_install_all fs t1 of (is, t2) \<Rightarrow> (int i # is, t2)))"

definition fd_close :: "nat \<Rightarrow> 'f fds \<Rightarrow> 'f fds" where
  "fd_close i t = t[i := None]"

lemma fd_file_Cons [simp]: "fd_file (x # t) 0 = x" "fd_file (x # t) (Suc i) = fd_file t i"
  by (simp_all add: fd_file_def)

lemma fd_file_close [simp]: "fd_file (fd_close i t) j = (if j = i then None else fd_file t j)"
  by (simp add: fd_file_def fd_close_def)

lemma fd_install_file:
  "fd_install f t = (i, t') \<Longrightarrow> fd_file t i = None \<and> fd_file t' j = (if j = i then Some f else fd_file t j)"
proof (induction f t arbitrary: i j t' rule: fd_install.induct)
  case (1 f)
  then show ?case by (cases j) (auto simp: fd_file_def)
next
  case (2 f t)
  then show ?case by (cases j) auto
next
  case (3 f g t)
  then show ?case by (cases j) (auto split: prod.splits)
qed

section \<open>Messages\<close>

text \<open>What one \<open>recvmsg\<close> gives: the bytes, and the open files that come with them.\<close>

record 'f unix_msg =
  um_data :: string
  um_rights :: "'f list"

text \<open>The size of a control buffer for \<open>n\<close> bytes, and how many descriptors of four bytes the kernel finds room
  for behind the header. Linux on 64 bits aligns to 8 with a header of 16, macOS to 4 with one of 12.\<close>

definition cmsg_align :: "nat \<Rightarrow> nat \<Rightarrow> nat" where
  "cmsg_align a n = (n + a - 1) div a * a"

definition cmsg_space :: "nat \<Rightarrow> nat \<Rightarrow> nat \<Rightarrow> nat" where
  "cmsg_space a hdr n = cmsg_align a hdr + cmsg_align a n"

definition fd_room :: "nat \<Rightarrow> nat \<Rightarrow> nat" where
  "fd_room a hdr = (cmsg_space a hdr 4 - hdr) div 4"

section \<open>Sending and receiving\<close>

text \<open>\<open>sendConn\<close>: the error of \<open>SyscallConn\<close>, of \<open>Control\<close> or of the write, and the message that has gone.\<close>

definition send_conn ::
  "string option \<Rightarrow> string option \<Rightarrow> string option \<Rightarrow> string \<Rightarrow> 'f \<Rightarrow> string option \<times> 'f unix_msg option" where
  "send_conn raw_err control_err write_err header file =
     (case raw_err of Some e \<Rightarrow> (Some e, None)
      | None \<Rightarrow> (case control_err of Some e \<Rightarrow> (Some e, None)
      | None \<Rightarrow> (case write_err of Some e \<Rightarrow> (Some e, None)
      | None \<Rightarrow> (None, Some \<lparr>um_data = header, um_rights = [file]\<rparr>))))"

datatype recv_error =
    ReadingMessage string | ParsingControl string | NoDescriptor | ParsingRights "string option"
  | InvalidDescriptor | RebuildingConn string

text \<open>\<open>recvConn\<close>, with the process's descriptors. The kernel puts the files it has room for into the table;
  \<open>parse_control\<close> makes messages of the control bytes, here told by the descriptors in them, and \<open>parse_rights\<close>
  the descriptors of a message. \<open>FileConn\<close> duplicates the descriptor, and the first one is closed whether it
  does or not.\<close>

definition recv_conn ::
  "nat \<Rightarrow> (int list \<Rightarrow> string + 'm list) \<Rightarrow> ('m \<Rightarrow> string + int list) \<Rightarrow> ('f option \<Rightarrow> string + 'f) \<Rightarrow> nat
   \<Rightarrow> string + 'f unix_msg \<Rightarrow> 'f fds \<Rightarrow> (recv_error + nat \<times> string) \<times> 'f fds" where
  "recv_conn room parse_control parse_rights file_conn max_header got t =
     (case got of
        Inl e \<Rightarrow> (Inl (ReadingMessage e), t)
      | Inr m \<Rightarrow> (case fd_install_all (take room (um_rights m)) t of (arrived, t1) \<Rightarrow>
         (case parse_control arrived of
            Inl e \<Rightarrow> (Inl (ParsingControl e), t1)
          | Inr [] \<Rightarrow> (Inl NoDescriptor, t1)
          | Inr (scm # _) \<Rightarrow> (case parse_rights scm of
              Inl e \<Rightarrow> (Inl (ParsingRights (Some e)), t1)
            | Inr [] \<Rightarrow> (Inl (ParsingRights None), t1)
            | Inr (fd # _) \<Rightarrow>
                (if fd < 0 then (Inl InvalidDescriptor, t1)
                 else (case file_conn (fd_file t1 (nat fd)) of
                     Inl e \<Rightarrow> (Inl (RebuildingConn e), fd_close (nat fd) t1)
                   | Inr f \<Rightarrow> (case fd_install f t1 of (conn, t2) \<Rightarrow>
                       (Inr (conn, take max_header (um_data m)), fd_close (nat fd) t2))))))))"

section \<open>The server\<close>

text \<open>\<open>startWireServer\<close>, \<open>addr\<close> and the accept loop of \<open>serve\<close>: what it hands to \<open>handle\<close> and what it closes.\<close>

record wire_server =
  wsv_path :: string
  wsv_registry :: cancel_registry

definition wire_socket_path :: "string \<Rightarrow> nat \<Rightarrow> string" where
  "wire_socket_path tmpdir pid = join_path [tmpdir, ''doze-wire-'' @ dec_nat pid @ ''.sock'']"

definition start_wire_server :: "(string \<Rightarrow> string option) \<Rightarrow> string \<Rightarrow> nat \<Rightarrow> string + wire_server" where
  "start_wire_server listen tmpdir pid =
     (let path = wire_socket_path tmpdir pid in
      (case listen path of Some e \<Rightarrow> Inl e
       | None \<Rightarrow> Inr \<lparr>wsv_path = path, wsv_registry = new_cancel_registry\<rparr>))"

definition wire_server_addr :: "wire_server \<Rightarrow> string" where
  "wire_server_addr w = wsv_path w"

datatype 'c accepted = AcceptFailed | UnixConn 'c | OtherConn 'c

fun serve_wire :: "'c accepted list \<Rightarrow> 'c list \<times> 'c list" where
  "serve_wire [] = ([], [])"
| "serve_wire (AcceptFailed # as) = ([], [])"
| "serve_wire (OtherConn c # as) = (case serve_wire as of (handled, closed) \<Rightarrow> (handled, c # closed))"
| "serve_wire (UnixConn c # as) = (case serve_wire as of (handled, closed) \<Rightarrow> (c # handled, closed))"

text \<open>The start of \<open>handle\<close>: the client's connection and the options it is served with, or nothing.\<close>

definition handle_begin where
  "handle_begin room parse_control parse_rights file_conn unmarshal parse_key got t =
     (case recv_conn room parse_control parse_rights file_conn max_wire_header got t of
        (Inl e, t') \<Rightarrow> (None, t')
      | (Inr (client, hb), t') \<Rightarrow> (Some (client, handle_opts unmarshal parse_key hb), t'))"

text \<open>What doze hands the plugin's driver of a connection (\<open>WireHost\<close> of \<open>engine/wire.go\<close>), over a world, and the
  header \<open>Handoff\<close> makes of it.\<close>

record 'w wire_host =
  who_boot :: "('w, string + endpoint) act"
  who_acquire :: "'w \<Rightarrow> 'w"
  who_release :: "'w \<Rightarrow> 'w"
  who_require_tls :: bool
  who_local_unix :: bool
  who_tls_cert :: string
  who_tls_key :: string

definition host_header :: "'w wire_host \<Rightarrow> wire_header" where
  "host_header host = \<lparr>wh_require_tls = who_require_tls host, wh_local_unix = who_local_unix host,
     wh_tls_cert = who_tls_cert host, wh_tls_key = who_tls_key host\<rparr>"

text \<open>\<open>newEngineServer\<close>: a driver with a filter gets a wire server, if it can listen.\<close>

record ('v, 'c, 'w) engine_server =
  es_drv :: "('v, 'c, 'w) driver"
  es_wire :: "wire_server option"

definition new_engine_server ::
  "(string \<Rightarrow> string option) \<Rightarrow> string \<Rightarrow> nat \<Rightarrow> ('v, 'c, 'w) driver \<Rightarrow> ('v, 'c, 'w) engine_server" where
  "new_engine_server listen tmpdir pid drv = \<lparr>es_drv = drv,
     es_wire = (if dr_proxy_filter drv
       then (case start_wire_server listen tmpdir pid of Inl e \<Rightarrow> None | Inr w \<Rightarrow> Some w) else None)\<rparr>"

definition wire_path :: "('v, 'c, 'w) engine_server \<Rightarrow> string" where
  "wire_path srv = server_wire_addr (map_option wire_server_addr (es_wire srv))"

section \<open>Properties\<close>

lemma send_conn_sent: "send_conn raw_err control_err write_err header conn = (None, Some m) \<Longrightarrow>
   m = \<lparr>um_data = header, um_rights = [conn]\<rparr>"
  by (auto simp: send_conn_def split: option.splits)

lemma recv_conn_one:
  assumes "0 < room" "\<And>fds. fds \<noteq> [] \<Longrightarrow> parse_control fds = Inr [fds]" "\<And>fds. parse_rights fds = Inr fds"
    and "file_conn (Some f) = Inr f" "um_rights m = [f]"
  shows "\<exists>c t'. recv_conn room parse_control parse_rights file_conn max_header (Inr m) t = (Inr (c, take max_header (um_data m)), t')
    \<and> fd_file t' c = Some f \<and> (\<forall>i. i \<noteq> c \<longrightarrow> fd_file t' i = fd_file t i)"
proof -
  obtain i t1 where i: "fd_install f t = (i, t1)" by (cases "fd_install f t")
  obtain c t2 where c: "fd_install f t1 = (c, t2)" by (cases "fd_install f t1")
  have rights: "take room [f] = [f]" using assms(1) by simp
  have t1: "fd_file t i = None" "fd_file t1 j = (if j = i then Some f else fd_file t j)" for j
    using fd_install_file[OF i] by auto
  have t2: "fd_file t1 c = None" "fd_file t2 j = (if j = c then Some f else fd_file t1 j)" for j
    using fd_install_file[OF c] by auto
  have "recv_conn room parse_control parse_rights file_conn max_header (Inr m) t
      = (Inr (c, take max_header (um_data m)), fd_close i t2)"
    using t1 assms(2-5) by (simp add: recv_conn_def rights i c)
  moreover have "c \<noteq> i" using t1(2)[of i] t2(1) by auto
  ultimately show ?thesis using t1 t2 by auto
qed


definition demo_marshal :: "wire_header \<Rightarrow> string" where
  "demo_marshal h = [if wh_require_tls h then CHR ''1'' else CHR ''0'', if wh_local_unix h then CHR ''1'' else CHR ''0'']"

definition demo_unmarshal :: "string \<Rightarrow> wire_header option" where
  "demo_unmarshal s = (case s of [a, b] \<Rightarrow> Some (zero_header\<lparr>wh_require_tls := a = CHR ''1'', wh_local_unix := b = CHR ''1''\<rparr>) | _ \<Rightarrow> None)"


text \<open>A descriptor that is no connection is closed again.\<close>

lemma rebuild_failure_leaks_nothing:
  assumes "recv_conn room parse_control parse_rights file_conn max_header (Inr m) t = (Inl (RebuildingConn e), t')"
    and "\<And>fds. fds \<noteq> [] \<Longrightarrow> parse_control fds = Inr [fds]" "\<And>fds. parse_rights fds = Inr fds" "um_rights m = [f]" "0 < room"
  shows "fd_file t' i = fd_file t i"
proof -
  obtain k t1 where k: "fd_install f t = (k, t1)" by (cases "fd_install f t")
  have rights: "take room [f] = [f]" using assms(5) by simp
  have "t' = fd_close k t1" using assms(1-4) by (simp add: recv_conn_def rights k split: sum.splits prod.splits)
  then show ?thesis using fd_install_file[OF k] by auto
qed

text \<open>The control buffer of a \<open>recvConn\<close> is made for one descriptor. With Linux's alignment it holds two,
  and the second one a sender adds stays open in the module.\<close>

lemma room_for_two: "fd_room 8 16 = 2" "fd_room 4 12 = 1"
  by (simp_all add: fd_room_def cmsg_space_def cmsg_align_def)

lemma second_descriptor_stays:
  "recv_conn (fd_room 8 16) (\<lambda>fds. Inr (if fds = [] then [] else [fds])) Inr (\<lambda>f. case f of None \<Rightarrow> Inl ''bad'' | Some g \<Rightarrow> Inr g)
     max_wire_header (Inr \<lparr>um_data = [], um_rights = [''a'', ''b'']\<rparr>) []
   = (Inr (2, []), [None, Some ''b'', Some ''a''])"
  by (simp add: recv_conn_def room_for_two fd_file_def fd_close_def)

text \<open>What the accept loop does with a list of results: every unix connection up to the first error is handled,
  in order, and every other one closed.\<close>

lemma serve_wire_handled:
  "serve_wire as = (concat (map (\<lambda>a. case a of UnixConn c \<Rightarrow> [c] | _ \<Rightarrow> []) (takeWhile (\<lambda>a. a \<noteq> AcceptFailed) as)),
     concat (map (\<lambda>a. case a of OtherConn c \<Rightarrow> [c] | _ \<Rightarrow> []) (takeWhile (\<lambda>a. a \<noteq> AcceptFailed) as)))"
  by (induction as rule: serve_wire.induct) auto

text \<open>The host uses a module's own wire exactly when the module has a filter and its server could listen: then the
  address it asks for is the socket, and it goes on to hand over; otherwise it falls back to its own splice.\<close>

lemma handoff_reaches_the_server:
  assumes srv: "srv = new_engine_server listen tmpdir pid drv" and "rooted tmpdir"
  shows "handoff_begin (dr_proxy_filter drv) (fst (wire_addr (Inr (wire_path srv)) None)) True None None
    = (if dr_proxy_filter drv \<and> listen (wire_socket_path tmpdir pid) = None then None else Some NoWireProxy)"
proof -
  have "rooted (wire_socket_path tmpdir pid)" unfolding wire_socket_path_def by (rule rooted_join[OF assms(2)])
  then have "wire_socket_path tmpdir pid \<noteq> []" by (auto simp: rooted_def)
  then show ?thesis
    by (simp add: srv handoff_begin_def wire_addr_def Let_def wire_path_def new_engine_server_def server_wire_addr_def
        start_wire_server_def wire_server_addr_def split: option.split)
qed

end
