(* ===== verification/Entry.thy ===== *)
theory Entry
  imports Modules Json Types
begin

text \<open>
  What a module's binary does when it is started: \<open>Serve\<close> of \<open>plugin/sdk.go\<close> and \<open>Main\<close> of
  \<open>plugin/main.go\<close>. Asked to describe itself it prints its description as JSON, else it speaks the
  plugin protocol, with the one plugin of every protocol version it knows.
\<close>

section \<open>The description as JSON\<close>

text \<open>What \<open>json.Encoder\<close> writes: the fields of a struct in their order, a nil slice as \<open>null\<close> (an empty one is
  taken for nil), and in strings the characters of HTML escaped.\<close>

definition html_char :: "char \<Rightarrow> string" where
  "html_char c = (if c = CHR ''<'' then CHR 0x5C # ''u003c'' else if c = CHR ''>'' then CHR 0x5C # ''u003e''
     else if c = CHR ''&'' then CHR 0x5C # ''u0026'' else [c])"

definition json_string :: "string \<Rightarrow> string" where
  "json_string s = concat (map html_char (enc_string s))"

definition json_bool :: "bool \<Rightarrow> string" where
  "json_bool b = (if b then ''true'' else ''false'')"

definition json_slice :: "string list \<Rightarrow> string" where
  "json_slice ts = (if ts = [] then ''null'' else ''['' @ join_with '','' ts @ '']'')"

definition json_struct :: "(string \<times> string) list \<Rightarrow> string" where
  "json_struct members = ''{'' @ join_with '','' (map (\<lambda>(k, t). json_string k @ '':'' @ t) members) @ ''}''"

definition json_config_arg :: "config_arg \<Rightarrow> string" where
  "json_config_arg a = json_struct [(''Name'', json_string (ca_name a)), (''Type'', json_string (ca_type a)),
     (''Default'', json_string (ca_default a)), (''Desc'', json_string (ca_desc a)), (''Required'', json_bool (ca_required a)),
     (''Since'', json_string (ca_since a)), (''Until'', json_string (ca_until a))]"

definition json_config_block :: "config_block \<Rightarrow> string" where
  "json_config_block b = json_struct [(''Name'', json_string (cb_name b)), (''Label'', json_string (cb_label b)),
     (''Desc'', json_string (cb_desc b)), (''Args'', json_slice (map json_config_arg (cb_args b)))]"

definition json_description :: "description \<Rightarrow> string" where
  "json_description d = json_struct [(''Title'', json_string (ds_title d)), (''Tagline'', json_string (ds_tagline d)),
     (''Category'', json_string (ds_category d)), (''Description'', json_string (ds_description d)), (''Port'', dec_int (ds_port d)),
     (''Versions'', json_slice (map json_string (ds_versions d))), (''Example'', json_string (ds_example d)),
     (''ExampleLabel'', json_string (ds_example_label d)), (''Config'', json_slice (map json_config_arg (ds_config d))),
     (''Blocks'', json_slice (map json_config_block (ds_blocks d))), (''Homepage'', json_string (ds_homepage d)),
     (''Source'', json_string (ds_source d))]"

definition zero_description :: description where
  "zero_description = \<lparr>ds_title = [], ds_tagline = [], ds_category = [], ds_description = [], ds_port = 0, ds_versions = [],
     ds_example = [], ds_example_label = [], ds_config = [], ds_blocks = [], ds_homepage = [], ds_source = []\<rparr>"

section \<open>Serve and Main\<close>

definition describe_arg :: string where "describe_arg = ''__describe''"

text \<open>What a start comes to: something printed, or a plugin served.\<close>

datatype 'd started = Prints string | Speaks "(int \<times> (string \<times> 'd option) list) list"

definition has_mode :: "string list \<Rightarrow> string \<Rightarrow> bool" where
  "has_mode argv mode = (length argv > 1 \<and> argv ! 1 = mode)"

definition sdk_serve :: "string list \<Rightarrow> ('d \<Rightarrow> description option) \<Rightarrow> 'd \<Rightarrow> 'd started" where
  "sdk_serve argv describer drv =
     (if has_mode argv describe_arg
      then (let desc = (case describer drv of Some d \<Rightarrow> d | None \<Rightarrow> zero_description)
            in Prints (json_description desc @ [CHR 0x0A]))
      else Speaks (versioned_set (Some drv)))"

text \<open>\<open>Main\<close> registers the config's type with gob first; \<open>types\<close> are the ones registered so far.\<close>

definition sdk_main :: "string list \<Rightarrow> ('d \<Rightarrow> description option) \<Rightarrow> 'd \<Rightarrow> 'ty option \<Rightarrow> 'ty list \<Rightarrow> 'd started \<times> 'ty list" where
  "sdk_main argv describer drv config types =
     (sdk_serve argv describer drv, case config of None \<Rightarrow> types | Some ty \<Rightarrow> types @ [ty])"

section \<open>What the host finds\<close>

text \<open>A host that launches a module finds its driver under the newest protocol, and a module is never
  offered without one.\<close>

lemma sdk_serve_speaks:
  "\<not> has_mode argv describe_arg \<Longrightarrow> sdk_serve argv describer drv = Speaks [(protocol_version, [(plugin_key, Some drv)])]"
  by (simp add: sdk_serve_def versioned_set_def protocols_def plugin_set_def)

text \<open>A driver that does not describe itself prints every field at its zero value.\<close>

lemma undescribed_prints_every_field:
  "describer drv = None \<Longrightarrow> sdk_serve [''mod'', describe_arg] describer drv = Prints (
     ''{'' @ join_with '','' (map (\<lambda>(k, t). [CHR 0x22] @ k @ [CHR 0x22] @ '':'' @ t)
       [(''Title'', [CHR 0x22, CHR 0x22]), (''Tagline'', [CHR 0x22, CHR 0x22]), (''Category'', [CHR 0x22, CHR 0x22]),
        (''Description'', [CHR 0x22, CHR 0x22]), (''Port'', ''0''), (''Versions'', ''null''), (''Example'', [CHR 0x22, CHR 0x22]),
        (''ExampleLabel'', [CHR 0x22, CHR 0x22]), (''Config'', ''null''), (''Blocks'', ''null''),
        (''Homepage'', [CHR 0x22, CHR 0x22]), (''Source'', [CHR 0x22, CHR 0x22])]) @ ''}'' @ [CHR 0x0A])"
proof -
  assume d: "describer drv = None"
  have "json_description zero_description = ''{'' @ join_with '','' (map (\<lambda>(k, t). [CHR 0x22] @ k @ [CHR 0x22] @ '':'' @ t)
       [(''Title'', [CHR 0x22, CHR 0x22]), (''Tagline'', [CHR 0x22, CHR 0x22]), (''Category'', [CHR 0x22, CHR 0x22]),
        (''Description'', [CHR 0x22, CHR 0x22]), (''Port'', ''0''), (''Versions'', ''null''), (''Example'', [CHR 0x22, CHR 0x22]),
        (''ExampleLabel'', [CHR 0x22, CHR 0x22]), (''Config'', ''null''), (''Blocks'', ''null''),
        (''Homepage'', [CHR 0x22, CHR 0x22]), (''Source'', [CHR 0x22, CHR 0x22])]) @ ''}''"
    by code_simp
  then show ?thesis using d by (simp add: sdk_serve_def has_mode_def)
qed

end
