(* ===== verification/Httpd.thy ===== *)
theory Httpd
  imports Entry Harness Extract
begin

text \<open>
  The example module \<open>example/httpd.go\<close>: a driver whose binary runs itself again as the server. The driver is
  a value of the driver contract over a world with a file system; its plan, the flags of the server it names and
  the server's own reading of them are all here, so that what is planned can be compared with what runs.
  gohcl, \<open>net.Listen\<close> and the file server are parameters. Paths of the file system are absolute.
\<close>

section \<open>The driver\<close>

record http_config =
  hc_root :: string

record http_world =
  hw_fs :: fs
  hw_exe :: "string + string"
  hw_served :: "(string \<times> string) list"
  hw_clock :: int

definition httpd_type :: string where "httpd_type = ''httpd''"

definition httpd_resolve :: "string \<Rightarrow> platform \<Rightarrow> go_error + toolchain" where
  "httpd_resolve spec plat = Inr (zero_toolchain\<lparr>tc_engine := httpd_type, tc_full := ''builtin''\<rparr>)"

definition make_dir :: "string \<Rightarrow> http_world \<Rightarrow> string option \<times> http_world" where
  "make_dir dir w = (case mkdir_all (hw_fs w) (comps dir) of
     Inl e \<Rightarrow> (Some e, w) | Inr fs \<Rightarrow> (None, w\<lparr>hw_fs := fs\<rparr>))"

definition httpd_provision :: "http_config inst \<Rightarrow> toolchain \<Rightarrow> (http_world, go_error option) act" where
  "httpd_provision inst tc w = (case make_dir (in_data_dir inst) w of
     (Some e, w1) \<Rightarrow> (Some (Plain e), w1) | (None, w1) \<Rightarrow> (None, w1))"

definition httpd_provisioned :: "string \<Rightarrow> (http_world, bool) act" where
  "httpd_provisioned dataDir w = (is_dir (hw_fs w) (comps dataDir), w)"

definition httpd_decode :: "('d \<Rightarrow> 'c gomap \<Rightarrow> http_config \<times> diag list) \<Rightarrow> ('d, 'c, http_config) decode_fn" where
  "httpd_decode gohcl body ctx base version = (case decode_strict (gohcl body ctx) of
     Inl ds \<Rightarrow> FailedAt ds
   | Inr c \<Rightarrow> Decoded (SpecValue (if hc_root c = [] then c\<lparr>hc_root := ''.''\<rparr> else c)))"

definition httpd_backend_socket :: "string \<Rightarrow> int \<Rightarrow> string" where
  "httpd_backend_socket socketDir port = join_path [socketDir, ''httpd.sock'']"

definition serve_mode :: string where "serve_mode = ''__serve''"

definition httpd_root :: "http_config inst \<Rightarrow> string" where
  "httpd_root inst = (case in_spec inst of SpecValue c \<Rightarrow> hc_root c | _ \<Rightarrow> ''.'')"

definition httpd_plan :: "(http_config, http_world) spawner" where
  "httpd_plan inst tc w = (case make_dir (in_socket_dir inst) w of
     (Some e, w1) \<Rightarrow> (Inl (Plain e), w1)
   | (None, w1) \<Rightarrow>
      (let socket = httpd_backend_socket (in_socket_dir inst) (in_port inst); root = httpd_root inst in
       case hw_exe w1 of
         Inl e \<Rightarrow> (Inl (Plain e), w1)
       | Inr self \<Rightarrow> (Inr \<lparr>sp_specs = [\<lparr>ss_name = in_name inst, ss_dir = [], ss_bin = self,
            ss_args = [serve_mode, ''--socket'', socket, ''--root'', root], ss_env = [], ss_tree = False, ss_after = [],
            ss_ready = Some \<lparr>rd_kind = ''socket'', rd_target = socket, rd_interval = 0, rd_timeout = 0, rd_retries = 0\<rparr>,
            ss_hooks = []\<rparr>]\<rparr>, w1)))"

definition httpd_conn_string :: "http_config inst \<Rightarrow> endpoint \<Rightarrow> string \<times> string" where
  "httpd_conn_string inst ep =
     (let host = (if ep_tcp_addr ep = [] then ''127.0.0.1'' else ep_tcp_addr ep) in (''HTTPD_URL'', ''http://'' @ host))"

definition httpd :: "(http_config, 'c, http_world) driver" where
  "httpd = \<lparr>dr_type = httpd_type, dr_provision = httpd_provision, dr_provisioned = httpd_provisioned,
     dr_backend_socket = (\<lambda>dir port w. (httpd_backend_socket dir port, w)),
     dr_conn_string = (\<lambda>inst ep w. (httpd_conn_string inst ep, w)),
     dr_converge = None, dr_objects = None, dr_prune = None, dr_attributes = None, dr_backend_url = None,
     dr_supervised = None, dr_hooked = None, dr_health = None, dr_restart = None, dr_advertised = None,
     dr_plan = Some httpd_plan, dr_versionless = True, dr_templater = None, dr_proxy_filter = False,
     dr_admin = None, dr_console = None, dr_network = None, dr_boot_budget = None\<rparr>"

lemma httpd_methods [simp]: "dr_type httpd = httpd_type" "dr_provision httpd = httpd_provision"
  "dr_backend_socket httpd dir port w = (httpd_backend_socket dir port, w)" "dr_converge httpd = None"
  "dr_plan httpd = Some httpd_plan" "dr_boot_budget httpd = None"
  by (simp_all add: httpd_def)

section \<open>Flags\<close>

text \<open>\<open>flag.FlagSet.Parse\<close> with string flags: the values of the flags that are defined, and the arguments left.\<close>

datatype flag_error = BadSyntax string | NotDefined string | HelpAsked | NeedsArgument string

fun parse_flags :: "string gomap \<Rightarrow> string list \<Rightarrow> flag_error + (string gomap \<times> string list)" where
  "parse_flags vals [] = Inr (vals, [])"
| "parse_flags vals (s # args) =
     (if length s < 2 \<or> hd s \<noteq> CHR ''-'' then Inr (vals, s # args)
      else if s = ''--'' then Inr (vals, args)
      else (let body = (if has_prefix s ''--'' then drop 2 s else drop 1 s);
                name = fst (cut_char CHR ''='' body) in
        if body = [] \<or> hd body = CHR ''-'' \<or> hd body = CHR ''='' then Inl (BadSyntax s)
        else if map_of vals name = None
          then Inl (if name = ''help'' \<or> name = ''h'' then HelpAsked else NotDefined name)
        else if CHR ''='' \<in> set body then parse_flags (mput name (snd (cut_char CHR ''='' body)) vals) args
        else (case args of
            [] \<Rightarrow> Inl (NeedsArgument name)
          | v # rest \<Rightarrow> parse_flags (mput name v vals) rest)))"

definition flag_text :: "flag_error \<Rightarrow> string" where
  "flag_text e = (case e of BadSyntax s \<Rightarrow> ''bad flag syntax: '' @ s
     | NotDefined n \<Rightarrow> ''flag provided but not defined: -'' @ n
     | HelpAsked \<Rightarrow> ''flag: help requested''
     | NeedsArgument n \<Rightarrow> ''flag needs an argument: -'' @ n)"

section \<open>The server\<close>

text \<open>\<open>serve\<close> up to the point where it serves, with the socket and the directory it serves; removing the
  socket's file and listening act on the world.\<close>

definition httpd_serve ::
  "(string \<Rightarrow> 'w \<Rightarrow> 'w) \<Rightarrow> (string \<Rightarrow> 'w \<Rightarrow> string option \<times> 'w) \<Rightarrow> string list \<Rightarrow> ('w, string + string \<times> string) act" where
  "httpd_serve rm listen args w = (case parse_flags [(''socket'', []), (''root'', ''.'')] args of
     Inl e \<Rightarrow> (Inl (flag_text e), w)
   | Inr (vals, rest) \<Rightarrow>
      (let socket = mget [] vals ''socket''; root = mget [] vals ''root'' in
       case listen socket (rm socket w) of
         (Some e, w1) \<Rightarrow> (Inl e, w1)
       | (None, w1) \<Rightarrow> (Inr (socket, root), w1)))"

text \<open>\<open>main\<close>: the server's exit or what it serves, or the plugin.\<close>

datatype 'd httpd_run = ExitsWith string | ServesFiles string string | Module "'d started" "string list"

definition httpd_main ::
  "(string \<Rightarrow> 'w \<Rightarrow> 'w) \<Rightarrow> (string \<Rightarrow> 'w \<Rightarrow> string option \<times> 'w) \<Rightarrow> string list \<Rightarrow>
   ('w, (http_config, 'c, http_world) driver httpd_run) act" where
  "httpd_main rm listen argv w =
     (if has_mode argv serve_mode
      then (case httpd_serve rm listen (drop 2 argv) w of
          (Inl e, w1) \<Rightarrow> (ExitsWith e, w1)
        | (Inr (socket, root), w1) \<Rightarrow> (ServesFiles socket root, w1))
      else (case sdk_main argv (\<lambda>_. None) httpd (Some ''*main.Config'') [] of (started, types) \<Rightarrow> (Module started types, w)))"

section \<open>Preparing an instance\<close>

text \<open>What the driver contract says of \<open>Provision\<close>: it is idempotent, and \<open>Provisioned\<close> sees what it did.\<close>

locale provisioning =
  fixes provision :: "'v inst \<Rightarrow> toolchain \<Rightarrow> ('w, go_error option) act"
    and provisioned :: "string \<Rightarrow> ('w, bool) act"
  assumes provision_seen: "provision inst tc w = (None, w') \<Longrightarrow> fst (provisioned (in_data_dir inst) w')"
    and provision_again: "provision inst tc w = (None, w') \<Longrightarrow> provision inst tc w' = (None, w')"
    and provisioned_reads: "snd (provisioned dir w) = w"
begin

lemma provisioned_after: "provision inst tc w = (None, w') \<Longrightarrow> provisioned (in_data_dir inst) w' = (True, w')"
  using provision_seen[of inst tc w w'] provisioned_reads[of "in_data_dir inst" w'] by (metis (full_types) prod.collapse)

lemma provision_repeated: "provision inst tc w = (None, w') \<Longrightarrow> ((\<lambda>v. snd (provision inst tc v)) ^^ n) w' = w'"
  by (induction n) (simp_all add: provision_again)

end

lemma make_dir_made: "make_dir dir w = (None, w') \<Longrightarrow> is_dir (hw_fs w') (comps dir) \<and> make_dir dir w' = (None, w')"
  by (auto simp: make_dir_def mkdir_all_made split: sum.splits)

lemma make_dir_keeps: "make_dir dir w = (r, w') \<Longrightarrow> hw_exe w' = hw_exe w \<and> hw_served w' = hw_served w \<and> hw_clock w' = hw_clock w"
  by (auto simp: make_dir_def split: sum.splits)

lemma httpd_provision_iff: "httpd_provision inst tc w = (None, w') \<longleftrightarrow> make_dir (in_data_dir inst) w = (None, w')"
  by (auto simp: httpd_provision_def split: prod.splits option.splits)

interpretation httpd: provisioning httpd_provision httpd_provisioned
  by unfold_locales (simp_all add: httpd_provision_iff httpd_provisioned_def make_dir_made)

text \<open>A directory made stays made while others are.\<close>

lemma make_dir_stays:
  assumes "make_dir a w = (None, w1)" "make_dir b w1 = (None, w2)"
  shows "make_dir a w2 = (None, w2)"
proof -
  have 1: "mkdir_all (hw_fs w) (comps a) = Inr (hw_fs w1)" "mkdir_all (hw_fs w1) (comps b) = Inr (hw_fs w2)"
    using assms by (auto simp: make_dir_def split: sum.splits)
  have "is_dir (hw_fs w1) p" if "p \<in> set (prefixes (comps a))" for p
    using mkdir_list_dirs[OF 1(1)[unfolded mkdir_all_def] that] .
  then have "\<forall>p\<in>set (prefixes (comps a)). is_dir (hw_fs w2) p"
    using mkdir_list_keeps[OF 1(2)[unfolded mkdir_all_def]] by blast
  then show ?thesis by (simp add: make_dir_def mkdir_all_def mkdir_list_there)
qed

section \<open>What is planned is what runs\<close>

lemma parse_socket_root:
  "parse_flags [(''socket'', d), (''root'', e)] [''--socket'', s, ''--root'', r] = Inr ([(''socket'', s), (''root'', r)], [])"
  by (simp add: has_prefix_def cut_char_def)

declare parse_flags.simps [simp del]

lemma httpd_main_serves:
  "httpd_main rm listen [self, serve_mode, ''--socket'', s, ''--root'', r] v =
     (case listen s (rm s v) of (Some e, v1) \<Rightarrow> (ExitsWith e, v1) | (None, v1) \<Rightarrow> (ServesFiles s r, v1))"
  by (simp add: httpd_main_def has_mode_def httpd_serve_def parse_socket_root mget_def split: prod.split option.split)

text \<open>C32. The one process of httpd's plan, given back its own arguments, serves exactly what was planned, for any
  socket directory and any root, one that looks like a flag included: it listens on the socket that
  \<open>BackendSocket\<close> names, which is the one its readiness probe dials, and serves the configured root; and the
  socket's directory is there before it starts.\<close>

theorem httpd_plan_serves:
  assumes "httpd_plan inst tc w = (Inr plan, w1)"
  shows "\<exists>spec sock. sp_specs plan = [spec] \<and> sock = httpd_backend_socket (in_socket_dir inst) (in_port inst)
    \<and> map_option rd_target (ss_ready spec) = Some sock
    \<and> is_dir (hw_fs w1) (comps (in_socket_dir inst))
    \<and> (\<forall>rm listen v v1. listen sock (rm sock v) = (None, v1) \<longrightarrow>
        httpd_main rm listen (ss_bin spec # ss_args spec) v = (ServesFiles sock (httpd_root inst), v1))"
proof -
  obtain w0 where m: "make_dir (in_socket_dir inst) w = (None, w0)"
    using assms by (auto simp: httpd_plan_def split: prod.splits option.splits)
  then obtain self where s: "hw_exe w0 = Inr self"
    using assms by (auto simp: httpd_plan_def Let_def split: sum.splits)
  show ?thesis using assms make_dir_made[OF m] by (auto simp: httpd_plan_def m s Let_def httpd_main_serves)
qed

definition demo_world :: http_world where
  "demo_world = \<lparr>hw_fs = [], hw_exe = Inr ''/bin/httpd'', hw_served = [], hw_clock = 0\<rparr>"

definition demo_site :: "http_config inst" where
  "demo_site = zero_instance\<lparr>in_name := ''site'', in_socket_dir := ''/s'', in_spec := SpecValue \<lparr>hc_root = ''--root''\<rparr>\<rparr>"

lemma httpd_plan_serves_witness:
  "\<exists>plan w1 spec. httpd_plan demo_site zero_toolchain demo_world = (Inr plan, w1) \<and> sp_specs plan = [spec]
     \<and> httpd_main (\<lambda>s v. v) (\<lambda>s v. (None, v)) (ss_bin spec # ss_args spec) () = (ServesFiles ''/s/httpd.sock'' ''--root'', ())"
proof -
  have "fst (httpd_plan demo_site zero_toolchain demo_world) = Inr (projr (fst (httpd_plan demo_site zero_toolchain demo_world)))"
    by code_simp
  then obtain plan w1 where p: "httpd_plan demo_site zero_toolchain demo_world = (Inr plan, w1)" by (metis prod.collapse)
  have "httpd_backend_socket ''/s'' 0 = ''/s/httpd.sock''" by code_simp
  then show ?thesis using httpd_plan_serves[OF p] p
    by (fastforce simp: demo_site_def zero_instance_def httpd_root_def)
qed

section \<open>Booting it in the harness\<close>

text \<open>A machine that runs what it is asked to start through \<open>httpd_main\<close>: a server can listen where its
  socket's directory is, and a socket that is listened on can be dialled.\<close>

definition listen_at :: "string \<Rightarrow> http_world \<Rightarrow> string option \<times> http_world" where
  "listen_at s w = (if is_dir (hw_fs w) (comps (dir_of s)) then None else Some ''no such file or directory'', w)"

definition unlisten_at :: "string \<Rightarrow> http_world \<Rightarrow> http_world" where
  "unlisten_at s w = w\<lparr>hw_served := filter (\<lambda>(t, r). t \<noteq> s) (hw_served w)\<rparr>"

definition run_httpd :: "command \<Rightarrow> http_world \<Rightarrow> http_world" where
  "run_httpd c w = (case (httpd_main unlisten_at listen_at (cm_bin c # cm_args c) w
       :: (http_config, unit, http_world) driver httpd_run \<times> http_world) of
     (ServesFiles s r, w1) \<Rightarrow> w1\<lparr>hw_served := (s, r) # hw_served w1\<rparr>
   | (_, w1) \<Rightarrow> w1)"

definition httpd_machine :: "http_world machine" where
  "httpd_machine = \<lparr>mc_environ = [], mc_start = (\<lambda>c w. (Inr 1, run_httpd c w)), mc_run = (\<lambda>c w. (None, w)),
     mc_dial = (\<lambda>net addr w. (net = ''unix'' \<and> addr \<in> fst ` set (hw_served w), w)), mc_get = (\<lambda>u w. (False, w)),
     mc_log = (\<lambda>w p. []), mc_now = hw_clock, mc_sleep = (\<lambda>d w. w\<lparr>hw_clock := hw_clock w + d\<rparr>)\<rparr>"

definition httpd_testbed :: "string \<Rightarrow> http_world testbed" where
  "httpd_testbed base = \<lparr>tb_machine = httpd_machine,
     tb_getenv = (\<lambda>v. if v = ''DOZE_HTTPD_BINDIR'' then ''/bin'' else []), tb_goos = ''linux'', tb_goarch = ''amd64'',
     tb_listen = (\<lambda>w. (Inr 4000, w)), tb_temp_dir = (\<lambda>w. (base, w)), tb_mkdir = make_dir\<rparr>"

lemma socket_dir: "rooted dir \<Longrightarrow> comps (dir_of (httpd_backend_socket dir port)) = comps dir"
proof -
  assume r: "rooted dir"
  have p: "plain_comp ''httpd.sock''" by code_simp
  have "comps (dir_of (clean (join_path [dir, ''httpd.sock'']))) = butlast (comps (join_path [dir, ''httpd.sock'']))"
    by (rule comps_dir_join[OF rooted_join[OF r]])
  then show ?thesis
    using comps_join_plain[OF r p] by (simp add: httpd_backend_socket_def join_path_clean[OF r])
qed

lemma run_planned:
  assumes "rooted dir" "is_dir (hw_fs w) (comps dir)"
  shows "run_httpd \<lparr>cm_bin = self, cm_args = [serve_mode, ''--socket'', httpd_backend_socket dir port, ''--root'', root],
      cm_dir = d, cm_env = e, cm_group = g\<rparr> w =
    (unlisten_at (httpd_backend_socket dir port) w)\<lparr>hw_served := (httpd_backend_socket dir port, root)
       # hw_served (unlisten_at (httpd_backend_socket dir port) w)\<rparr>"
  using assms by (simp add: run_httpd_def httpd_main_serves listen_at_def unlisten_at_def socket_dir)

text \<open>Spawning httpd's plan on this machine takes one process and one probe.\<close>

lemma spawn_httpd:
  assumes "rooted (in_socket_dir (bd_instance b))" "make_dir (in_socket_dir (bd_instance b)) w = (None, w0)" "hw_exe w = Inr self"
    and "bd_procs b = []" "0 < timeout"
  shows "\<exists>w' ps. spawn httpd_machine (httpd :: (http_config, 'c, http_world) driver) extra timeout b w = Some (None, w', ps)
    \<and> (httpd_backend_socket (in_socket_dir (bd_instance b)) (in_port (bd_instance b)), httpd_root (bd_instance b)) \<in> set (hw_served w')
    \<and> length ps = 1"
proof -
  let ?s = "httpd_backend_socket (in_socket_dir (bd_instance b)) (in_port (bd_instance b))"
  have k: "hw_exe w0 = Inr self" "hw_clock w0 = hw_clock w" using make_dir_keeps[OF assms(2)] assms(3) by auto
  have d: "is_dir (hw_fs w0) (comps (in_socket_dir (bd_instance b)))" using make_dir_made[OF assms(2)] by blast
  show ?thesis
    using assms(4,5)
    by (simp add: spawn_def httpd_plan_def assms(2) k Let_def spawn_plan_run_def spawn_loop.simps extract_def
        dropWhile_eq_Nil_conv deps_ready_def boot_spec_def start_spec_def spec_command_def environment_def
        httpd_machine_def run_planned[OF assms(1) d] wait_ready_def poll_ready.simps probe_def unlisten_at_def)
qed


definition demo_gohcl :: "string \<Rightarrow> unit gomap \<Rightarrow> http_config \<times> diag list" where
  "demo_gohcl body ctx = (\<lparr>hc_root = body\<rparr>, [])"

definition demo_options :: options where
  "demo_options = \<lparr>op_version = [], op_name = ''site'', op_port = 0, op_env = [], op_timeout = 0\<rparr>"


end
