(* ===== verification/Testmods.thy ===== *)
theory Testmods
  imports Adapter Httpd
begin

text \<open>
  The two modules the plugin wire is tested with: \<open>plugin/echo/main.go\<close>, which has a value for every shape of the
  contract it implements, and \<open>plugin/kvtest/main.go\<close>, whose plan shows the config it was given. Both are values of
  the driver contract; what a host sees of them follows from the two sides of the protocol.
\<close>

section \<open>echo\<close>

definition echo_resolve :: "fetcher \<Rightarrow> string \<Rightarrow> platform \<Rightarrow> go_error + toolchain" where
  "echo_resolve fetch spec plat =
     (if spec \<noteq> ''fetched'' then Inr (zero_toolchain\<lparr>tc_engine := ''echo'', tc_full := ''builtin''\<rparr>)
      else (case fc_major fetch ''echo'' ''1'' of
          Inl e \<Rightarrow> Inl e
        | Inr full \<Rightarrow> (case fc_ensure fetch ''echo'' full plat [] of
            Inl e \<Rightarrow> Inl e
          | Inr (bin, digest) \<Rightarrow> Inr (zero_toolchain\<lparr>tc_engine := ''echo'', tc_full := full, tc_bin_dir := bin\<rparr>))))"

definition echo_conn_string :: "'v inst \<Rightarrow> string \<times> string" where
  "echo_conn_string inst = (case grant_addr (in_grant inst) main_listener of
     (addr, ok) \<Rightarrow> if ok then (''ECHO_URL'', ''echo://'' @ addr) else (''ECHO_URL'', ''echo://local''))"

definition echo_network :: network where
  "echo_network = \<lparr>net_listeners = [zero_listener\<lparr>ls_name := main_listener, ls_protocol := protocol_tcp\<rparr>,
     \<lparr>ls_name = ''ui'', ls_port = 7001, ls_protocol = protocol_http, ls_routes = [''@'', ''api'', ''sync-@'']\<rparr>]\<rparr>"

definition echo_plan :: "('v, 'w) spawner" where
  "echo_plan inst tc w = (Inr \<lparr>sp_specs = [\<lparr>ss_name = in_name inst, ss_dir = [], ss_bin = ''sh'',
     ss_args = [''-c'', ''echo hello && sleep 3600''], ss_env = [], ss_tree = False, ss_after = [], ss_ready = None, ss_hooks = []\<rparr>]\<rparr>, w)"

definition echo_boot_budget :: int where "echo_boot_budget = 2 * 60 * 1000000000"

definition echo_actions :: "action list" where
  "echo_actions = [\<lparr>ac_id = ''ping'', ac_label = ''Ping'', ac_kind = ''echo'', ac_destructive = False, ac_input_hint = []\<rparr>]"

definition echo_resources :: "resource list" where
  "echo_resources = [\<lparr>re_kind = ''echo'', re_name = ''hello'', re_status = ''2 sent'', re_info = [(''sent'', ''2'')]\<rparr>,
     \<lparr>re_kind = ''echo'', re_name = ''world'', re_status = ''0 sent'', re_info = [(''sent'', ''0'')]\<rparr>]"

definition echo_run :: "string \<Rightarrow> string \<Rightarrow> string" where
  "echo_run action resource = action @ '' '' @ resource"

definition echo_column :: "string \<Rightarrow> string \<Rightarrow> string \<Rightarrow> string \<Rightarrow> column" where
  "echo_column key title align role = \<lparr>co_key = key, co_title = title, co_align = align, co_role = role\<rparr>"

definition echo_console :: console_spec where
  "echo_console = \<lparr>cs_front = ''console'', cs_web_url = ''http://{address}/_console'',
     cs_panels = [
       \<lparr>pa_id = ''echoes'', pa_title = ''Echoes'', pa_kind = ''table'', pa_source = ''echo'',
        pa_columns = [echo_column ''name'' ''Name'' [] [], echo_column ''sent'' ''Sent'' ''right'' ''count''], pa_select = []\<rparr>,
       \<lparr>pa_id = ''wire'', pa_title = ''Wire'', pa_kind = ''stream'', pa_source = [],
        pa_columns = [echo_column ''text'' ''Text'' [] []], pa_select = ''echoes''\<rparr>],
     cs_tabs = [], cs_extend = []\<rparr>"

text \<open>\<open>Tail\<close> writes three rows, fewer if the host hangs up before, and returns once it has hung up.\<close>

definition echo_row :: "string \<Rightarrow> string \<Rightarrow> nat \<Rightarrow> row" where
  "echo_row panel selector i = \<lparr>rw_cells = [(''text'', panel @ ''/'' @ selector @ '' #'' @ [char_of (48 + i)])], rw_tone = ''ok''\<rparr>"

definition echo_tail :: "string \<Rightarrow> string \<Rightarrow> nat option \<Rightarrow> row list \<times> go_error option" where
  "echo_tail panel selector stop =
     (take (case stop of None \<Rightarrow> 3 | Some n \<Rightarrow> n) (map (echo_row panel selector) [1, 2, 3]), None)"

definition echo :: "('v, 'c, 'w) driver" where
  "echo = \<lparr>dr_type = ''echo'', dr_provision = (\<lambda>inst tc w. (None, w)), dr_provisioned = (\<lambda>dir w. (True, w)),
     dr_backend_socket = (\<lambda>dir port w. (dir @ ''/echo.sock'', w)), dr_conn_string = (\<lambda>inst ep w. (echo_conn_string inst, w)),
     dr_converge = None, dr_objects = None, dr_prune = None, dr_attributes = None, dr_backend_url = None,
     dr_supervised = Some (\<lambda>inst w. (True, w)), dr_hooked = None, dr_health = None, dr_restart = None, dr_advertised = None,
     dr_plan = Some echo_plan, dr_versionless = False, dr_templater = None, dr_proxy_filter = False,
     dr_admin = Some \<lparr>ad_resources = (\<lambda>inst ep w. (Inr echo_resources, w)), ad_actions = (\<lambda>w. (echo_actions, w)),
       ad_run = (\<lambda>inst ep action resource input w. (Inr (echo_run action resource), w))\<rparr>,
     dr_console = Some \<lparr>cn_describe = (\<lambda>w. (echo_console, w)), cn_tail = (\<lambda>inst ep panel selector stop w. (echo_tail panel selector stop, w))\<rparr>,
     dr_network = Some (\<lambda>inst w. (echo_network, w)), dr_boot_budget = Some echo_boot_budget\<rparr>"

section \<open>kv\<close>

record kv_config =
  kv_password :: string
  kv_max_memory :: string

definition kv_decode :: "('d \<Rightarrow> 'c gomap \<Rightarrow> kv_config \<times> diag list) \<Rightarrow> ('d, 'c, kv_config) decode_fn" where
  "kv_decode gohcl body ctx base version = (case gohcl body ctx of (c, ds) \<Rightarrow>
     if has_errors ds then FailedAt ds else Decoded (SpecValue c))"

definition kv_resolve :: "go_error + toolchain" where
  "kv_resolve = Inr (zero_toolchain\<lparr>tc_engine := ''kv'', tc_full := ''builtin''\<rparr>)"

text \<open>The plan, with the text \<open>%T\<close> gives for a spec that is no config.\<close>

definition spec_type :: "'v spec_val \<Rightarrow> string" where
  "spec_type spec = (case spec of NilSpec \<Rightarrow> ''<nil>'' | RawSpec b \<Rightarrow> ''plugin.RawSpec'' | SpecValue v \<Rightarrow> ''*main.Config'')"

definition kv_plan :: "(kv_config, 'w) spawner" where
  "kv_plan inst tc w = (case in_spec inst of
     SpecValue cfg \<Rightarrow> (Inr \<lparr>sp_specs = [\<lparr>ss_name = in_name inst, ss_dir = [], ss_bin = ''sh'',
       ss_args = [''-c'', ''password='' @ kv_password cfg @ '' maxmemory='' @ kv_max_memory cfg], ss_env = [], ss_tree = False,
       ss_after = [], ss_ready = None, ss_hooks = []\<rparr>]\<rparr>, w)
   | spec \<Rightarrow> (Inl (Plain (''kv '' @ [CHR 0x22] @ in_name inst @ [CHR 0x22] @ '': spec did not round-trip ('' @ spec_type spec @ '')'')), w))"

definition kv :: "(kv_config, 'c, 'w) driver" where
  "kv = \<lparr>dr_type = ''kv'', dr_provision = (\<lambda>inst tc w. (None, w)), dr_provisioned = (\<lambda>dir w. (True, w)),
     dr_backend_socket = (\<lambda>dir port w. (dir @ ''/kv.sock'', w)), dr_conn_string = (\<lambda>inst ep w. ((''KV_URL'', ''kv://local''), w)),
     dr_converge = None, dr_objects = None, dr_prune = None, dr_attributes = None, dr_backend_url = None,
     dr_supervised = None, dr_hooked = None, dr_health = None, dr_restart = None, dr_advertised = None,
     dr_plan = Some kv_plan, dr_versionless = False, dr_templater = None, dr_proxy_filter = False,
     dr_admin = None, dr_console = None, dr_network = None, dr_boot_budget = None\<rparr>"

lemma kv_plans [simp]: "dr_plan kv = Some kv_plan"
  by (simp add: kv_def)

interpretation echo: provisioning "dr_provision echo" "dr_provisioned echo"
  by unfold_locales (simp_all add: echo_def)

interpretation kv: provisioning "dr_provision kv" "dr_provisioned kv"
  by unfold_locales (simp_all add: kv_def)

section \<open>What a host sees of echo\<close>

lemma echo_network_valid: "validate_network echo_network = []"
  by code_simp

lemma echo_seen:
  "host_driver (echo :: ('v, 'c, 'w) driver) = \<lparr>pd_type = ''echo'',
     pd_caps = [cap_lifecycle, cap_spawner, cap_admin, cap_console, cap_networked], pd_boot_budget = echo_boot_budget\<rparr>"
  by (simp add: host_driver_def server_capabilities_def echo_def add_cap_def Let_def milliseconds_def boot_budget_def
      echo_boot_budget_def wrap_int64_def max_boot_budget_def)

lemma echo_wrapper: "wrap_caps (host_driver (echo :: ('v, 'c, 'w) driver)) = AdminDriver"
  by (simp add: wrap_caps_def Let_def host_driver_caps) (simp add: echo_def)

lemma echo_fits: "driver_fits echo"
  by (simp add: driver_fits_def echo_def echo_network_def echo_plan_def zero_listener_def int32_ok_def console_fits_def echo_console_def ready_fits_def)

lemma kv_fits: "driver_fits kv"
  by (auto simp: driver_fits_def kv_def kv_plan_def ready_fits_def split: spec_val.splits)

section \<open>A config there and back\<close>

text \<open>Planning through the host's stand-in, on a spec the host holds as bytes.\<close>

lemma kv_plan_through_the_wire:
  assumes "\<And>v b. gob_enc v = Inr b \<Longrightarrow> b \<noteq> [] \<and> gob_dec b = Inr v" "gob_enc cfg = Inr b" "int32_ok (in_port inst)"
  shows "pd_plan gob_enc (server_client None ce gob_dec kv) (inst\<lparr>in_spec := RawSpec b\<rparr>) tc
    = on_host (heard_result (kv_plan (inst\<lparr>in_spec := SpecValue cfg\<rparr>) tc))"
proof -
  have "opened_spec gob_dec (RawSpec b) = Inr (SpecValue cfg)"
    using assms(1)[OF assms(2)] by (simp add: opened_spec_def decode_spec_def)
  then have "crosses gob_enc gob_dec (inst\<lparr>in_spec := RawSpec b\<rparr>) (inst\<lparr>in_spec := RawSpec b\<rparr>\<lparr>in_spec := SpecValue cfg\<rparr>)"
    using assms(3) by (intro crossesI assms(1)) (simp_all add: instance_spec_def)
  then obtain p where p: "instance_to_proto gob_enc (inst\<lparr>in_spec := RawSpec b\<rparr>) = Inr p"
    "instance_from_proto gob_dec (Some p) = Inr (inst\<lparr>in_spec := SpecValue cfg\<rparr>)"
    by (auto simp: crosses_def)
  show ?thesis
    by (simp add: through_the_wire with_instance_crosses[OF p(1)] on_instance_crosses[OF p(2)] call_result_up
        driver_fits_plan[OF kv_fits kv_plans])
qed

text \<open>C33. A config makes the round trip it is sent on. What the module's decoder reads out of a block of the user's file
  goes to the host as bytes, and when the host then asks for a plan, on an instance that carries those bytes, the plan
  that comes back over the wire has the values of the block in it, and starts exactly one process.\<close>

theorem kv_config_round_trips:
  assumes codec: "\<And>v b. gob_enc v = Inr b \<Longrightarrow> b \<noteq> [] \<and> gob_dec b = Inr v"
    and "vars_to_json cty_enc vars = Inr vj" "reached hx implied ctydec rq remain place vars'"
    and "rq = \<lparr>rq_file = file, rq_block_type = ty, rq_block_label = label, rq_variables = vj,
        rq_base_dir = base, rq_engine_version = version, rq_filename = filename\<rparr>"
    and "gohcl remain vars' = (cfg, ds)" "\<not> has_errors ds" "gob_enc cfg = Inr b" "int32_ok (in_port inst)"
  shows "decode_remote cty_enc (server_decode_config marshals hx implied ctydec gob_enc (Some (kv_decode gohcl))) file filename ty label vars base version
      = Inr (RawSpec b :: kv_config spec_val)
    \<and> map_sum id (map ss_args \<circ> sp_specs) (fst (pd_plan gob_enc (server_client None ce gob_dec kv) (inst\<lparr>in_spec := RawSpec b\<rparr>) tc st))
      = Inr [[''-c'', ''password='' @ kv_password cfg @ '' maxmemory='' @ kv_max_memory cfg]]"
proof
  have "kv_decode gohcl remain vars' base version = Decoded (SpecValue cfg)" using assms(5,6) by (simp add: kv_decode_def)
  then show "decode_remote cty_enc (server_decode_config marshals hx implied ctydec gob_enc (Some (kv_decode gohcl))) file filename ty label vars base version
      = Inr (RawSpec b :: kv_config spec_val)"
    using server_decode_reached[OF assms(3), of marshals gob_enc "kv_decode gohcl"] assms(2,4,7)
    by (simp add: decode_remote_def encode_spec_def)
  show "map_sum id (map ss_args \<circ> sp_specs) (fst (pd_plan gob_enc (server_client None ce gob_dec kv) (inst\<lparr>in_spec := RawSpec b\<rparr>) tc st))
      = Inr [[''-c'', ''password='' @ kv_password cfg @ '' maxmemory='' @ kv_max_memory cfg]]"
    by (simp add: kv_plan_through_the_wire[where gob_enc = gob_enc and gob_dec = gob_dec and cfg = cfg and b = b and inst = inst, OF codec assms(7,8)] on_host_def heard_result_def kv_plan_def)
qed

text \<open>A codec for it: the password's length in unary, then both strings.\<close>

definition demo_gob :: "kv_config \<Rightarrow> string + string" where
  "demo_gob c = Inr (replicate (length (kv_password c)) (CHR ''a'') @ CHR ''b'' # kv_password c @ kv_max_memory c)"

definition demo_ungob :: "string \<Rightarrow> string + kv_config" where
  "demo_ungob s = (let n = length (takeWhile (\<lambda>c. c = CHR ''a'') s) in
     Inr \<lparr>kv_password = take n (drop (n + 1) s), kv_max_memory = drop (n + (n + 1)) s\<rparr>)"

lemma demo_codec: "demo_gob v = Inr b \<Longrightarrow> b \<noteq> [] \<and> demo_ungob b = Inr v"
  by (cases v) (auto simp: demo_gob_def demo_ungob_def takeWhile_append)

lemma kv_config_round_trips_witness:
  "map_sum id (map ss_args \<circ> sp_specs) (fst (pd_plan demo_gob (server_client None example_json demo_ungob kv)
     (zero_instance\<lparr>in_spec := RawSpec ''aabpwyz''\<rparr>) zero_toolchain \<lparr>ho_world = (), ho_reporter = True, ho_reports = [], ho_console = None\<rparr>))
   = Inr [[''-c'', ''password=pw maxmemory=yz'']]"
proof -
  have v: "vars_to_json example_json [] = Inr []" by simp
  have r: "reached example_hcl Inr example_value (example_request ''yz'') ''yz'' (hx_def_range example_hcl ''yz'') []"
    by (rule example_reached)
  have q: "example_request ''yz'' = \<lparr>rq_file = ''yz'', rq_block_type = ''q'', rq_block_label = ''y'', rq_variables = [],
      rq_base_dir = ''/'', rq_engine_version = ''1'', rq_filename = ''doze.hcl''\<rparr>"
    by (simp add: example_request_def)
  let ?c = "\<lparr>kv_password = ''pw'', kv_max_memory = ''yz''\<rparr>"
  have e: "demo_gob ?c = Inr ''aabpwyz''" by (simp add: demo_gob_def numeral_eq_Suc)
  have i: "int32_ok (in_port (zero_instance :: kv_config inst))" by (simp add: zero_instance_def int32_ok_def)
  have g: "(\<lambda>body vars. (\<lparr>kv_password = ''pw'', kv_max_memory = body\<rparr>, [])) ''yz'' [] = (?c, [])" by simp
  have n: "\<not> has_errors []" by (simp add: has_errors_def)
  from conjunct2[OF kv_config_round_trips[where gob_enc = demo_gob and gob_dec = demo_ungob
        and gohcl = "\<lambda>body vars. (\<lparr>kv_password = ''pw'', kv_max_memory = body\<rparr>, [])" and ds = "[]" and cfg = ?c,
        OF demo_codec v r q g n e i, where ce = example_json]]
  show ?thesis by simp
qed

end
