(* ===== verification/Session.thy ===== *)
theory Session
  imports Descriptor Testmods
begin

text \<open>
  From a module's \<open>main\<close> to the driver doze works with: \<open>enginePlugin\<close> of \<open>plugin/plugin.go\<close> joins what the module's
  binary speaks (\<open>Entry\<close>), the launch (\<open>Modules\<close>), the server (\<open>Server\<close>, \<open>Descriptor\<close>) and the stand-in (\<open>Adapter\<close>).
  What versions the two sides agree on is go-plugin's, and a parameter.
\<close>

section \<open>The plugin and its handshake\<close>

record handshake_config =
  hk_protocol :: int
  hk_cookie_key :: string
  hk_cookie_value :: string

definition handshake :: handshake_config where
  "handshake = \<lparr>hk_protocol = protocol_version, hk_cookie_key = ''DOZE_PLUGIN'', hk_cookie_value = ''engine''\<rparr>"

text \<open>The module's end of the plugin has a driver and a broker to the host, doze's end has none.\<close>

record ('v, 'c, 'w, 'b) engine_plugin_server =
  eps_server :: "('v, 'c, 'w) engine_server"
  eps_broker :: 'b

definition grpc_server ::
  "(string \<Rightarrow> string option) \<Rightarrow> string \<Rightarrow> nat \<Rightarrow> 'b \<Rightarrow> ('v, 'c, 'w) driver \<Rightarrow> ('v, 'c, 'w, 'b) engine_plugin_server" where
  "grpc_server listen tmpdir pid broker impl =
     \<lparr>eps_server = new_engine_server listen tmpdir pid impl, eps_broker = broker\<rparr>"

definition grpc_client :: "'w engine_client \<Rightarrow> ('w Adapter.host, go_error + plugin_driver) act" where
  "grpc_client c = new_plugin_driver c"

section \<open>What a launch meets\<close>

text \<open>The versions a started binary speaks, if it speaks at all, and the driver behind \<open>pluginKey\<close> under one.\<close>

definition spoken :: "'d started \<Rightarrow> int list option" where
  "spoken s = (case s of Prints out \<Rightarrow> None | Speaks sets \<Rightarrow> Some (map fst sets))"

definition dispensed :: "'d started \<Rightarrow> int \<Rightarrow> 'd option" where
  "dispensed s v = (case s of Prints out \<Rightarrow> None
     | Speaks sets \<Rightarrow> (case map_of sets v of None \<Rightarrow> None
         | Some plugins \<Rightarrow> (case map_of plugins plugin_key of None \<Rightarrow> None | Some impl \<Rightarrow> impl)))"

text \<open>The answer a launch gets of a binary. \<open>agree\<close> is go-plugin's: the version, of those the host offers and those
  the binary speaks, or its error. Dispensing runs \<open>GRPCClient\<close> on a connection to the server of that driver, which \<open>lost\<close>
  says is lost or not.\<close>

definition module_answer ::
  "(int list \<Rightarrow> int list option \<Rightarrow> string + int) \<Rightarrow> (string \<Rightarrow> string option) \<Rightarrow> string \<Rightarrow> nat \<Rightarrow> go_error option \<Rightarrow>
   ('c \<Rightarrow> string + string) \<Rightarrow> (string \<Rightarrow> string + 'v) \<Rightarrow> ('v, 'c, 'w) driver started \<Rightarrow> 'w Adapter.host \<Rightarrow> plugin_driver answer" where
  "module_answer agree listen tmpdir pid lost ce dec s st =
     (case agree (map fst (versioned_set (None :: unit option))) (spoken s) of
        Inl e \<Rightarrow> HandshakeFails e
      | Inr v \<Rightarrow> (case dispensed s v of
          None \<Rightarrow> DispenseFails (''unknown plugin type: '' @ plugin_key)
        | Some impl \<Rightarrow> (case grpc_client (server_client lost ce dec (es_drv (eps_server (grpc_server listen tmpdir pid () impl)))) st of
            (Inl e, st1) \<Rightarrow> DispenseFails (error_text e)
          | (Inr d, st1) \<Rightarrow> Yields d)))"

text \<open>What go-plugin documents: two sides that share a version agree on the newest they share.\<close>

definition agrees_on_newest :: "(int list \<Rightarrow> int list option \<Rightarrow> string + int) \<Rightarrow> bool" where
  "agrees_on_newest agree \<longleftrightarrow> (\<forall>host module. set host \<inter> set module \<noteq> {} \<longrightarrow>
     agree host (Some module) = Inr (Max (set host \<inter> set module)))"

lemma versioned_plugins: "versioned_set d = [(protocol_version, [(plugin_key, d)])]"
  by (simp add: versioned_set_def protocols_def plugin_set_def)

lemma main_speaks: "fst (sdk_main [path] describer drv config types) = Speaks [(protocol_version, [(plugin_key, Some drv)])]"
  by (simp add: sdk_main_def sdk_serve_def has_mode_def versioned_plugins)

lemma module_answers:
  assumes "agrees_on_newest agree"
  shows "module_answer agree listen tmpdir pid lost ce dec (fst (sdk_main [path] describer drv config types)) st
    = (case fst (grpc_client (server_client lost ce dec drv) st) of Inl e \<Rightarrow> DispenseFails (error_text e) | Inr d \<Rightarrow> Yields d)"
proof -
  have "agree [protocol_version] (Some [protocol_version]) = Inr protocol_version"
    using assms by (simp add: agrees_on_newest_def)
  then show ?thesis
    by (simp add: module_answer_def main_speaks spoken_def dispensed_def versioned_plugins grpc_server_def new_engine_server_def
        split: prod.split sum.split)
qed

lemma answers_up: "agrees_on_newest agree \<Longrightarrow>
    module_answer agree listen tmpdir pid None ce dec (fst (sdk_main [path] describer drv config types)) st = Yields (host_driver drv)"
  by (simp add: module_answers grpc_client_def new_plugin_driver_up)

text \<open>Asked over a connection that is lost, a module cannot even say its type.\<close>

lemma answers_lost: "agrees_on_newest agree \<Longrightarrow>
    module_answer agree listen tmpdir pid (Some e) ce dec (fst (sdk_main [path] describer drv config types)) st
      = DispenseFails (''asking the module its type: '' @ error_text (the (user_error (Some e))))"
  by (simp add: module_answers grpc_client_def new_plugin_driver_def on_host_def server_client_def rpc_def error_text_def)

section \<open>The whole way\<close>

text \<open>C8. A binary whose \<open>main\<close> is the SDK's, asked for by its engine type, comes up as its driver: the first request
  starts one process and gives the stand-in for the very driver \<open>main\<close> was given, with its type and what it
  advertises, and the next request gives the same with nothing started. When the connection is lost before
  the module has said what it is, the launch fails as a failure to dispense it, no process stays behind and the
  engine compiled in, if there is one, is used.\<close>

theorem module_comes_up_as_its_driver:
  assumes "manager_reachable n m" "found ty = Some (path, env)" "\<nexists>d. warm ty d m" "agrees_on_newest agree"
    and "ans ty = module_answer agree listen tmpdir pid lost ce dec (fst (sdk_main [path] describer drv config types)) st"
  shows "\<exists>m'. (case lost of
      None \<Rightarrow> engine_lookup drivers found ans ty m = (Some (host_driver drv), m')
        \<and> engine_lookup drivers found ans ty m' = (Some (host_driver drv), m')
        \<and> sy_running (mm_system m') = insert (sy_next (mm_system m)) (sy_running (mm_system m))
    | Some e \<Rightarrow> engine_lookup drivers found ans ty m = (map_of drivers ty, m')
        \<and> launch_error_of ty m' = Some (ty, Dispensing path (''asking the module its type: '' @ error_text (the (user_error (Some e)))))
        \<and> sy_running (mm_system m') = sy_running (mm_system m))"
proof (cases lost)
  case None
  let ?m = "snd (launch_into (Yields (host_driver drv)) path ty (cooled ty m))"
  have a: "ans ty = Yields (host_driver drv)" using answers_up[OF assms(4)] assms(5) None by simp
  have up: "engine_lookup drivers found ans ty m = (Some (host_driver drv), ?m)" "warm ty (host_driver drv) ?m"
    by (simp_all add: engine_lookup_def registry_lookup_def manager_lookup_def assms(2) a driver_cold[OF assms(3)] launch_yields
        warm_def host_alive_def)
  then show ?thesis
    using lookup_warm[where found = found and drivers = drivers and ans = ans, OF up(2) assms(2)] up(1) None cooled_system[OF assms(3)] by (auto simp: launch_yields)
next
  case (Some e)
  have a: "ans ty = DispenseFails (''asking the module its type: '' @ error_text (the (user_error (Some e))))"
    using answers_lost[OF assms(4)] assms(5) Some by simp
  show ?thesis
    using cooled_system[OF assms(3)] next_not_running[OF manager_reachable_inv[OF assms(1)]]
    by (simp add: Some engine_lookup_def registry_lookup_def manager_lookup_def assms(2) a driver_cold[OF assms(3)]
        launch_into_def launch_def start_process_def kill_process_def launch_error_of_def)
qed

definition demo_agree :: "int list \<Rightarrow> int list option \<Rightarrow> string + int" where
  "demo_agree host module = (case module of None \<Rightarrow> Inl ''Unrecognized remote plugin message''
     | Some vs \<Rightarrow> if set host \<inter> set vs = {} then Inl ''Incompatible API version'' else Inr (Max (set host \<inter> set vs)))"

definition demo_answers :: "string \<Rightarrow> plugin_driver answer" where
  "demo_answers ty = module_answer demo_agree (\<lambda>p. None) ''/tmp'' 4 None (\<lambda>c :: unit. Inr []) Inl
     (fst (sdk_main [''/bin/echo''] (\<lambda>_. None) (echo :: (unit, unit, unit) driver) (None :: unit option) []))
     \<lparr>ho_world = (), ho_reporter = False, ho_reports = [], ho_console = None\<rparr>"

lemma module_comes_up_as_its_driver_witness:
  "\<exists>m'. engine_lookup [] (\<lambda>ty. Some (''/bin/echo'', None)) demo_answers ''echo'' (new_module_manager (fresh_system 7))
      = (Some (host_driver (echo :: (unit, unit, unit) driver)), m') \<and> sy_running (mm_system m') = {7}"
proof -
  have r: "manager_reachable 7 (new_module_manager (fresh_system 7))" by (simp add: manager_reachable_def)
  have c: "\<nexists>d. warm ''echo'' d (new_module_manager (fresh_system 7))" by (simp add: warm_def new_module_manager_def)
  have g: "agrees_on_newest demo_agree" by (simp add: agrees_on_newest_def demo_agree_def)
  from module_comes_up_as_its_driver[where found = "\<lambda>ty. Some (''/bin/echo'', None)" and drivers = "[]" and ans = demo_answers, OF r refl c g demo_answers_def]
  show ?thesis by (auto simp: new_module_manager_def fresh_system_def)
qed

end
